(* ===== verification/Mtk_Prelude.thy ===== *)
theory Mtk_Prelude
  imports Main "HOL-Library.Word"
begin

text \<open>
  Shared vocabulary of the development: the C integer types at their width, the undefined
  behaviour a C function can run into, the parts of the C string library the sources call
  (\<open>strncmp\<close>, \<open>strncasecmp\<close>, \<open>strchr\<close>, \<open>strstr\<close>, \<open>strtol\<close>, \<open>atoi\<close>, the
  \<open>%d\<close>, \<open>%02x\<close>, \<open>%08X\<close> conversions of \<open>printf\<close> and the truncation rule of
  \<open>snprintf\<close>), and the lemmas on lists, strings and words the components share.

  A C string is the list of its characters before the terminating NUL.
\<close>

unbundle bit_operations_syntax

named_theorems cstring "evaluation of the C string library"
named_theorems layout "sizes and header fields of the driver structures"

section \<open>Integers and failure\<close>

type_synonym u8 = "8 word"
type_synonym u16 = "16 word"
type_synonym u32 = "32 word"
type_synonym u64 = "64 word"
type_synonym s32 = "32 word"
type_synonym mac = "u8 list"

text \<open>What a C function that leaves the defined behaviour of the language did.\<close>

datatype ub = Null_deref | Out_of_bounds | Uninit_read

text \<open>\<open>BIT\<close> of the supplicant's headers: a one-bit mask of 32 bits.\<close>

definition BIT :: "nat \<Rightarrow> u32" where
  "BIT n = push_bit n 1"

lemma bit_BIT: "bit (BIT n) k \<longleftrightarrow> n < 32 \<and> k = n"
  by (auto simp: BIT_def push_bit_eq_mult bit_exp_iff)

lemma BIT_AND_eq_0_iff: "n < 32 \<Longrightarrow> BIT n AND w = 0 \<longleftrightarrow> \<not> bit w n"
proof
  assume "n < 32" and "BIT n AND w = 0"
  then have "\<not> bit (BIT n AND w) n" by simp
  with \<open>n < 32\<close> show "\<not> bit w n" by (simp add: bit_and_iff bit_BIT)
next
  assume "\<not> bit w n"
  then show "BIT n AND w = 0"
    by (intro bit_eqI) (auto simp: bit_and_iff bit_BIT)
qed

lemma unat_u8_of_nat: "n < 256 \<Longrightarrow> unat (word_of_nat n :: u8) = n"
  by (subst unat_of_nat) simp

section \<open>Characters and comparison\<close>

definition chr_code :: "char \<Rightarrow> nat" where
  "chr_code c = of_char c"

definition tolower :: "char \<Rightarrow> char" where
  "tolower c = (if 65 \<le> chr_code c \<and> chr_code c \<le> 90 then char_of (chr_code c + 32) else c)"

definition strncmp_eq :: "nat \<Rightarrow> string \<Rightarrow> string \<Rightarrow> bool" where
  "strncmp_eq n a b \<longleftrightarrow> take n a = take n b"

definition strncasecmp_eq :: "nat \<Rightarrow> string \<Rightarrow> string \<Rightarrow> bool" where
  "strncasecmp_eq n a b \<longleftrightarrow> map tolower (take n a) = map tolower (take n b)"

definition strcasecmp_eq :: "string \<Rightarrow> string \<Rightarrow> bool" where
  "strcasecmp_eq a b \<longleftrightarrow> map tolower a = map tolower b"

text \<open>
  \<open>strchr\<close> and \<open>strstr\<close> return the suffix at which the match starts.
\<close>

fun strchr :: "string \<Rightarrow> char \<Rightarrow> string option" where
  "strchr [] c = None"
| "strchr (x # xs) c = (if x = c then Some (x # xs) else strchr xs c)"

fun strstr :: "string \<Rightarrow> string \<Rightarrow> string option" where
  "strstr [] pat = (if pat = [] then Some [] else None)"
| "strstr (x # xs) pat =
     (if take (length pat) (x # xs) = pat then Some (x # xs) else strstr xs pat)"

lemma strncmp_eq_prefix [cstring]:
  "strncmp_eq (length p) (p @ s) p"
  by (simp add: strncmp_eq_def)

lemma strchr_append_notin [cstring]:
  "c \<notin> set xs \<Longrightarrow> strchr (xs @ c # ys) c = Some (c # ys)"
  by (induction xs) auto

lemma strchr_None_iff [cstring]: "strchr xs c = None \<longleftrightarrow> c \<notin> set xs"
  by (induction xs) auto

section \<open>Number parsing: strtol and atoi\<close>

definition is_space :: "char \<Rightarrow> bool" where
  "is_space c \<longleftrightarrow> chr_code c = 32 \<or> (9 \<le> chr_code c \<and> chr_code c \<le> 13)"

definition digit_val :: "char \<Rightarrow> nat option" where
  "digit_val c =
     (let n = chr_code c in
      if 48 \<le> n \<and> n \<le> 57 then Some (n - 48)
      else if 65 \<le> n \<and> n \<le> 90 then Some (n - 55)
      else if 97 \<le> n \<and> n \<le> 122 then Some (n - 87)
      else None)"

definition digit_in :: "nat \<Rightarrow> char \<Rightarrow> nat option" where
  "digit_in base c =
     (case digit_val c of None \<Rightarrow> None | Some d \<Rightarrow> if d < base then Some d else None)"

text \<open>The longest run of digits of the base: value and what is left.\<close>

fun digits_val :: "nat \<Rightarrow> nat \<Rightarrow> string \<Rightarrow> nat \<times> string" where
  "digits_val base acc [] = (acc, [])"
| "digits_val base acc (c # cs) =
     (case digit_in base c of
        None \<Rightarrow> (acc, c # cs)
      | Some d \<Rightarrow> digits_val base (acc * base + d) cs)"

definition has_digit :: "nat \<Rightarrow> string \<Rightarrow> bool" where
  "has_digit base s \<longleftrightarrow> (case s of [] \<Rightarrow> False | c # _ \<Rightarrow> digit_in base c \<noteq> None)"

definition hex_prefix :: "string \<Rightarrow> bool" where
  "hex_prefix s \<longleftrightarrow>
     (case s of z # x # r \<Rightarrow> z = CHR ''0'' \<and> tolower x = CHR ''x'' \<and> has_digit 16 r | _ \<Rightarrow> False)"

text \<open>The base \<open>strtol\<close> settles on, and the text its digits start at.\<close>

definition strtol_base :: "nat \<Rightarrow> string \<Rightarrow> nat \<times> string" where
  "strtol_base base s =
     (if (base = 0 \<or> base = 16) \<and> hex_prefix s then (16, drop 2 s)
      else if base = 0 then (if take 1 s = ''0'' then 8 else 10, s)
      else (base, s))"

definition split_sign :: "string \<Rightarrow> bool \<times> string" where
  "split_sign s =
     (case s of
        [] \<Rightarrow> (False, [])
      | c # cs \<Rightarrow> if c = CHR ''-'' then (True, cs)
                  else if c = CHR ''+'' then (False, cs) else (False, s))"

text \<open>A value that does not fit the \<open>long\<close> of \<open>lw\<close> bits is clamped to its limits.\<close>

definition clamp_long :: "nat \<Rightarrow> int \<Rightarrow> int" where
  "clamp_long lw v = max (- (2 ^ (lw - 1))) (min (2 ^ (lw - 1) - 1) v)"

text \<open>
  \<open>strtol (s, &endp, base)\<close>: the value and the text at \<open>endp\<close>, which is \<open>s\<close> itself when
  there is no digit to convert.
\<close>

definition strtol :: "nat \<Rightarrow> nat \<Rightarrow> string \<Rightarrow> int \<times> string" where
  "strtol lw base s =
     (let (neg, t) = split_sign (dropWhile is_space s);
          (b, u) = strtol_base base t
      in if has_digit b u
         then (let (v, r) = digits_val b 0 u
               in (clamp_long lw (if neg then - int v else int v), r))
         else (0, s))"

text \<open>\<open>atoi\<close> is \<open>strtol\<close> in base ten, cut to the 32 bits of an \<open>int\<close>.\<close>

definition atoi :: "nat \<Rightarrow> string \<Rightarrow> s32" where
  "atoi lw s = word_of_int (fst (strtol lw 10 s))"

section \<open>Number printing\<close>

definition digit_char :: "nat \<Rightarrow> char" where
  "digit_char d = char_of (if d < 10 then d + 48 else d + 87)"

definition digit_char_upper :: "nat \<Rightarrow> char" where
  "digit_char_upper d = char_of (if d < 10 then d + 48 else d + 55)"

fun dec_digits :: "nat \<Rightarrow> string" where
  "dec_digits n = (if n < 10 then [digit_char n] else dec_digits (n div 10) @ [digit_char (n mod 10)])"

declare dec_digits.simps [simp del]

text \<open>\<open>%d\<close>\<close>

definition fmt_d :: "int \<Rightarrow> string" where
  "fmt_d i = (if i < 0 then CHR ''-'' # dec_digits (nat (- i)) else dec_digits (nat i))"

text \<open>\<open>%02x\<close> of a byte, \<open>%02X\<close> of a byte and \<open>%08X\<close> of a 32-bit value.\<close>

definition fmt_02x :: "u8 \<Rightarrow> string" where
  "fmt_02x b = [digit_char (unat b div 16), digit_char (unat b mod 16)]"

definition fmt_02X :: "u8 \<Rightarrow> string" where
  "fmt_02X b = [digit_char_upper (unat b div 16), digit_char_upper (unat b mod 16)]"

definition fmt_08X :: "u32 \<Rightarrow> string" where
  "fmt_08X w = map (\<lambda>k. digit_char_upper (unat w div 16 ^ k mod 16)) [7, 6, 5, 4, 3, 2, 1, 0]"

text \<open>\<open>MACSTR\<close> applied to \<open>MAC2STR\<close>: six bytes joined with colons.\<close>

fun join_colon :: "string list \<Rightarrow> string" where
  "join_colon [] = []"
| "join_colon [x] = x"
| "join_colon (x # y # zs) = x @ CHR '':'' # join_colon (y # zs)"

definition fmt_mac :: "mac \<Rightarrow> string" where
  "fmt_mac m = join_colon (map fmt_02x (take 6 m))"

text \<open>The character that ends a C string in a buffer.\<close>

definition NUL :: char where
  "NUL = CHR 0x00"

section \<open>snprintf\<close>

text \<open>
  \<open>snprintf (dst, size, text)\<close> stores at most \<open>size - 1\<close> characters and the NUL, stores
  nothing when \<open>size\<close> is 0, and returns the length of the whole text.
\<close>

definition snprintf :: "nat \<Rightarrow> string \<Rightarrow> string \<times> int" where
  "snprintf sz txt = (take (sz - 1) txt, int (length txt))"

section \<open>Byte buffers\<close>

text \<open>
  A copy of \<open>src\<close> over the start of the buffer \<open>dst\<close>; the rest of the buffer stays.
\<close>

definition copy_over :: "'a list \<Rightarrow> 'a list \<Rightarrow> 'a list" where
  "copy_over src dst = src @ drop (length src) dst"

lemma length_copy_over [simp]:
  "length (copy_over src dst) = max (length src) (length dst)"
  by (auto simp: copy_over_def)

text \<open>Little-endian reads, as the ARM target performs them.\<close>

fun le_val :: "u8 list \<Rightarrow> nat" where
  "le_val [] = 0"
| "le_val (b # bs) = unat b + 256 * le_val bs"

fun le_bytes :: "nat \<Rightarrow> nat \<Rightarrow> u8 list" where
  "le_bytes 0 v = []"
| "le_bytes (Suc n) v = word_of_nat (v mod 256) # le_bytes n (v div 256)"

definition le_u16 :: "u8 list \<Rightarrow> u16" where
  "le_u16 bs = word_of_nat (le_val (take 2 bs))"

definition le_u32 :: "u8 list \<Rightarrow> u32" where
  "le_u32 bs = word_of_nat (le_val (take 4 bs))"

section \<open>Printing and parsing agree\<close>

lemma chr_code_digit_char: "d < 10 \<Longrightarrow> chr_code (digit_char d) = d + 48"
  by (simp add: chr_code_def digit_char_def)

lemma digit_in_digit_char: "d < 10 \<Longrightarrow> digit_in 10 (digit_char d) = Some d"
  by (simp add: digit_in_def digit_val_def chr_code_digit_char)

lemma digits_val_append:
  "\<forall>c \<in> set xs. digit_in b c \<noteq> None \<Longrightarrow>
   digits_val b acc (xs @ ys) = digits_val b (fst (digits_val b acc xs)) ys"
  by (induction xs arbitrary: acc) (auto split: option.splits)

lemma digits_val_stop: "\<not> has_digit b s \<Longrightarrow> digits_val b acc s = (acc, s)"
  by (cases s) (auto simp: has_digit_def split: option.splits)

lemma dec_digits_set: "c \<in> set (dec_digits n) \<Longrightarrow> \<exists>d < 10. c = digit_char d"
proof (induction n rule: dec_digits.induct)
  case (1 n)
  show ?case
  proof (cases "n < 10")
    case True
    with 1(2) show ?thesis by (subst (asm) dec_digits.simps) auto
  next
    case False
    with 1(2) have "c \<in> set (dec_digits (n div 10)) \<or> c = digit_char (n mod 10)"
      by (subst (asm) dec_digits.simps) auto
    moreover have "n mod 10 < 10" by simp
    ultimately show ?thesis using 1(1) False by blast
  qed
qed

lemma dec_digits_nonempty: "dec_digits n \<noteq> []"
  by (subst dec_digits.simps) simp

lemma digits_val_dec: "digits_val 10 0 (dec_digits n) = (n, [])"
proof (induction n rule: dec_digits.induct)
  case (1 n)
  show ?case
  proof (cases "n < 10")
    case True
    then show ?thesis by (subst dec_digits.simps) (simp add: digit_in_digit_char)
  next
    case False
    with 1 have IH: "digits_val 10 0 (dec_digits (n div 10)) = (n div 10, [])" by simp
    have "\<forall>c \<in> set (dec_digits (n div 10)). digit_in 10 c \<noteq> None"
      using dec_digits_set digit_in_digit_char by fastforce
    from digits_val_append [OF this, of 0 "[digit_char (n mod 10)]"] IH False
    show ?thesis by (subst dec_digits.simps) (simp add: digit_in_digit_char)
  qed
qed

lemma digits_val_dec_append:
  assumes "\<not> has_digit 10 s"
  shows "digits_val 10 0 (dec_digits n @ s) = (n, s)"
proof -
  have "\<forall>c \<in> set (dec_digits n). digit_in 10 c \<noteq> None"
    using dec_digits_set digit_in_digit_char by fastforce
  then show ?thesis by (simp add: digits_val_append digits_val_dec digits_val_stop [OF assms])
qed

lemma dec_digits_hd: obtains d xs where "dec_digits n = digit_char d # xs" "d < 10"
  by (metis dec_digits_nonempty dec_digits_set list.exhaust list.set_intros(1))

lemma digit_char_not: "d < 10 \<Longrightarrow> \<not> is_space (digit_char d) \<and> digit_char d \<noteq> CHR ''-'' \<and> digit_char d \<noteq> CHR ''+''"
  by (auto dest!: arg_cong [where f = chr_code] simp: is_space_def chr_code_digit_char)
     (auto simp: chr_code_def)


lemma tolower_Char [cstring]:
  "tolower (Char b0 b1 b2 b3 b4 b5 b6 b7) =
     Char b0 b1 b2 b3 b4
       (b5 \<or> b6 \<and> \<not> b7 \<and> (b0 \<or> b1 \<or> b2 \<or> b3 \<or> b4) \<and> \<not> (b4 \<and> b3 \<and> (b2 \<or> b1 \<and> b0))) b6 b7"
  by (cases b0; cases b1; cases b2; cases b3; cases b4; cases b5; cases b6; cases b7;
      simp add: tolower_def chr_code_def char_of_def bit_0)

lemma strtol_fmt_d:
  assumes "- (2 ^ (lw - 1)) \<le> i" "i < 2 ^ (lw - 1)" "\<not> has_digit 10 s"
  shows "strtol lw 10 (fmt_d i @ s) = (i, s)"
proof -
  obtain d xs where d: "dec_digits (nat (abs i)) = digit_char d # xs" "d < 10"
    by (rule dec_digits_hd)
  have *: "dropWhile is_space (digit_char d # xs @ s) = digit_char d # xs @ s"
    "split_sign (digit_char d # xs @ s) = (False, digit_char d # xs @ s)"
    "has_digit 10 (digit_char d # xs @ s)"
    using digit_char_not [OF d(2)] by (simp_all add: split_sign_def has_digit_def digit_in_digit_char d(2))
  have dv: "digits_val 10 0 (digit_char d # xs @ s) = (nat (abs i), s)"
    using digits_val_dec_append [OF assms(3), of "nat (abs i)"] by (simp add: d)
  have cl: "clamp_long lw i = i" using assms by (auto simp: clamp_long_def)
  show ?thesis
  proof (cases "i < 0")
    case True
    then have "fmt_d i @ s = CHR ''-'' # digit_char d # xs @ s" using d by (simp add: fmt_d_def)
    then show ?thesis using True * dv cl
      by (simp add: strtol_def split_sign_def is_space_def chr_code_def strtol_base_def  del: digits_val.simps)
  next
    case False
    then have "fmt_d i @ s = digit_char d # xs @ s" using d by (simp add: fmt_d_def)
    then show ?thesis using False * dv cl
      by (simp add: strtol_def  strtol_base_def del: digits_val.simps dropWhile.simps)
  qed
qed

lemma atoi_fmt_d:
  assumes "32 \<le> lw" "- (2 ^ 31) \<le> i" "i < 2 ^ 31" "\<not> has_digit 10 s"
  shows "atoi lw (fmt_d i @ s) = word_of_int i"
proof -
  have "(2::int) ^ 31 \<le> 2 ^ (lw - 1)"
    using assms(1) by (intro power_increasing) auto
  then have "strtol lw 10 (fmt_d i @ s) = (i, s)"
    using assms by (intro strtol_fmt_d) auto
  then show ?thesis by (simp add: atoi_def)
qed

lemma fmt_d_chars: "c \<in> set (fmt_d i) \<Longrightarrow> c = CHR ''-'' \<or> (\<exists>d < 10. c = digit_char d)"
  by (auto simp: fmt_d_def dest: dec_digits_set split: if_splits)

lemma fmt_d_nonempty: "fmt_d i \<noteq> []"
  by (simp add: fmt_d_def dec_digits_nonempty)

lemma length_dec_digits: "n < 10 ^ k \<Longrightarrow> 0 < k \<Longrightarrow> length (dec_digits n) \<le> k"
proof (induction k arbitrary: n)
  case (Suc k)
  show ?case
  proof (cases "n < 10")
    case True
    then show ?thesis by (subst dec_digits.simps) simp
  next
    case False
    with Suc.prems have "n div 10 < 10 ^ k" "0 < k" by (auto simp: div_less_iff_less_mult) (cases k; simp)
    with Suc.IH False show ?thesis by (subst dec_digits.simps) simp
  qed
qed simp

lemma length_fmt_d:
  assumes "\<bar>i\<bar> \<le> 2 ^ 31"
  shows "length (fmt_d i) \<le> 11"
proof -
  have "nat \<bar>i\<bar> < 10 ^ 10" using assms by simp
  then have "length (dec_digits (nat \<bar>i\<bar>)) \<le> 10" by (rule length_dec_digits) simp
  then show ?thesis by (auto simp: fmt_d_def)
qed

text \<open>Facts that evaluate the string library on literals.\<close>

lemmas strtol_eval = strtol_def split_sign_def is_space_def chr_code_def strtol_base_def
  has_digit_def digit_in_def digit_val_def clamp_long_def hex_prefix_def Let_def
lemmas char_eval = char_of_def bit_0 digit_char_def digit_char_upper_def

end
