(* ===== verification/Testmode.thy ===== *)
theory Testmode
  imports Mtk_Prelude
begin

text \<open>
  The testmode transport of \<open>wpa_supplicant_8_lib\<close>: the request structures of
  \<open>mediatek_driver_nl80211.h\<close>, \<open>wpa_driver_nl80211_testmode\<close>, which wraps a request in an
  \<open>NL80211_CMD_TESTMODE\<close> message and picks the reply handler from the masked index, and the
  senders that only fill a request and pass it on.

  What lies outside the repository is a field of the environment \<open>drv_env\<close>: the message
  allocator and \<open>nla_put\<close> of libnl, \<open>send_and_recv_msgs\<close>, \<open>hwaddr_aton\<close> and
  \<open>is_zero_ether_addr\<close> of the supplicant, and the size of its \<open>struct wfd_data_s\<close>. Their answers may depend on everything sent so far;
  the log of sent messages is the state of this layer.
\<close>

section \<open>Requests\<close>

definition BITS :: "nat \<Rightarrow> nat \<Rightarrow> u32" where
  "BITS m n = NOT (BIT m - 1) AND ((BIT n - 1) OR BIT n)"

text \<open>\<open>enum nl80211_testmode_params\<close>\<close>

definition NL80211_TESTMODE_SW_CMD :: u32 where "NL80211_TESTMODE_SW_CMD = 1"
definition NL80211_TESTMODE_WAPI :: u32 where "NL80211_TESTMODE_WAPI = 2"
definition NL80211_TESTMODE_HS20 :: u32 where "NL80211_TESTMODE_HS20 = 3"
definition NL80211_TESTMODE_STATISTICS :: u32 where "NL80211_TESTMODE_STATISTICS = 0x10"
definition NL80211_TESTMODE_HS_SET_CONFIG :: u32 where "NL80211_TESTMODE_HS_SET_CONFIG = 51"
definition NL80211_TESTMODE_SUSPEND :: u32 where "NL80211_TESTMODE_SUSPEND = 101"
definition NL80211_TESTMODE_STR_CMD :: u32 where "NL80211_TESTMODE_STR_CMD = 102"
definition NL80211_TESTMODE_RXFILTER :: u32 where "NL80211_TESTMODE_RXFILTER = 103"

lemmas testmode_ids [layout] = NL80211_TESTMODE_SW_CMD_def NL80211_TESTMODE_WAPI_def
  NL80211_TESTMODE_HS20_def NL80211_TESTMODE_STATISTICS_def NL80211_TESTMODE_HS_SET_CONFIG_def
  NL80211_TESTMODE_SUSPEND_def NL80211_TESTMODE_STR_CMD_def NL80211_TESTMODE_RXFILTER_def

record test_mode_info =
  tm_index :: u32
  tm_buflen :: u32

text \<open>\<open>struct iw_encode_exts\<close>: \<open>tx_seq\<close> and \<open>rx_seq\<close> lie next to each other.\<close>

record iw_encode_exts =
  ext_flags :: u32
  ext_tx_seq :: "u8 list"
  ext_rx_seq :: "u8 list"
  ext_addr :: mac
  ext_alg :: u16
  ext_key_len :: u16
  ext_key :: "u8 list"

text \<open>\<open>struct wfd_data_s\<close> as the caller fills it, and the part \<open>wpas_wfd_data_update\<close> copies.\<close>

record wfd_data =
  WfdCmdType :: u32
  WfdEnable :: u8
  WfdCoupleSinkStatus :: u8
  WfdSessionAvailable :: u8
  WfdSigmaMode :: u8
  WfdDevInfo :: u16
  WfdControlPort :: u16
  WfdMaximumTp :: u16
  WfdExtendCap :: u16
  WfdCoupleSinkAddress :: mac
  WfdAssociatedBssid :: mac
  WfdVideoIp :: "u8 list"
  WfdAudioIp :: "u8 list"
  WfdVideoPort :: u16
  WfdAudioPort :: u16
  WfdFlag :: u32
  WfdPolicy :: u32
  WfdState :: u32
  WfdSessionInformationIE :: "u8 list"
  WfdSessionInformationIELen :: u16
  WfdPrimarySinkMac :: mac
  WfdSecondarySinkMac :: mac
  WfdAdvancedFlag :: u32
  WfdLocalIp :: "u8 list"

text \<open>
  The request structures, without their common header. The pointer to the reply buffer that two
  of them carry is the caller's accumulator in this model.
\<close>

datatype testmode_body =
    Get_sta_statistics (sta_version: u32) (sta_flag: u32) (sta_addr: mac)
  | P2p_sigma (sigma_idx: u32) (sigma_value: u32)
  | Hotspot (hs_blocked: u8) (hs_bssid: mac)
  | Hotspot_set_config (hs_index: u32) (hs_value: u32)
  | Get_available_channel
  | Sw_cmd (sw_set: u8) (sw_adr: u32) (sw_data: u32)
  | Suspendmode (sm_suspend: u8)
  | Wapi_key (wk_key_index: u8) (wk_key_len: u8) (wk_extparams: iw_encode_exts)
  | Rx_filter (Ipv4FilterHigh: u32) (Ipv4FilterLow: u32) (Ipv6FilterHigh: u32)
      (Ipv6FilterLow: u32) (SnapFilterHigh: u32) (SnapFilterLow: u32)
  | P2p_noa (noa_idx: u32) (noa_value: u32) (noa_count: u32) (noa_interval: u32)
      (noa_duration: u32)
  | Wfd_update wfd_data
  | Str_cmd string

record testmode_request =
  req_hdr :: test_mode_info
  req_body :: testmode_body

text \<open>
  \<open>sizeof\<close> of the request structures; \<open>p\<close> is the size of a pointer. A string command is as
  long as its text and the header.
\<close>

definition align_to :: "nat \<Rightarrow> nat \<Rightarrow> nat" where
  "align_to a n = (n + a - 1) div a * a"

fun sizeof_request :: "nat \<Rightarrow> testmode_body \<Rightarrow> nat" where
  "sizeof_request p (Get_sta_statistics _ _ _) = align_to p (8 + 4 + 4 + 6) + p"
| "sizeof_request p (P2p_sigma _ _) = 8 + 4 + 4"
| "sizeof_request p (Hotspot _ _) = align_to 4 (8 + 1 + 6)"
| "sizeof_request p (Hotspot_set_config _ _) = 8 + 4 + 4"
| "sizeof_request p Get_available_channel = 8 + p"
| "sizeof_request p (Sw_cmd _ _ _) = align_to 4 (8 + 1) + 4 + 4"
| "sizeof_request p (Suspendmode _) = align_to 4 (8 + 1)"
| "sizeof_request p (Wapi_key _ _ _) = align_to 4 (8 + 1 + 1) + align_to 4 (4 + 8 + 8 + 6 + 2 + 2 + 32)"
| "sizeof_request p (Rx_filter _ _ _ _ _ _) = 8 + 6 * 4"
| "sizeof_request p (P2p_noa _ _ _ _ _) = 8 + 5 * 4"
| "sizeof_request p (Wfd_update _) = 464"
| "sizeof_request p (Str_cmd s) = 8 + length s"

section \<open>Environment and log\<close>

datatype reply_handler = No_handler | Sta_statistics_handler | Available_channel_handler

record nl_message =
  msg_ifindex :: u32
  msg_data :: testmode_request
  msg_len :: nat
  msg_handler :: reply_handler

text \<open>
  A reply as the handlers see it after \<open>nla_parse\<close> and \<open>nla_parse_nested\<close>: no test data, test
  data that does not parse against the policy, or the table of nested attributes.
\<close>

datatype nl_reply = No_testdata | Nested_error | Nested "nat \<rightharpoonup> u8 list"

type_synonym tm_log = "nl_message list"

record drv_env =
  ptr_size :: nat
  long_bits :: nat
  CONFIG_HOTSPOT_MGR_SUPPORT :: bool
  CONFIG_MTK_LTE_COEX :: bool
  CONFIG_WAPI_SUPPORT :: bool
  CONFIG_MTK_WFD_SINK :: bool
  CONFIG_MTK_P2P_SIGMA :: bool
  sizeof_wfd_data_s :: nat
  nlmsg_alloc :: "tm_log \<Rightarrow> bool"
  nla_put :: "tm_log \<Rightarrow> nat \<Rightarrow> nat \<Rightarrow> bool"
  send_and_recv_msgs :: "tm_log \<Rightarrow> nl_message \<Rightarrow> nl_reply list \<times> int"
  hwaddr_aton :: "string \<Rightarrow> mac option"
  is_zero_ether_addr :: "mac \<Rightarrow> bool"

definition NL80211_ATTR_IFINDEX :: nat where "NL80211_ATTR_IFINDEX = 3"
definition NL80211_ATTR_TESTDATA :: nat where "NL80211_ATTR_TESTDATA = 69"
definition ENOBUFS :: int where "ENOBUFS = 105"

section \<open>The transport\<close>

text \<open>The switch on the index, its version field masked off.\<close>

definition testmode_handler :: "drv_env \<Rightarrow> u32 \<Rightarrow> reply_handler" where
  "testmode_handler env idx =
     (let index = idx AND BITS 0 23
      in if index = 0x10 then Sta_statistics_handler
         else if CONFIG_MTK_LTE_COEX env \<and> index = 0x30 then Available_channel_handler
         else No_handler)"

text \<open>
  The result code, the replies that reach the handler and the log. The message is freed on both
  failures of \<open>NLA_PUT\<close> and nothing is sent.
\<close>

definition wpa_driver_nl80211_testmode ::
  "drv_env \<Rightarrow> u32 \<Rightarrow> testmode_request \<Rightarrow> nat \<Rightarrow> tm_log \<Rightarrow> int \<times> nl_reply list \<times> tm_log" where
  "wpa_driver_nl80211_testmode env ifindex req data_len log =
     (if \<not> nlmsg_alloc env log then (-1, [], log)
      else if \<not> nla_put env log NL80211_ATTR_IFINDEX 4 then (- ENOBUFS, [], log)
      else if \<not> nla_put env log NL80211_ATTR_TESTDATA data_len then (- ENOBUFS, [], log)
      else (let h = testmode_handler env (tm_index (req_hdr req));
                m = \<lparr>msg_ifindex = ifindex, msg_data = req, msg_len = data_len, msg_handler = h\<rparr>;
                (replies, ret) = send_and_recv_msgs env log m
            in (ret, if h = No_handler then [] else replies, log @ [m])))"

text \<open>
  The three assignments every sender makes to the header: the command id, version 1 in the top
  byte, and the size of the structure.
\<close>

definition mk_hdr :: "u32 \<Rightarrow> nat \<Rightarrow> test_mode_info" where
  "mk_hdr idx len = \<lparr>tm_index = idx OR push_bit 24 1, tm_buflen = word_of_nat len\<rparr>"

definition mk_request :: "drv_env \<Rightarrow> u32 \<Rightarrow> testmode_body \<Rightarrow> testmode_request" where
  "mk_request env idx b = \<lparr>req_hdr = mk_hdr idx (sizeof_request (ptr_size env) b), req_body = b\<rparr>"

definition send_request ::
  "drv_env \<Rightarrow> u32 \<Rightarrow> u32 \<Rightarrow> testmode_body \<Rightarrow> tm_log \<Rightarrow> int \<times> nl_reply list \<times> tm_log" where
  "send_request env ifindex idx b log =
     wpa_driver_nl80211_testmode env ifindex (mk_request env idx b)
       (sizeof_request (ptr_size env) b) log"

section \<open>Senders\<close>

text \<open>\<open>wpa_driver_nl80211_driver_sw_cmd\<close> ignores the result of the transport.\<close>

definition wpa_driver_nl80211_driver_sw_cmd ::
  "drv_env \<Rightarrow> u32 \<Rightarrow> bool \<Rightarrow> u32 \<Rightarrow> u32 \<Rightarrow> tm_log \<Rightarrow> int \<times> tm_log" where
  "wpa_driver_nl80211_driver_sw_cmd env ifindex set_flag adr dat log =
     (let (_, _, log') = send_request env ifindex NL80211_TESTMODE_SW_CMD
                           (Sw_cmd (if set_flag then 1 else 0) adr dat) log
      in (0, log'))"

definition wpa_driver_hotspot_block_list_update ::
  "drv_env \<Rightarrow> u32 \<Rightarrow> mac option \<Rightarrow> u8 \<Rightarrow> tm_log \<Rightarrow> int \<times> tm_log" where
  "wpa_driver_hotspot_block_list_update env ifindex bssid blocked log =
     (let a = (case bssid of None \<Rightarrow> replicate 6 0 | Some m \<Rightarrow> take 6 m);
          (ret, _, log') = send_request env ifindex NL80211_TESTMODE_HS20 (Hotspot blocked a) log
      in (ret, log'))"

definition wpa_driver_sta_block :: "drv_env \<Rightarrow> u32 \<Rightarrow> string \<Rightarrow> tm_log \<Rightarrow> int \<times> tm_log" where
  "wpa_driver_sta_block env ifindex cmd log =
     (case hwaddr_aton env cmd of
        None \<Rightarrow> (-1, log)
      | Some bssid \<Rightarrow> wpa_driver_hotspot_block_list_update env ifindex (Some bssid) 1 log)"

definition wpa_driver_sta_unblock :: "drv_env \<Rightarrow> u32 \<Rightarrow> string \<Rightarrow> tm_log \<Rightarrow> int \<times> tm_log" where
  "wpa_driver_sta_unblock env ifindex cmd log =
     (case hwaddr_aton env cmd of
        None \<Rightarrow> (-1, log)
      | Some bssid \<Rightarrow> wpa_driver_hotspot_block_list_update env ifindex (Some bssid) 0 log)"

definition wpa_driver_set_max_client :: "drv_env \<Rightarrow> u32 \<Rightarrow> string \<Rightarrow> tm_log \<Rightarrow> int \<times> tm_log" where
  "wpa_driver_set_max_client env ifindex cmd log =
     (let (ret, _, log') = send_request env ifindex NL80211_TESTMODE_HS_SET_CONFIG
                             (Hotspot_set_config 1 (atoi (long_bits env) cmd)) log
      in (ret, log'))"

definition wpas_p2p_sigma_test_mode ::
  "drv_env \<Rightarrow> u32 \<Rightarrow> s32 \<Rightarrow> s32 \<Rightarrow> tm_log \<Rightarrow> int \<times> tm_log" where
  "wpas_p2p_sigma_test_mode env ifindex idx val log =
     (let (ret, _, log') = send_request env ifindex 1 (P2p_sigma idx val) log in (ret, log'))"


section \<open>WAPI keys\<close>

definition IW_ENCODE_SEQ_MAX_SIZE :: nat where "IW_ENCODE_SEQ_MAX_SIZE = 8"
definition IW_ENCODE_EXT_GROUP_KEY :: u32 where "IW_ENCODE_EXT_GROUP_KEY = 4"
definition IW_ENCODE_EXT_SET_TX_KEY :: u32 where "IW_ENCODE_EXT_SET_TX_KEY = 8"
definition IW_ENCODE_ALG_SMS4 :: u16 where "IW_ENCODE_ALG_SMS4 = 0x20"

definition broadcast_mac :: mac where
  "broadcast_mac = replicate 6 0xff"

text \<open>
  \<open>addr\<close>, \<open>seq\<close> and \<open>key\<close> are pointers that may be null; a present buffer holds at least the
  bytes its length argument says. The key is copied with no check against the 32 bytes of
  \<open>extparams.key\<close>; the sequence number is copied from the start of \<open>tx_seq\<close> and may run on
  into \<open>rx_seq\<close>, which the length check allows. The result of the transport is ignored.
\<close>

definition wapi_extparams ::
  "mac option \<Rightarrow> bool \<Rightarrow> u8 list option \<Rightarrow> nat \<Rightarrow> u8 list option \<Rightarrow> nat \<Rightarrow> iw_encode_exts" where
  "wapi_extparams addr set_tx seq seq_len key key_len =
     (let flags = (if addr = None \<or> map_option (take 6) addr = Some broadcast_mac
                   then IW_ENCODE_EXT_GROUP_KEY else 0)
                  OR (if set_tx then IW_ENCODE_EXT_SET_TX_KEY else 0);
          a = (case addr of Some m \<Rightarrow> take 6 m | None \<Rightarrow> replicate 6 0xff);
          zkey = replicate 32 0;
          (k, kl) = (case key of
                       Some bs \<Rightarrow> if key_len \<noteq> 0 then (copy_over (take key_len bs) zkey, key_len)
                                  else (zkey, 0)
                     | None \<Rightarrow> (zkey, 0));
          zseq = replicate (2 * IW_ENCODE_SEQ_MAX_SIZE) 0;
          sq = (case seq of
                  Some bs \<Rightarrow> if seq_len \<noteq> 0 then copy_over (take seq_len bs) zseq else zseq
                | None \<Rightarrow> zseq)
      in \<lparr>ext_flags = flags, ext_tx_seq = take IW_ENCODE_SEQ_MAX_SIZE sq,
          ext_rx_seq = drop IW_ENCODE_SEQ_MAX_SIZE sq, ext_addr = a,
          ext_alg = IW_ENCODE_ALG_SMS4, ext_key_len = word_of_nat kl, ext_key = k\<rparr>)"

definition wpa_driver_nl80211_set_wapi_key ::
  "drv_env \<Rightarrow> u32 \<Rightarrow> mac option \<Rightarrow> s32 \<Rightarrow> bool \<Rightarrow> u8 list option \<Rightarrow> nat \<Rightarrow> u8 list option \<Rightarrow> nat
    \<Rightarrow> tm_log \<Rightarrow> ub + int \<times> tm_log" where
  "wpa_driver_nl80211_set_wapi_key env ifindex addr key_idx set_tx seq seq_len key key_len log =
     (if seq_len > IW_ENCODE_SEQ_MAX_SIZE * 2 then Inr (-1, log)
      else if key \<noteq> None \<and> key_len > 32 then Inl Out_of_bounds
      else (let ext = wapi_extparams addr set_tx seq seq_len key key_len;
                (_, _, log') = send_request env ifindex NL80211_TESTMODE_WAPI
                  (Wapi_key (ucast (key_idx + 1)) (word_of_nat key_len) ext) log
            in Inr (0, log')))"

definition wpa_driver_nl80211_send_msg :: "int \<Rightarrow> int" where
  "wpa_driver_nl80211_send_msg msg_in_len = (if msg_in_len > 1024 then -1 else 0)"

section \<open>Masks and headers\<close>

lemma BIT_eq_exp: "BIT n = 2 ^ n"
  by (simp add: BIT_def push_bit_eq_mult)

lemma BIT_minus_1: "BIT n - 1 = mask n"
  by (simp add: BIT_eq_exp mask_eq_exp_minus_1)

lemma bit_BITS: "bit (BITS m n) k \<longleftrightarrow> k < 32 \<and> m \<le> k \<and> k \<le> n"
  by (auto simp: BITS_def BIT_minus_1 bit_and_iff bit_or_iff bit_not_iff bit_mask_iff bit_BIT)

lemma BITS_0_23: "BITS 0 23 = mask 24"
  by (rule bit_eqI) (auto simp: bit_BITS bit_mask_iff)

lemma mk_hdr_index_masked:
  assumes "idx < 2 ^ 24"
  shows "tm_index (mk_hdr idx len) AND BITS 0 23 = idx"
proof -
  have "idx AND mask 24 = idx"
    using assms by (simp add: less_mask_eq)
  moreover have "push_bit 24 1 AND mask 24 = (0 :: u32)"
    by (simp add: mask_eq_exp_minus_1)
  ultimately show ?thesis
    by (simp add: mk_hdr_def BITS_0_23 bit.conj_disj_distrib2)
qed

section \<open>What every sent message satisfies\<close>

text \<open>
  What every message on the wire satisfies: the version byte is 1, the length passed to
  \<open>nla_put\<close> is the size of the structure, and a reply handler that writes through the
  request's buffer pointer is only chosen for the structure that has that buffer.
\<close>

definition wf_message :: "drv_env \<Rightarrow> nl_message \<Rightarrow> bool" where
  "wf_message env m \<longleftrightarrow>
     (let b = req_body (msg_data m); i = tm_index (req_hdr (msg_data m)) in
      drop_bit 24 i = 1 \<and>
      msg_len m = sizeof_request (ptr_size env) b \<and>
      (case msg_handler m of
         No_handler \<Rightarrow> True
       | Sta_statistics_handler \<Rightarrow> is_Get_sta_statistics b
       | Available_channel_handler \<Rightarrow> b = Get_available_channel))"

text \<open>The log \<open>log'\<close> continues \<open>log\<close> with well-formed messages only.\<close>

definition sends_wf :: "drv_env \<Rightarrow> tm_log \<Rightarrow> tm_log \<Rightarrow> bool" where
  "sends_wf env log log' \<longleftrightarrow>
     take (length log) log' = log \<and> list_all (wf_message env) (drop (length log) log')"

lemma sends_wf_refl [simp, intro]: "sends_wf env log log"
  by (simp add: sends_wf_def)

lemma sends_wf_append: "sends_wf env log (log @ ms) \<longleftrightarrow> list_all (wf_message env) ms"
  by (simp add: sends_wf_def)

lemma sends_wfE:
  assumes "sends_wf env log log'"
  obtains ms where "log' = log @ ms" "list_all (wf_message env) ms"
  using assms that by (metis append_take_drop_id sends_wf_def)

lemma sends_wf_trans [trans]:
  assumes "sends_wf env a b" "sends_wf env b c"
  shows "sends_wf env a c"
proof -
  from assms obtain ms ns where "b = a @ ms" "list_all (wf_message env) ms"
    "c = b @ ns" "list_all (wf_message env) ns" by (metis sends_wfE)
  then show ?thesis by (simp add: sends_wf_append)
qed

lemma mk_hdr_version:
  assumes "idx < 2 ^ 24"
  shows "drop_bit 24 (tm_index (mk_hdr idx len)) = 1"
proof -
  have "unat idx < 2 ^ 24"
    using assms by (simp add: word_less_nat_alt)
  then have "drop_bit 24 idx = 0"
    by (simp add: drop_bit_eq_div word_arith_nat_div unat_arith_simps)
  moreover have "drop_bit 24 (push_bit 24 1) = (1 :: u32)"
    by simp
  ultimately show ?thesis
    by (simp add: mk_hdr_def drop_bit_or)
qed

lemma testmode_handler_mk_hdr:
  "idx < 2 ^ 24 \<Longrightarrow> testmode_handler env (tm_index (mk_hdr idx len)) =
     (if idx = 0x10 then Sta_statistics_handler
      else if CONFIG_MTK_LTE_COEX env \<and> idx = 0x30 then Available_channel_handler
      else No_handler)"
  by (simp add: testmode_handler_def mk_hdr_index_masked)

lemma send_request_sends_wf:
  assumes "send_request env ifindex idx b log = (ret, replies, log')" "idx < 2 ^ 24"
    and "idx = 0x10 \<longrightarrow> is_Get_sta_statistics b" "idx = 0x30 \<longrightarrow> b = Get_available_channel"
  shows "sends_wf env log log'"
  using assms
  by (auto simp: send_request_def wpa_driver_nl80211_testmode_def wf_message_def mk_request_def
      sends_wf_append mk_hdr_version testmode_handler_mk_hdr Let_def
      split: prod.splits if_splits)

locale testmode_sender =
  fixes env :: drv_env
    and snd_op :: "tm_log \<Rightarrow> int \<times> tm_log"
  assumes sends: "snd_op log = (ret, log') \<Longrightarrow> sends_wf env log log'"
begin

lemma keeps_wf:
  "list_all (wf_message env) log \<Longrightarrow> list_all (wf_message env) (snd (snd_op log))"
  by (cases "snd_op log") (auto dest!: sends elim!: sends_wfE)

lemma only_appends: "length log \<le> length (snd (snd_op log))"
  by (cases "snd_op log") (auto dest!: sends elim!: sends_wfE)

lemma then_sends:
  "sends_wf env log0 log \<Longrightarrow> snd_op log = (ret, log') \<Longrightarrow> sends_wf env log0 log'"
  using sends sends_wf_trans by blast

end

text \<open>
  The same contract for a sender that may leave the defined behaviour of C: what it promises
  about the log holds for the runs that return.
\<close>

locale fallible_sender =
  fixes env :: drv_env
    and snd_op :: "tm_log \<Rightarrow> ub + int \<times> tm_log"
  assumes returns_wf: "snd_op log = Inr (ret, log') \<Longrightarrow> sends_wf env log log'"
begin

lemma returns_keeps_wf:
  "list_all (wf_message env) log \<Longrightarrow> snd_op log = Inr (ret, log') \<Longrightarrow> list_all (wf_message env) log'"
  by (auto dest!: returns_wf elim!: sends_wfE)

lemma returns_then_wf:
  "sends_wf env log0 log \<Longrightarrow> snd_op log = Inr (ret, log') \<Longrightarrow> sends_wf env log0 log'"
  using returns_wf sends_wf_trans by blast

end

sublocale testmode_sender \<subseteq> lifted: fallible_sender env "\<lambda>log. Inr (snd_op log)"
  by unfold_locales (auto dest: sends)

interpretation sw: testmode_sender env "wpa_driver_nl80211_driver_sw_cmd env ifindex s a d"
  for env ifindex s a d
  by unfold_locales
     (auto simp: wpa_driver_nl80211_driver_sw_cmd_def layout split: prod.splits
       intro: send_request_sends_wf)

interpretation hs: testmode_sender env "wpa_driver_hotspot_block_list_update env ifindex bssid blk"
  for env ifindex bssid blk
  by unfold_locales
     (auto simp: wpa_driver_hotspot_block_list_update_def layout split: prod.splits
       intro: send_request_sends_wf)

interpretation blk: testmode_sender env "wpa_driver_sta_block env ifindex cmd"
  for env ifindex cmd
  by unfold_locales
     (auto simp: wpa_driver_sta_block_def split: option.splits intro: hs.sends)

interpretation unblk: testmode_sender env "wpa_driver_sta_unblock env ifindex cmd"
  for env ifindex cmd
  by unfold_locales
     (auto simp: wpa_driver_sta_unblock_def split: option.splits intro: hs.sends)

interpretation maxc: testmode_sender env "wpa_driver_set_max_client env ifindex cmd"
  for env ifindex cmd
  by unfold_locales
     (auto simp: wpa_driver_set_max_client_def layout split: prod.splits
       intro: send_request_sends_wf)

interpretation sigma: testmode_sender env "wpas_p2p_sigma_test_mode env ifindex i v"
  for env ifindex i v
  by unfold_locales
     (auto simp: wpas_p2p_sigma_test_mode_def layout split: prod.splits
       intro: send_request_sends_wf)

interpretation wapi: fallible_sender env
  "wpa_driver_nl80211_set_wapi_key env ifindex addr ki tx sq sl k kl"
  for env ifindex addr ki tx sq sl k kl
  by unfold_locales
    (auto simp: wpa_driver_nl80211_set_wapi_key_def layout Let_def split: prod.splits if_splits
      intro: send_request_sends_wf)

section \<open>A concrete environment\<close>

text \<open>
  An environment in which every allocation and every \<open>nla_put\<close> succeeds and each request is
  answered with the same replies: it instantiates the parameters in the witnesses.
\<close>

definition answering_env :: "nl_reply list \<Rightarrow> drv_env" where
  "answering_env replies =
     \<lparr>ptr_size = 4, long_bits = 32, CONFIG_HOTSPOT_MGR_SUPPORT = True, CONFIG_MTK_LTE_COEX = True,
      CONFIG_WAPI_SUPPORT = True, CONFIG_MTK_WFD_SINK = True, CONFIG_MTK_P2P_SIGMA = True,
      sizeof_wfd_data_s = 456, nlmsg_alloc = (\<lambda>_. True), nla_put = (\<lambda>_ _ _. True),
      send_and_recv_msgs = (\<lambda>_ _. (replies, 0)),
      hwaddr_aton = (\<lambda>s. if length s < 17 then None else Some [2, 0, 0, 0, 0, 1]),
      is_zero_ether_addr = list_all (\<lambda>b. b = 0)\<rparr>"

lemmas testmode_eval = send_request_def wpa_driver_nl80211_testmode_def mk_request_def
  testmode_handler_mk_hdr answering_env_def

section \<open>What a WAPI key request holds\<close>

text \<open>
  The request of \<open>wpa_driver_nl80211_set_wapi_key\<close> carries the key followed by zeros in its
  32 bytes, the sequence number followed by zeros across \<open>tx_seq\<close> and \<open>rx_seq\<close>, the length of
  the key, and the group-key flag exactly for a missing or broadcast address.
\<close>

lemma wapi_key_layout:
  assumes "length key \<le> 32" "length seq \<le> 2 * IW_ENCODE_SEQ_MAX_SIZE"
    and "e = wapi_extparams addr set_tx (Some seq) (length seq) (Some key) (length key)"
  shows "ext_key e = key @ replicate (32 - length key) 0 \<and>
         ext_tx_seq e @ ext_rx_seq e = seq @ replicate (16 - length seq) 0 \<and>
         length (ext_tx_seq e) = 8 \<and> length (ext_rx_seq e) = 8 \<and>
         ext_key_len e = word_of_nat (length key) \<and>
         (ext_flags e AND IW_ENCODE_EXT_GROUP_KEY \<noteq> 0 \<longleftrightarrow>
            addr = None \<or> map_option (take 6) addr = Some broadcast_mac)"
  using assms(1,2)
  by (auto simp: assms(3) wapi_extparams_def copy_over_def IW_ENCODE_SEQ_MAX_SIZE_def
      IW_ENCODE_EXT_GROUP_KEY_def IW_ENCODE_EXT_SET_TX_KEY_def Let_def)

text \<open>
  The key length is never compared with the 32 bytes of the field: a longer key is copied past
  its end, whenever the sequence number passes its own check.
\<close>

lemma wapi_key_overflow:
  "isl (wpa_driver_nl80211_set_wapi_key env ifindex addr ki tx sq sl k kl log) \<longleftrightarrow>
     sl \<le> 2 * IW_ENCODE_SEQ_MAX_SIZE \<and> k \<noteq> None \<and> 32 < kl"
  by (auto simp: wpa_driver_nl80211_set_wapi_key_def Let_def split: prod.splits)

end
