(* ===== verification/Lte_Coex.thy ===== *)
theory Lte_Coex
  imports Testmode
begin

text \<open>
  The LTE coexistence part of the driver library: \<open>testmode_available_channel_handler\<close>, which
  stores the five channel masks of a reply, \<open>wpa_driver_get_lte_available_channels\<close>, and
  \<open>wpa_driver_do_mtk_acs\<close>, which polls the driver until the scan is complete and then returns
  the first free 2.4 GHz channel.

  The locale \<open>attr_fields\<close> is the contract of a structure whose fields are filled from reply
  attributes, one field per attribute; both reply handlers of the library satisfy it.
\<close>

section \<open>Structures filled from attributes\<close>

text \<open>
  The loop of a reply handler: attributes are visited in order, those that are absent from the
  table are skipped.
\<close>

fun fill_attrs :: "('k \<Rightarrow> u8 list \<Rightarrow> 's \<Rightarrow> 's) \<Rightarrow> ('k \<Rightarrow> u8 list option) \<Rightarrow> 'k list \<Rightarrow> 's \<Rightarrow> 's" where
  "fill_attrs st tb [] s = s"
| "fill_attrs st tb (k # ks) s =
     fill_attrs st tb ks (case tb k of None \<Rightarrow> s | Some bs \<Rightarrow> st k bs s)"

locale attr_fields =
  fixes field :: "'k \<Rightarrow> 's \<Rightarrow> 'v"
    and store :: "'k \<Rightarrow> u8 list \<Rightarrow> 's \<Rightarrow> 's"
    and decode :: "'k \<Rightarrow> u8 list \<Rightarrow> 'v \<Rightarrow> 'v"
  assumes field_store_same: "field k (store k bs s) = decode k bs (field k s)"
    and field_store_other: "k' \<noteq> k \<Longrightarrow> field k' (store k bs s) = field k' s"
begin

lemma fill_other: "k \<notin> set ks \<Longrightarrow> field k (fill_attrs store tb ks s) = field k s"
  by (induction ks arbitrary: s) (auto simp: field_store_other split: option.splits)

lemma fill_field:
  assumes "distinct ks" "k \<in> set ks"
  shows "field k (fill_attrs store tb ks s) =
           (case tb k of None \<Rightarrow> field k s | Some bs \<Rightarrow> decode k bs (field k s))"
  using assms
proof (induction ks arbitrary: s)
  case (Cons a ks)
  show ?case
  proof (cases "k = a")
    case True
    with Cons.prems show ?thesis
      by (auto simp: fill_other field_store_same split: option.splits)
  next
    case False
    with Cons show ?thesis
      by (auto simp: field_store_other split: option.splits)
  qed
qed simp

end

section \<open>Available channels\<close>

datatype available_chan_attr = ATTR_2G_BASE_1 | ATTR_5G_BASE_36 | ATTR_5G_BASE_52
  | ATTR_5G_BASE_100 | ATTR_5G_BASE_149

text \<open>\<open>enum nl80211_testmode_available_chan_attr\<close>: the numbers start at 1.\<close>

fun available_chan_index :: "available_chan_attr \<Rightarrow> nat" where
  "available_chan_index ATTR_2G_BASE_1 = 1"
| "available_chan_index ATTR_5G_BASE_36 = 2"
| "available_chan_index ATTR_5G_BASE_52 = 3"
| "available_chan_index ATTR_5G_BASE_100 = 4"
| "available_chan_index ATTR_5G_BASE_149 = 5"

record available_chan =
  ch_2g_base1 :: u32
  ch_5g_base36 :: u32
  ch_5g_base52 :: u32
  ch_5g_base100 :: u32
  ch_5g_base149 :: u32

definition no_chans :: available_chan where
  "no_chans = \<lparr>ch_2g_base1 = 0, ch_5g_base36 = 0, ch_5g_base52 = 0, ch_5g_base100 = 0,
     ch_5g_base149 = 0\<rparr>"

fun store_chan :: "available_chan_attr \<Rightarrow> u8 list \<Rightarrow> available_chan \<Rightarrow> available_chan" where
  "store_chan ATTR_2G_BASE_1 bs c = c\<lparr>ch_2g_base1 := le_u32 bs\<rparr>"
| "store_chan ATTR_5G_BASE_36 bs c = c\<lparr>ch_5g_base36 := le_u32 bs\<rparr>"
| "store_chan ATTR_5G_BASE_52 bs c = c\<lparr>ch_5g_base52 := le_u32 bs\<rparr>"
| "store_chan ATTR_5G_BASE_100 bs c = c\<lparr>ch_5g_base100 := le_u32 bs\<rparr>"
| "store_chan ATTR_5G_BASE_149 bs c = c\<lparr>ch_5g_base149 := le_u32 bs\<rparr>"

fun chan_field :: "available_chan_attr \<Rightarrow> available_chan \<Rightarrow> u32" where
  "chan_field ATTR_2G_BASE_1 c = ch_2g_base1 c"
| "chan_field ATTR_5G_BASE_36 c = ch_5g_base36 c"
| "chan_field ATTR_5G_BASE_52 c = ch_5g_base52 c"
| "chan_field ATTR_5G_BASE_100 c = ch_5g_base100 c"
| "chan_field ATTR_5G_BASE_149 c = ch_5g_base149 c"

definition chan_attrs :: "available_chan_attr list" where
  "chan_attrs = [ATTR_2G_BASE_1, ATTR_5G_BASE_36, ATTR_5G_BASE_52, ATTR_5G_BASE_100,
     ATTR_5G_BASE_149]"

definition testmode_available_channel_handler :: "nl_reply \<Rightarrow> available_chan \<Rightarrow> available_chan" where
  "testmode_available_channel_handler reply c =
     (case reply of
        Nested tb \<Rightarrow> fill_attrs store_chan (\<lambda>a. tb (available_chan_index a)) chan_attrs c
      | _ \<Rightarrow> c)"

text \<open>The caller's structure is the accumulator of the replies.\<close>

definition wpa_driver_get_lte_available_channels ::
  "drv_env \<Rightarrow> u32 \<Rightarrow> available_chan \<Rightarrow> tm_log \<Rightarrow> int \<times> available_chan \<times> tm_log" where
  "wpa_driver_get_lte_available_channels env ifindex buf log =
     (let (ret, replies, log') = send_request env ifindex 0x30 Get_available_channel log
      in (ret, fold testmode_available_channel_handler replies buf, log'))"

section \<open>Automatic channel selection\<close>

text \<open>
  The \<open>do ... while (1)\<close> loop: it leaves with the masks once bit 31 is set, and gives up
  (\<open>None\<close>, the source returns 0) when \<open>wait_cnt\<close> passes 5.
\<close>

function acs_wait :: "drv_env \<Rightarrow> u32 \<Rightarrow> nat \<Rightarrow> tm_log \<Rightarrow> available_chan option \<times> tm_log" where
  "acs_wait env ifindex wait_cnt log =
     (let (_, chans, log') = wpa_driver_get_lte_available_channels env ifindex no_chans log
      in if BIT 31 AND ch_2g_base1 chans \<noteq> 0 then (Some chans, log')
         else if Suc wait_cnt > 5 then (None, log')
         else acs_wait env ifindex (Suc wait_cnt) log')"
  by pat_completeness auto
termination
  by (relation "measure (\<lambda>(env, ifindex, wait_cnt, log). 6 - wait_cnt)") auto

declare acs_wait.simps [simp del]

text \<open>The loop over \<open>i < 14\<close> that collects the free channels in \<open>ch\<close>.\<close>

fun acs_fill :: "u32 \<Rightarrow> nat list \<Rightarrow> u8 list \<Rightarrow> nat \<Rightarrow> u8 list \<times> nat" where
  "acs_fill w [] ch ch_num = (ch, ch_num)"
| "acs_fill w (i # is) ch ch_num =
     (if BIT i AND w \<noteq> 0 then acs_fill w is (ch[ch_num := word_of_nat (i + 1)]) (ch_num + 1)
      else acs_fill w is ch ch_num)"

definition wpa_driver_do_mtk_acs :: "drv_env \<Rightarrow> u32 \<Rightarrow> tm_log \<Rightarrow> u8 \<times> tm_log" where
  "wpa_driver_do_mtk_acs env ifindex log =
     (case acs_wait env ifindex 0 log of
        (None, log') \<Rightarrow> (0, log')
      | (Some chans, log') \<Rightarrow>
          (fst (acs_fill (ch_2g_base1 chans) [0..<14] (replicate 14 0) 0) ! 0, log'))"

section \<open>Correctness\<close>

interpretation chan: attr_fields chan_field store_chan "\<lambda>_ bs _. le_u32 bs"
proof
  fix k bs s show "chan_field k (store_chan k bs s) = le_u32 bs"
    by (cases k) simp_all
next
  fix k' k :: available_chan_attr and bs s
  assume "k' \<noteq> k"
  then show "chan_field k' (store_chan k bs s) = chan_field k' s"
    by (cases k; cases k') simp_all
qed

lemma available_channels_sends_wf:
  "wpa_driver_get_lte_available_channels env ifindex c log = (ret, c', log') \<Longrightarrow> sends_wf env log log'"
  by (auto simp: wpa_driver_get_lte_available_channels_def split: prod.splits
      intro: send_request_sends_wf)

lemma send_request_length:
  "send_request env ifindex idx b log = (ret, replies, log') \<Longrightarrow> length log' \<le> Suc (length log)"
  by (auto simp: send_request_def wpa_driver_nl80211_testmode_def Let_def
      split: prod.splits if_splits)

lemma available_channels_length:
  "wpa_driver_get_lte_available_channels env ifindex c log = (ret, c', log') \<Longrightarrow>
   length log' \<le> Suc (length log)"
  by (auto simp: wpa_driver_get_lte_available_channels_def split: prod.splits
      dest: send_request_length)

lemma acs_wait_sends_wf: "acs_wait env ifindex n log = (r, log') \<Longrightarrow> sends_wf env log log'"
proof (induction env ifindex n log rule: acs_wait.induct)
  case (1 env ifindex n log)
  obtain ret c l where q: "wpa_driver_get_lte_available_channels env ifindex no_chans log = (ret, c, l)"
    by (metis prod_cases3)
  then have "sends_wf env log l" by (rule available_channels_sends_wf)
  with 1 q show ?case
    by (subst (asm) (2) acs_wait.simps) (auto split: if_splits intro: sends_wf_trans)
qed

lemma acs_wait_length: 
  "acs_wait env ifindex n log = (r, log') \<Longrightarrow> n \<le> 5 \<Longrightarrow> length log' \<le> length log + (6 - n)"
proof (induction env ifindex n log rule: acs_wait.induct)
  case (1 env ifindex n log)
  obtain ret c l where q: "wpa_driver_get_lte_available_channels env ifindex no_chans log = (ret, c, l)"
    by (metis prod_cases3)
  then have "length l \<le> Suc (length log)" by (rule available_channels_length)
  with 1 q show ?case
    by (subst (asm) (2) acs_wait.simps) (fastforce split: if_splits)
qed

lemma acs_wait_ready:
  "acs_wait env ifindex n log = (Some c, log') \<Longrightarrow> bit (ch_2g_base1 c) 31"
proof (induction env ifindex n log rule: acs_wait.induct)
  case (1 env ifindex n log)
  obtain ret c' l where q: "wpa_driver_get_lte_available_channels env ifindex no_chans log = (ret, c', l)"
    by (metis prod_cases3)
  with 1 show ?case
    by (subst (asm) (2) acs_wait.simps) (auto simp: BIT_AND_eq_0_iff split: if_splits)
qed

lemma acs_fill_spec:
  assumes "\<forall>i \<in> set is. i < 32" "ch_num + length is \<le> length ch"
  shows "acs_fill w is ch ch_num =
     (let free = map (\<lambda>i. word_of_nat (i + 1)) (filter (bit w) is)
      in (take ch_num ch @ free @ drop (ch_num + length free) ch, ch_num + length free))"
  using assms
proof (induction "is" arbitrary: ch ch_num)
  case Nil
  then show ?case by simp
next
  case (Cons i "is")
  have "take (Suc n) (ch[n := x]) = take n ch @ [x]" if "n < length ch" for n x
    using that by (simp add: take_Suc_conv_app_nth)
  with Cons show ?case
    by (auto simp: BIT_AND_eq_0_iff Let_def)
qed

lemma acs_fill_first:
  "fst (acs_fill w [0..<14] (replicate 14 0) 0) ! 0 =
     (case find (bit w) [0..<14] of None \<Rightarrow> 0 | Some i \<Rightarrow> word_of_nat (i + 1))"
proof -
  have "fst (acs_fill w [0..<14] (replicate 14 0) 0) =
     map (\<lambda>i. word_of_nat (i + 1)) (filter (bit w) [0..<14])
       @ drop (length (filter (bit w) [0..<14])) (replicate 14 0)"
    by (subst acs_fill_spec) (auto simp: Let_def)
  moreover have "find P xs = (case filter P xs of [] \<Rightarrow> None | x # _ \<Rightarrow> Some x)" for P and xs :: "nat list"
    by (induction xs) auto
  ultimately show ?thesis by (auto split: list.splits)
qed

text \<open>
  C28: a non-zero answer of \<open>wpa_driver_do_mtk_acs\<close> is a channel between 1 and 14 whose bit is
  set in the 2.4 GHz mask of a completed scan (bit 31 set), and no lower channel is free.
\<close>

theorem mtk_acs_lowest_free_channel:
  assumes "wpa_driver_do_mtk_acs env ifindex log = (ch, log')" and "ch \<noteq> 0"
  shows "\<exists>chans. fst (acs_wait env ifindex 0 log) = Some chans \<and> bit (ch_2g_base1 chans) 31 \<and>
           1 \<le> unat ch \<and> unat ch \<le> 14 \<and> bit (ch_2g_base1 chans) (unat ch - 1) \<and>
           (\<forall>j < unat ch - 1. \<not> bit (ch_2g_base1 chans) j)"
proof -
  from assms obtain chans where w: "acs_wait env ifindex 0 log = (Some chans, log')"
    and ch: "ch = fst (acs_fill (ch_2g_base1 chans) [0..<14] (replicate 14 0) 0) ! 0"
    by (auto simp: wpa_driver_do_mtk_acs_def split: prod.splits option.splits)
  with assms(2) obtain i where i: "find (bit (ch_2g_base1 chans)) [0..<14] = Some i"
    and chi: "ch = word_of_nat (i + 1)"
    by (auto simp: acs_fill_first split: option.splits)
  from i have "i < 14" "bit (ch_2g_base1 chans) i" "\<forall>j < i. \<not> bit (ch_2g_base1 chans) j"
    by (auto simp: find_Some_iff)
  moreover from this have "unat ch = i + 1"
    unfolding chi by (intro unat_u8_of_nat) simp
  ultimately show ?thesis using w acs_wait_ready [OF w] by auto
qed

text \<open>A driver that reports channels 6 and 7 as free at once.\<close>

definition acs_env :: drv_env where
  "acs_env = answering_env [Nested [1 \<mapsto> [0x60, 0, 0, 0x80]]]"

lemma acs_env_channel: "fst (wpa_driver_do_mtk_acs acs_env 7 []) = 6"
  by (simp add: wpa_driver_do_mtk_acs_def acs_wait.simps testmode_eval acs_env_def
      wpa_driver_get_lte_available_channels_def testmode_available_channel_handler_def
      chan_attrs_def no_chans_def le_u32_def acs_fill_first BIT_AND_eq_0_iff upt_rec bit_0)

theorem mtk_acs_lowest_free_channel_witness:
  "\<exists>chans. fst (acs_wait acs_env 7 0 []) = Some chans \<and> bit (ch_2g_base1 chans) 31 \<and>
     1 \<le> unat (6 :: u8) \<and> unat (6 :: u8) \<le> 14 \<and> bit (ch_2g_base1 chans) (unat (6 :: u8) - 1) \<and>
     (\<forall>j < unat (6 :: u8) - 1. \<not> bit (ch_2g_base1 chans) j)"
  by (rule mtk_acs_lowest_free_channel [where log' = "snd (wpa_driver_do_mtk_acs acs_env 7 [])"])
     (simp_all add: prod_eq_iff acs_env_channel)

text \<open>
  The polling loop ends after at most six queries, whatever the driver answers, and it sends
  nothing but well-formed channel queries.
\<close>

lemma mtk_acs_bounded:
  "length (snd (wpa_driver_do_mtk_acs env ifindex log)) \<le> length log + 6 \<and>
   sends_wf env log (snd (wpa_driver_do_mtk_acs env ifindex log))"
  using acs_wait_length [of env ifindex 0 log] acs_wait_sends_wf [of env ifindex 0 log]
  by (auto simp: wpa_driver_do_mtk_acs_def split: prod.splits option.splits)


end
