(* ===== verification/Sta_Statistics.thy ===== *)
theory Sta_Statistics
  imports Lte_Coex "HOL-Library.Signed_Division"
begin

text \<open>
  Station statistics: \<open>testmode_sta_statistics_handler\<close>, which fills
  \<open>struct wpa_driver_sta_statistics_s\<close> from a reply, the choice of the peer address
  (\<open>mtk_p2p_get_device\<close>, \<open>wpas_p2p_get_sta_mac\<close>), the query \<open>wpas_get_sta_statistics\<close>, and
  \<open>print_sta_statistics\<close>, which renders the structure into the caller's buffer.
  \<open>format_sta_statistics\<close> only writes the debug log and is left out.
\<close>

section \<open>The statistics structure\<close>

text \<open>\<open>enum nl80211_testmode_sta_link_statistics_attr\<close>, in its order from 1 on.\<close>

datatype sta_attr =
    STA_VERSION | STA_MAC | STA_LINK_SCORE | STA_FLAG | STA_PER | STA_RSSI | STA_PHY_MODE
  | STA_TX_RATE | STA_TOTAL_CNT | STA_THRESHOLD_CNT | STA_AVG_PROCESS_TIME
  | STA_MAX_PROCESS_TIME | STA_AVG_HIF_PROCESS_TIME | STA_MAX_HIF_PROCESS_TIME | STA_FAIL_CNT
  | STA_TIMEOUT_CNT | STA_AVG_AIR_TIME | STA_TC_EMPTY_CNT_ARRAY | STA_TC_QUE_LEN_ARRAY
  | STA_TC_AVG_QUE_LEN_ARRAY | STA_TC_CUR_QUE_LEN_ARRAY | STA_ENQUEUE | STA_STA_ENQUEUE
  | STA_DEQUEUE | STA_STA_DEQUEUE | STA_RB_ARRAY | STA_NO_TC_ARRAY | STA_TC_USED_ARRAY
  | STA_TC_WANTED_ARRAY | STA_IRQ_ISR_CNT | STA_IRQ_ISR_PASS_CNT | STA_IRQ_TASK_CNT
  | STA_IRQ_AB_CNT | STA_IRQ_SW_CNT | STA_IRQ_TX_CNT | STA_IRQ_RX_CNT | STA_RESERVED_ARRAY

definition sta_attrs :: "sta_attr list" where
  "sta_attrs = [STA_VERSION, STA_MAC, STA_LINK_SCORE, STA_FLAG, STA_PER, STA_RSSI, STA_PHY_MODE,
     STA_TX_RATE, STA_TOTAL_CNT, STA_THRESHOLD_CNT, STA_AVG_PROCESS_TIME,
     STA_MAX_PROCESS_TIME, STA_AVG_HIF_PROCESS_TIME, STA_MAX_HIF_PROCESS_TIME, STA_FAIL_CNT,
     STA_TIMEOUT_CNT, STA_AVG_AIR_TIME, STA_TC_EMPTY_CNT_ARRAY, STA_TC_QUE_LEN_ARRAY,
     STA_TC_AVG_QUE_LEN_ARRAY, STA_TC_CUR_QUE_LEN_ARRAY, STA_ENQUEUE, STA_STA_ENQUEUE,
     STA_DEQUEUE, STA_STA_DEQUEUE, STA_RB_ARRAY, STA_NO_TC_ARRAY, STA_TC_USED_ARRAY,
     STA_TC_WANTED_ARRAY, STA_IRQ_ISR_CNT, STA_IRQ_ISR_PASS_CNT, STA_IRQ_TASK_CNT,
     STA_IRQ_AB_CNT, STA_IRQ_SW_CNT, STA_IRQ_TX_CNT, STA_IRQ_RX_CNT, STA_RESERVED_ARRAY]"

text \<open>
  The arrays are kept as the bytes they occupy (\<open>u32[4]\<close> is 16 bytes), because
  \<open>nla_memcpy\<close> copies bytes. \<open>tx_rate\<close> is a \<open>double\<close> in the source that only ever holds a
  16-bit value divided by two; the field holds its number of halves.
\<close>

record sta_statistics =
  st_version :: u8
  st_addr :: mac
  st_flag :: u32
  st_link_score :: u32
  st_per :: u8
  st_rssi :: int
  st_phy_mode :: u32
  st_tx_rate :: u16
  st_tx_total_cnt :: u32
  st_enqueue_total_cnt :: u32
  st_dequeue_total_cnt :: u32
  st_enqueue_sta_total_cnt :: u32
  st_dequeue_sta_total_cnt :: u32
  st_tx_exc_threshold_cnt :: u32
  st_tx_avg_process_time :: u32
  st_tx_max_process_time :: u32
  st_tx_avg_hif_process_time :: u32
  st_tx_max_hif_process_time :: u32
  st_tx_fail_cnt :: u32
  st_tx_timeout_cnt :: u32
  st_tx_avg_air_time :: u32
  st_tc_buf_full_cnt :: "u8 list"
  st_tc_que_len :: "u8 list"
  st_tc_back_count :: "u8 list"
  st_dequeue_no_tc_res :: "u8 list"
  st_tc_wanted_res :: "u8 list"
  st_tc_used_res :: "u8 list"
  st_isr_cnt :: u32
  st_isr_pass_cnt :: u32
  st_isr_task_cnt :: u32
  st_isr_ab_cnt :: u32
  st_isr_sw_cnt :: u32
  st_isr_tx_cnt :: u32
  st_isr_rx_cnt :: u32
  st_tc_avg_que_len :: "u8 list"
  st_tc_cur_que_len :: "u8 list"
  st_reserved :: "u8 list"

text \<open>\<open>memset (&sta_statistics, 0, sizeof (sta_statistics))\<close>\<close>

definition zero_statistics :: sta_statistics where
  "zero_statistics =
     \<lparr>st_version = 0, st_addr = replicate 6 0, st_flag = 0, st_link_score = 0, st_per = 0,
      st_rssi = 0, st_phy_mode = 0, st_tx_rate = 0, st_tx_total_cnt = 0,
      st_enqueue_total_cnt = 0, st_dequeue_total_cnt = 0, st_enqueue_sta_total_cnt = 0,
      st_dequeue_sta_total_cnt = 0, st_tx_exc_threshold_cnt = 0, st_tx_avg_process_time = 0,
      st_tx_max_process_time = 0, st_tx_avg_hif_process_time = 0,
      st_tx_max_hif_process_time = 0, st_tx_fail_cnt = 0, st_tx_timeout_cnt = 0,
      st_tx_avg_air_time = 0, st_tc_buf_full_cnt = replicate 16 0,
      st_tc_que_len = replicate 16 0, st_tc_back_count = replicate 16 0,
      st_dequeue_no_tc_res = replicate 16 0, st_tc_wanted_res = replicate 16 0,
      st_tc_used_res = replicate 16 0, st_isr_cnt = 0, st_isr_pass_cnt = 0,
      st_isr_task_cnt = 0, st_isr_ab_cnt = 0, st_isr_sw_cnt = 0, st_isr_tx_cnt = 0,
      st_isr_rx_cnt = 0, st_tc_avg_que_len = replicate 16 0,
      st_tc_cur_que_len = replicate 16 0, st_reserved = replicate 32 0\<rparr>"

section \<open>The reply handler\<close>

text \<open>\<open>nla_memcpy (dst, attr, count)\<close> copies the payload, \<open>count\<close> bytes at most.\<close>

definition nla_memcpy :: "nat \<Rightarrow> u8 list \<Rightarrow> u8 list \<Rightarrow> u8 list" where
  "nla_memcpy count payload dst = copy_over (take count payload) dst"

text \<open>The \<open>switch\<close> of the handler. C division rounds towards zero.\<close>

fun store_sta :: "sta_attr \<Rightarrow> u8 list \<Rightarrow> sta_statistics \<Rightarrow> sta_statistics" where
  "store_sta STA_VERSION bs s = s\<lparr>st_version := hd bs\<rparr>"
| "store_sta STA_MAC bs s = s\<lparr>st_addr := nla_memcpy 6 bs (st_addr s)\<rparr>"
| "store_sta STA_LINK_SCORE bs s = s\<lparr>st_link_score := le_u32 bs\<rparr>"
| "store_sta STA_FLAG bs s = s\<lparr>st_flag := le_u32 bs\<rparr>"
| "store_sta STA_PER bs s = s\<lparr>st_per := hd bs\<rparr>"
| "store_sta STA_RSSI bs s = s\<lparr>st_rssi := (int (unat (hd bs)) - 220) sdiv 2\<rparr>"
| "store_sta STA_PHY_MODE bs s = s\<lparr>st_phy_mode := le_u32 bs\<rparr>"
| "store_sta STA_TX_RATE bs s = s\<lparr>st_tx_rate := le_u16 bs\<rparr>"
| "store_sta STA_FAIL_CNT bs s = s\<lparr>st_tx_fail_cnt := le_u32 bs\<rparr>"
| "store_sta STA_TIMEOUT_CNT bs s = s\<lparr>st_tx_timeout_cnt := le_u32 bs\<rparr>"
| "store_sta STA_AVG_AIR_TIME bs s = s\<lparr>st_tx_avg_air_time := le_u32 bs\<rparr>"
| "store_sta STA_TOTAL_CNT bs s = s\<lparr>st_tx_total_cnt := le_u32 bs\<rparr>"
| "store_sta STA_THRESHOLD_CNT bs s = s\<lparr>st_tx_exc_threshold_cnt := le_u32 bs\<rparr>"
| "store_sta STA_AVG_PROCESS_TIME bs s = s\<lparr>st_tx_avg_process_time := le_u32 bs\<rparr>"
| "store_sta STA_MAX_PROCESS_TIME bs s = s\<lparr>st_tx_max_process_time := le_u32 bs\<rparr>"
| "store_sta STA_AVG_HIF_PROCESS_TIME bs s = s\<lparr>st_tx_avg_hif_process_time := le_u32 bs\<rparr>"
| "store_sta STA_MAX_HIF_PROCESS_TIME bs s = s\<lparr>st_tx_max_hif_process_time := le_u32 bs\<rparr>"
| "store_sta STA_TC_EMPTY_CNT_ARRAY bs s =
     s\<lparr>st_tc_buf_full_cnt := nla_memcpy 16 bs (st_tc_buf_full_cnt s)\<rparr>"
| "store_sta STA_TC_QUE_LEN_ARRAY bs s = s\<lparr>st_tc_que_len := nla_memcpy 16 bs (st_tc_que_len s)\<rparr>"
| "store_sta STA_TC_AVG_QUE_LEN_ARRAY bs s =
     s\<lparr>st_tc_avg_que_len := nla_memcpy 16 bs (st_tc_avg_que_len s)\<rparr>"
| "store_sta STA_TC_CUR_QUE_LEN_ARRAY bs s =
     s\<lparr>st_tc_cur_que_len := nla_memcpy 16 bs (st_tc_cur_que_len s)\<rparr>"
| "store_sta STA_ENQUEUE bs s = s\<lparr>st_enqueue_total_cnt := le_u32 bs\<rparr>"
| "store_sta STA_DEQUEUE bs s = s\<lparr>st_dequeue_total_cnt := le_u32 bs\<rparr>"
| "store_sta STA_STA_ENQUEUE bs s = s\<lparr>st_enqueue_sta_total_cnt := le_u32 bs\<rparr>"
| "store_sta STA_STA_DEQUEUE bs s = s\<lparr>st_dequeue_sta_total_cnt := le_u32 bs\<rparr>"
| "store_sta STA_IRQ_ISR_CNT bs s = s\<lparr>st_isr_cnt := le_u32 bs\<rparr>"
| "store_sta STA_IRQ_ISR_PASS_CNT bs s = s\<lparr>st_isr_pass_cnt := le_u32 bs\<rparr>"
| "store_sta STA_IRQ_TASK_CNT bs s = s\<lparr>st_isr_task_cnt := le_u32 bs\<rparr>"
| "store_sta STA_IRQ_AB_CNT bs s = s\<lparr>st_isr_ab_cnt := le_u32 bs\<rparr>"
| "store_sta STA_IRQ_SW_CNT bs s = s\<lparr>st_isr_sw_cnt := le_u32 bs\<rparr>"
| "store_sta STA_IRQ_TX_CNT bs s = s\<lparr>st_isr_tx_cnt := le_u32 bs\<rparr>"
| "store_sta STA_IRQ_RX_CNT bs s = s\<lparr>st_isr_rx_cnt := le_u32 bs\<rparr>"
| "store_sta STA_NO_TC_ARRAY bs s =
     s\<lparr>st_dequeue_no_tc_res := nla_memcpy 16 bs (st_dequeue_no_tc_res s)\<rparr>"
| "store_sta STA_TC_USED_ARRAY bs s = s\<lparr>st_tc_used_res := nla_memcpy 16 bs (st_tc_used_res s)\<rparr>"
| "store_sta STA_TC_WANTED_ARRAY bs s =
     s\<lparr>st_tc_wanted_res := nla_memcpy 16 bs (st_tc_wanted_res s)\<rparr>"
| "store_sta STA_RB_ARRAY bs s = s\<lparr>st_tc_back_count := nla_memcpy 16 bs (st_tc_back_count s)\<rparr>"
| "store_sta STA_RESERVED_ARRAY bs s = s\<lparr>st_reserved := nla_memcpy 32 bs (st_reserved s)\<rparr>"

text \<open>Attribute \<open>i\<close> of the nested table is the \<open>i\<close>-th enumerator.\<close>

definition sta_index :: "sta_attr \<Rightarrow> nat" where
  "sta_index a = Suc (length (takeWhile (\<lambda>b. b \<noteq> a) sta_attrs))"

definition testmode_sta_statistics_handler :: "nl_reply \<Rightarrow> sta_statistics \<Rightarrow> sta_statistics" where
  "testmode_sta_statistics_handler reply s =
     (case reply of
        Nested sinfo \<Rightarrow> fill_attrs store_sta (\<lambda>a. sinfo (sta_index a)) sta_attrs s
      | _ \<Rightarrow> s)"

section \<open>The policy of the reply\<close>

datatype nla_type = NLA_U8 | NLA_U16 | NLA_U32 | NLA_UNSPEC

fun sta_policy :: "sta_attr \<Rightarrow> nla_type" where
  "sta_policy STA_VERSION = NLA_U8"
| "sta_policy STA_MAC = NLA_UNSPEC"
| "sta_policy STA_LINK_SCORE = NLA_U32"
| "sta_policy STA_FLAG = NLA_U32"
| "sta_policy STA_PER = NLA_U8"
| "sta_policy STA_RSSI = NLA_U8"
| "sta_policy STA_PHY_MODE = NLA_U32"
| "sta_policy STA_TX_RATE = NLA_U16"
| "sta_policy STA_TOTAL_CNT = NLA_U32"
| "sta_policy STA_THRESHOLD_CNT = NLA_U32"
| "sta_policy STA_AVG_PROCESS_TIME = NLA_U32"
| "sta_policy STA_MAX_PROCESS_TIME = NLA_U32"
| "sta_policy STA_AVG_HIF_PROCESS_TIME = NLA_U32"
| "sta_policy STA_MAX_HIF_PROCESS_TIME = NLA_U32"
| "sta_policy STA_FAIL_CNT = NLA_U32"
| "sta_policy STA_TIMEOUT_CNT = NLA_U32"
| "sta_policy STA_AVG_AIR_TIME = NLA_U32"
| "sta_policy STA_TC_EMPTY_CNT_ARRAY = NLA_UNSPEC"
| "sta_policy STA_TC_QUE_LEN_ARRAY = NLA_UNSPEC"
| "sta_policy STA_TC_AVG_QUE_LEN_ARRAY = NLA_UNSPEC"
| "sta_policy STA_TC_CUR_QUE_LEN_ARRAY = NLA_UNSPEC"
| "sta_policy STA_ENQUEUE = NLA_U32"
| "sta_policy STA_STA_ENQUEUE = NLA_U32"
| "sta_policy STA_DEQUEUE = NLA_U32"
| "sta_policy STA_STA_DEQUEUE = NLA_U32"
| "sta_policy STA_RB_ARRAY = NLA_UNSPEC"
| "sta_policy STA_NO_TC_ARRAY = NLA_UNSPEC"
| "sta_policy STA_TC_USED_ARRAY = NLA_UNSPEC"
| "sta_policy STA_TC_WANTED_ARRAY = NLA_UNSPEC"
| "sta_policy STA_IRQ_ISR_CNT = NLA_U32"
| "sta_policy STA_IRQ_ISR_PASS_CNT = NLA_U32"
| "sta_policy STA_IRQ_TASK_CNT = NLA_U32"
| "sta_policy STA_IRQ_AB_CNT = NLA_U32"
| "sta_policy STA_IRQ_SW_CNT = NLA_U32"
| "sta_policy STA_IRQ_TX_CNT = NLA_U32"
| "sta_policy STA_IRQ_RX_CNT = NLA_U32"
| "sta_policy STA_RESERVED_ARRAY = NLA_UNSPEC"

text \<open>The field an attribute belongs to, as a list of integers.\<close>

fun sta_field :: "sta_attr \<Rightarrow> sta_statistics \<Rightarrow> int list" where
  "sta_field STA_VERSION s = [uint (st_version s)]"
| "sta_field STA_MAC s = map uint (st_addr s)"
| "sta_field STA_LINK_SCORE s = [uint (st_link_score s)]"
| "sta_field STA_FLAG s = [uint (st_flag s)]"
| "sta_field STA_PER s = [uint (st_per s)]"
| "sta_field STA_RSSI s = [st_rssi s]"
| "sta_field STA_PHY_MODE s = [uint (st_phy_mode s)]"
| "sta_field STA_TX_RATE s = [uint (st_tx_rate s)]"
| "sta_field STA_TOTAL_CNT s = [uint (st_tx_total_cnt s)]"
| "sta_field STA_THRESHOLD_CNT s = [uint (st_tx_exc_threshold_cnt s)]"
| "sta_field STA_AVG_PROCESS_TIME s = [uint (st_tx_avg_process_time s)]"
| "sta_field STA_MAX_PROCESS_TIME s = [uint (st_tx_max_process_time s)]"
| "sta_field STA_AVG_HIF_PROCESS_TIME s = [uint (st_tx_avg_hif_process_time s)]"
| "sta_field STA_MAX_HIF_PROCESS_TIME s = [uint (st_tx_max_hif_process_time s)]"
| "sta_field STA_FAIL_CNT s = [uint (st_tx_fail_cnt s)]"
| "sta_field STA_TIMEOUT_CNT s = [uint (st_tx_timeout_cnt s)]"
| "sta_field STA_AVG_AIR_TIME s = [uint (st_tx_avg_air_time s)]"
| "sta_field STA_TC_EMPTY_CNT_ARRAY s = map uint (st_tc_buf_full_cnt s)"
| "sta_field STA_TC_QUE_LEN_ARRAY s = map uint (st_tc_que_len s)"
| "sta_field STA_TC_AVG_QUE_LEN_ARRAY s = map uint (st_tc_avg_que_len s)"
| "sta_field STA_TC_CUR_QUE_LEN_ARRAY s = map uint (st_tc_cur_que_len s)"
| "sta_field STA_ENQUEUE s = [uint (st_enqueue_total_cnt s)]"
| "sta_field STA_STA_ENQUEUE s = [uint (st_enqueue_sta_total_cnt s)]"
| "sta_field STA_DEQUEUE s = [uint (st_dequeue_total_cnt s)]"
| "sta_field STA_STA_DEQUEUE s = [uint (st_dequeue_sta_total_cnt s)]"
| "sta_field STA_RB_ARRAY s = map uint (st_tc_back_count s)"
| "sta_field STA_NO_TC_ARRAY s = map uint (st_dequeue_no_tc_res s)"
| "sta_field STA_TC_USED_ARRAY s = map uint (st_tc_used_res s)"
| "sta_field STA_TC_WANTED_ARRAY s = map uint (st_tc_wanted_res s)"
| "sta_field STA_IRQ_ISR_CNT s = [uint (st_isr_cnt s)]"
| "sta_field STA_IRQ_ISR_PASS_CNT s = [uint (st_isr_pass_cnt s)]"
| "sta_field STA_IRQ_TASK_CNT s = [uint (st_isr_task_cnt s)]"
| "sta_field STA_IRQ_AB_CNT s = [uint (st_isr_ab_cnt s)]"
| "sta_field STA_IRQ_SW_CNT s = [uint (st_isr_sw_cnt s)]"
| "sta_field STA_IRQ_TX_CNT s = [uint (st_isr_tx_cnt s)]"
| "sta_field STA_IRQ_RX_CNT s = [uint (st_isr_rx_cnt s)]"
| "sta_field STA_RESERVED_ARRAY s = map uint (st_reserved s)"

text \<open>The room of an array field in bytes.\<close>

definition sta_array_size :: "sta_attr \<Rightarrow> nat" where
  "sta_array_size a = (if a = STA_MAC then 6 else if a = STA_RESERVED_ARRAY then 32 else 16)"

text \<open>The payload read at the width the policy declares.\<close>

definition sta_decode :: "sta_attr \<Rightarrow> u8 list \<Rightarrow> int list \<Rightarrow> int list" where
  "sta_decode a bs old =
     (case sta_policy a of
        NLA_U8 \<Rightarrow> [if a = STA_RSSI then (uint (hd bs) - 220) sdiv 2 else uint (hd bs)]
      | NLA_U16 \<Rightarrow> [uint (le_u16 bs)]
      | NLA_U32 \<Rightarrow> [uint (le_u32 bs)]
      | NLA_UNSPEC \<Rightarrow> copy_over (map uint (take (sta_array_size a) bs)) old)"

interpretation sta: attr_fields sta_field store_sta sta_decode
proof
  fix k bs s show "sta_field k (store_sta k bs s) = sta_decode k bs (sta_field k s)"
    by (cases k)
       (simp_all add: sta_decode_def sta_array_size_def nla_memcpy_def copy_over_def drop_map take_map)
next
  fix k' k :: sta_attr and bs s
  assume "k' \<noteq> k"
  then show "sta_field k' (store_sta k bs s) = sta_field k' s"
    by (cases k; cases k'; simp)
qed

lemma sta_attrs_all: "a \<in> set sta_attrs"
  by (cases a) (simp_all add: sta_attrs_def)

lemma distinct_sta_attrs: "distinct sta_attrs"
  by (simp add: sta_attrs_def)

lemma sta_handler_field:
  "sta_field a (testmode_sta_statistics_handler (Nested sinfo) s) =
     (case sinfo (sta_index a) of
        None \<Rightarrow> sta_field a s
      | Some payload \<Rightarrow> sta_decode a payload (sta_field a s))"
  by (simp add: testmode_sta_statistics_handler_def sta.fill_field [OF distinct_sta_attrs sta_attrs_all])

text \<open>
  C19: after a parsed reply every field of the statistics structure holds the decoded payload of
  its own attribute, read at the width of the attribute's policy, or its old value when the
  attribute is absent; no attribute disturbs another one's field.
\<close>

theorem sta_statistics_handler_fields:
  "sta_field a (testmode_sta_statistics_handler (Nested sinfo) s) =
     (case sinfo (sta_index a) of
        None \<Rightarrow> sta_field a s
      | Some payload \<Rightarrow> sta_decode a payload (sta_field a s))"
  by (rule sta_handler_field)

lemma sta_index_le: "sta_index a \<le> 37"
  by (cases a) (simp_all add: sta_index_def sta_attrs_def)

text \<open>The sizes of the array fields.\<close>

definition wf_statistics :: "sta_statistics \<Rightarrow> bool" where
  "wf_statistics s \<longleftrightarrow>
     list_all (\<lambda>a. sta_policy a = NLA_UNSPEC \<longrightarrow> length (sta_field a s) = sta_array_size a) sta_attrs"

lemma wf_statistics_iff:
  "wf_statistics s \<longleftrightarrow>
     (\<forall>a. sta_policy a = NLA_UNSPEC \<longrightarrow> length (sta_field a s) = sta_array_size a)"
  using sta_attrs_all by (auto simp: wf_statistics_def list_all_iff)

lemma wf_zero_statistics: "wf_statistics zero_statistics"
  by (simp add: wf_statistics_def sta_attrs_def zero_statistics_def sta_array_size_def)

lemma sta_handler_wf:
  "wf_statistics s \<Longrightarrow> wf_statistics (testmode_sta_statistics_handler reply s)"
proof (cases reply)
  case (Nested sinfo)
  assume "wf_statistics s"
  then show ?thesis
    unfolding wf_statistics_iff Nested sta_handler_field
    by (auto simp: sta_decode_def split: option.splits)
qed (auto simp: testmode_sta_statistics_handler_def)

section \<open>Peers\<close>

record p2p_device =
  p2p_device_addr :: mac
  dev_interface_addr :: mac

text \<open>\<open>dl_list_for_each\<close> over \<open>p2p->devices\<close>: the first entry with the address.\<close>

fun mtk_p2p_get_device :: "p2p_device list \<Rightarrow> mac \<Rightarrow> p2p_device option" where
  "mtk_p2p_get_device [] a = None"
| "mtk_p2p_get_device (dev # devs) a =
     (if p2p_device_addr dev = a then Some dev else mtk_p2p_get_device devs a)"

text \<open>
  \<open>wpas_p2p_get_sta_mac\<close>: \<open>devices\<close> is \<open>None\<close> when the interface has no P2P context, \<open>infra\<close>
  is \<open>None\<close> when there is no current network and otherwise tells whether its mode is
  \<open>WPAS_MODE_INFRA\<close>; \<open>bssid\<close> is \<open>wpa_s->bssid\<close>.
\<close>

definition wpas_p2p_get_sta_mac ::
  "drv_env \<Rightarrow> p2p_device list option \<Rightarrow> bool option \<Rightarrow> mac \<Rightarrow> mac \<Rightarrow> mac option" where
  "wpas_p2p_get_sta_mac env devices infra bssid org_addr =
     (case devices of
        None \<Rightarrow> None
      | Some devs \<Rightarrow>
          (case infra of
             None \<Rightarrow> None
           | Some is_p2p_client \<Rightarrow>
               (case mtk_p2p_get_device devs org_addr of
                  None \<Rightarrow> None
                | Some dev \<Rightarrow>
                    if is_p2p_client \<and> p2p_device_addr dev \<noteq> bssid \<and> \<not> is_zero_ether_addr env bssid
                    then Some bssid
                    else if p2p_device_addr dev \<noteq> dev_interface_addr dev
                            \<and> \<not> is_zero_ether_addr env (dev_interface_addr dev)
                    then Some (dev_interface_addr dev)
                    else None)))"

definition wpas_get_sta_statistics ::
  "drv_env \<Rightarrow> u32 \<Rightarrow> mac \<Rightarrow> sta_statistics \<Rightarrow> tm_log \<Rightarrow> int \<times> sta_statistics \<times> tm_log" where
  "wpas_get_sta_statistics env ifindex sta_adr buf log =
     (let (ret, replies, log') = send_request env ifindex NL80211_TESTMODE_STATISTICS
                                   (Get_sta_statistics 0 0 (take 6 sta_adr)) log
      in (ret, fold testmode_sta_statistics_handler replies buf, log'))"

section \<open>Printing\<close>

text \<open>
  One \<open>os_snprintf\<close> with its check: \<open>acc\<close> is the text written so far (\<open>pos - buf\<close> is its
  length). The text fits when it is shorter than the room left; otherwise the printer returns 0
  and leaves the truncated text behind. The second component is the buffer's content.
\<close>

fun emit_all :: "nat \<Rightarrow> string \<Rightarrow> string list \<Rightarrow> nat \<times> string" where
  "emit_all buflen acc [] = (length acc, acc)"
| "emit_all buflen acc (t # ts) =
     (if length t \<ge> buflen - length acc
      then (0, acc @ fst (snprintf (buflen - length acc) t))
      else emit_all buflen (acc @ t) ts)"

text \<open>\<open>%d\<close> of a \<open>u32\<close> reads it as an \<open>int\<close>.\<close>

definition fmt_du :: "u32 \<Rightarrow> string" where
  "fmt_du w = fmt_d (sint w)"

definition fmt_tc :: "u8 list \<Rightarrow> string" where
  "fmt_tc bs = join_colon (map (\<lambda>i. fmt_du (le_u32 (drop (4 * i) bs))) [0, 1, 2, 3])"

text \<open>\<open>%.1f\<close> of \<open>tx_rate\<close>\<close>

definition fmt_rate :: "u16 \<Rightarrow> string" where
  "fmt_rate r = fmt_d (int (unat r div 2)) @ (if odd (unat r) then ''.5'' else ''.0'')"

text \<open>The pieces of a \<open>reserved\<close> line: two digits per byte, a blank after every fourth.\<close>

definition reserved_pieces :: "u8 list \<Rightarrow> nat list \<Rightarrow> string list" where
  "reserved_pieces bs is =
     concat (map (\<lambda>i. fmt_02X (bs ! i) # (if (i + 1) mod 4 = 0 then ['' ''] else [])) is)"

definition nl :: string where
  "nl = [CHR 0x0A]"

definition statistics_pieces :: "sta_statistics \<Rightarrow> string list" where
  "statistics_pieces s =
     [''sta_addr='' @ fmt_mac (st_addr s) @ nl,
      ''link_score='' @ fmt_du (st_link_score s) @ nl,
      ''per='' @ fmt_d (uint (st_per s)) @ nl,
      ''rssi='' @ fmt_d (st_rssi s) @ nl,
      ''phy=0x'' @ fmt_08X (st_phy_mode s) @ nl,
      ''rate='' @ fmt_rate (st_tx_rate s) @ nl,
      ''total_cnt='' @ fmt_du (st_tx_total_cnt s) @ nl,
      ''threshold_cnt='' @ fmt_du (st_tx_exc_threshold_cnt s) @ nl,
      ''fail_cnt='' @ fmt_du (st_tx_fail_cnt s) @ nl,
      ''timeout_cnt='' @ fmt_du (st_tx_timeout_cnt s) @ nl,
      ''apt='' @ fmt_du (st_tx_avg_process_time s) @ nl,
      ''aat='' @ fmt_du (st_tx_avg_air_time s) @ nl,
      ''TC_buf_full_cnt='' @ fmt_tc (st_tc_buf_full_cnt s) @ nl,
      ''TC_sta_que_len='' @ fmt_tc (st_tc_que_len s) @ nl,
      ''TC_avg_que_len='' @ fmt_tc (st_tc_avg_que_len s) @ nl,
      ''TC_cur_que_len='' @ fmt_tc (st_tc_cur_que_len s) @ nl,
      ''flag=0x'' @ fmt_08X (st_flag s) @ nl,
      ''reserved0='']
     @ reserved_pieces (st_reserved s) [0..<16]
     @ [nl, ''reserved1='']
     @ reserved_pieces (st_reserved s) [16..<32]
     @ [nl, ''===='' @ nl]"

definition print_sta_statistics :: "sta_statistics \<Rightarrow> nat \<Rightarrow> nat \<times> string" where
  "print_sta_statistics s buflen = emit_all buflen [] (statistics_pieces s)"

text \<open>The result code, the text left in the caller's buffer and the log.\<close>

definition wpa_driver_get_sta_statistics ::
  "drv_env \<Rightarrow> u32 \<Rightarrow> p2p_device list option \<Rightarrow> bool option \<Rightarrow> mac \<Rightarrow> string \<Rightarrow> nat \<Rightarrow> tm_log
    \<Rightarrow> int \<times> string option \<times> tm_log" where
  "wpa_driver_get_sta_statistics env ifindex devices infra bssid arg buflen log =
     (case hwaddr_aton env arg of
        None \<Rightarrow> (-1, None, log)
      | Some sta_adr \<Rightarrow>
          (let m = (case wpas_p2p_get_sta_mac env devices infra bssid sta_adr of
                      Some m \<Rightarrow> m | None \<Rightarrow> sta_adr);
               (ret, stats, log') = wpas_get_sta_statistics env ifindex m zero_statistics log
           in if ret < 0 then (-1, None, log')
              else (let (len, txt) = print_sta_statistics stats buflen
                    in (int len, Some txt, log'))))"

section \<open>Correctness of the query and the printer\<close>

lemma emit_all_spec:
  assumes "length acc < buflen"
  shows "emit_all buflen acc ts =
     (let txt = acc @ concat ts
      in if length txt < buflen then (length txt, txt) else (0, take (buflen - 1) txt))"
  using assms
  by (induction ts arbitrary: acc) (auto simp: snprintf_def Let_def)

lemma statistics_pieces_Cons: "\<exists>t ts. statistics_pieces s = t # ts"
  by (simp add: statistics_pieces_def)

text \<open>
  C27: \<open>print_sta_statistics\<close> is all or nothing. With \<open>txt\<close> the concatenation of all its pieces, it
  returns the length of \<open>txt\<close> and leaves \<open>txt\<close> in the buffer when \<open>txt\<close> and its NUL fit, and
  otherwise returns 0 with the buffer holding the first \<open>buflen - 1\<close> characters; in no case does
  the text reach the last byte of the buffer.
\<close>

theorem print_sta_statistics_all_or_nothing:
  "print_sta_statistics s buflen =
     (let txt = concat (statistics_pieces s)
      in if length txt < buflen then (length txt, txt) else (0, take (buflen - 1) txt))
   \<and> length (snd (print_sta_statistics s buflen)) \<le> buflen - 1"
proof -
  obtain t ts where ts: "statistics_pieces s = t # ts"
    using statistics_pieces_Cons by blast
  have "print_sta_statistics s buflen =
     (let txt = concat (statistics_pieces s)
      in if length txt < buflen then (length txt, txt) else (0, take (buflen - 1) txt))"
    by (cases "buflen = 0") (simp_all add: print_sta_statistics_def ts snprintf_def emit_all_spec del: emit_all.simps(2), simp add: snprintf_def)
  then show ?thesis by (auto simp: Let_def)
qed

lemma mtk_p2p_get_device_Some:
  "mtk_p2p_get_device devs a = Some dev \<Longrightarrow> dev \<in> set devs \<and> p2p_device_addr dev = a"
  by (induction devs) (auto split: if_splits)

text \<open>
  When \<open>wpas_p2p_get_sta_mac\<close> replaces the peer address, the replacement differs from the
  device address that was asked for, is not the zero address, and is either our BSSID or the
  interface address of the known peer with that device address.
\<close>

lemma get_sta_mac_replacement:
  assumes "wpas_p2p_get_sta_mac env devices infra bssid org_addr = Some m"
  shows "m \<noteq> org_addr \<and> \<not> is_zero_ether_addr env m \<and>
         (\<exists>devs dev. devices = Some devs \<and> dev \<in> set devs \<and> p2p_device_addr dev = org_addr \<and>
            (m = bssid \<and> infra = Some True \<or> m = dev_interface_addr dev))"
  using assms
  by (auto simp: wpas_p2p_get_sta_mac_def dest: mtk_p2p_get_device_Some
      split: option.splits if_splits)

lemma get_sta_statistics_sends_wf:
  "wpas_get_sta_statistics env ifindex a buf log = (ret, st, log') \<Longrightarrow> sends_wf env log log'"
  by (auto simp: wpas_get_sta_statistics_def layout split: prod.splits
      intro: send_request_sends_wf)

interpretation stats: testmode_sender env
  "\<lambda>log. let (r, _, l) = wpa_driver_get_sta_statistics env ifindex devices infra bssid arg buflen log in (r, l)"
  for env ifindex devices infra bssid arg buflen
  by unfold_locales
     (auto simp: wpa_driver_get_sta_statistics_def Let_def split: prod.splits option.splits if_splits
       intro: get_sta_statistics_sends_wf)

lemma fold_sta_handler_wf:
  "wf_statistics s \<Longrightarrow> wf_statistics (fold testmode_sta_statistics_handler rs s)"
  by (induction rs arbitrary: s) (auto intro: sta_handler_wf)

text \<open>
  C37: whatever the driver answers, the array fields of the structure that
  \<open>wpa_driver_get_sta_statistics\<close> hands to the printer keep their size: no reply writes past the
  end of a field.
\<close>

theorem get_sta_statistics_in_bounds:
  "wf_statistics (fst (snd (wpas_get_sta_statistics env ifindex a zero_statistics log)))"
  by (auto simp: wpas_get_sta_statistics_def wf_zero_statistics fold_sta_handler_wf
      split: prod.splits)

section \<open>The debug log\<close>

text \<open>
  \<open>format_sta_statistics\<close> writes five lines to the log. A line is a list of labels, each with the width and the
  value of the number behind it, and a tail; \<open>%4d\<close> pads with blanks on the left.
\<close>

definition fmt_dw :: "nat \<Rightarrow> u32 \<Rightarrow> string" where
  "fmt_dw n w = replicate (n - length (fmt_du w)) (CHR '' '') @ fmt_du w"

fun line_text :: "(string \<times> nat \<times> u32) list \<Rightarrow> string \<Rightarrow> string" where
  "line_text [] tail = tail"
| "line_text ((label, n, v) # ps) tail = label @ fmt_dw n v @ line_text ps tail"

definition TC_value :: "u8 list \<Rightarrow> nat \<Rightarrow> u32" where
  "TC_value bs i = le_u32 (drop (4 * i) bs)"

definition format_parts :: "sta_statistics \<Rightarrow> ((string \<times> nat \<times> u32) list \<times> string) list" where
  "format_parts s =
     [([(''NWFD: Basic info* AVG:'', 4, st_tx_avg_process_time s), ('':EN:'', 4, st_enqueue_total_cnt s),
        ('':DE:'', 4, st_dequeue_total_cnt s), ('':SEN:'', 4, st_enqueue_sta_total_cnt s),
        ('':SDE:'', 4, st_dequeue_sta_total_cnt s), ('':HIF:'', 4, st_tx_total_cnt s)], []),
      ([(''NWFD: Time info* TTL:'', 4, st_tx_total_cnt s), ('':AVG:'', 4, st_tx_avg_process_time s),
        ('':MAX:'', 4, st_tx_max_process_time s), ('':HIFAVG:'', 4, st_tx_avg_hif_process_time s),
        ('':HIFMAX:'', 4, st_tx_max_hif_process_time s)], []),
      ([(''NWFD: No TC RES* Score:'', 4, st_link_score s), ('':EN:'', 4, TC_value (st_tc_buf_full_cnt s) 0),
        (''#'', 4, TC_value (st_tc_buf_full_cnt s) 1), (''#'', 4, TC_value (st_tc_buf_full_cnt s) 2),
        (''#'', 4, TC_value (st_tc_buf_full_cnt s) 3), ('':DE:'', 4, TC_value (st_dequeue_no_tc_res s) 0),
        (''#'', 4, TC_value (st_dequeue_no_tc_res s) 1), (''#'', 4, TC_value (st_dequeue_no_tc_res s) 2),
        (''#'', 4, TC_value (st_dequeue_no_tc_res s) 3)], []),
      ([(''NWFD: Irq info* T:'', 4, st_isr_cnt s), ('':P:'', 4, st_isr_pass_cnt s), ('':TT:'', 4, st_isr_task_cnt s),
        ('':A:'', 4, st_isr_ab_cnt s), ('':S:'', 4, st_isr_sw_cnt s), ('':R:'', 4, st_isr_rx_cnt s),
        ('':T:'', 4, st_isr_tx_cnt s)], []),
      ((''NWFD: TC Res info[W:U:B]* Score:'', 4, st_link_score s) #
       concat (map (\<lambda>i. [(if i = 0 then '':#'' else ''##'', 5, TC_value (st_tc_wanted_res s) i),
         ('':'', 5, TC_value (st_tc_used_res s) i), ('':'', 5, TC_value (st_tc_back_count s) i)]) [0, 1, 2, 3]), ''#'')]"

definition format_sta_statistics :: "sta_statistics \<Rightarrow> string list" where
  "format_sta_statistics s = map (\<lambda>(ps, tail). line_text ps tail) (format_parts s)"

text \<open>A reader that knows the labels skips each of them, takes the number with \<open>strtol\<close> and goes on behind it.\<close>

fun read_line :: "string list \<Rightarrow> string \<Rightarrow> u32 list" where
  "read_line [] txt = []"
| "read_line (label # ls) txt =
     (let (v, rest) = strtol 64 10 (drop (length label) txt) in word_of_int v # read_line ls rest)"

lemma strtol_blanks:
  assumes "strtol lw b s = (v, r)" "r \<noteq> s"
  shows "strtol lw b (replicate n (CHR '' '') @ s) = (v, r)"
proof -
  have "dropWhile is_space (replicate n (CHR '' '') @ s) = dropWhile is_space s"
    by (induction n) (simp_all add: is_space_def chr_code_def)
  with assms show ?thesis by (auto simp: strtol_def Let_def split: prod.splits if_splits)
qed

lemma strtol_fmt_dw:
  assumes "\<not> has_digit 10 s"
  shows "strtol 64 10 (fmt_dw n w @ s) = (sint w, s)"
proof -
  have "- (2 ^ 31) \<le> sint w" "sint w < 2 ^ 31" using sint_ge [of w] sint_lt [of w] by simp_all
  with assms have "strtol 64 10 (fmt_d (sint w) @ s) = (sint w, s)" by (intro strtol_fmt_d) auto
  from strtol_blanks [OF this] show ?thesis by (simp add: fmt_dw_def fmt_du_def fmt_d_nonempty)
qed

lemma has_digit_append: "l \<noteq> [] \<Longrightarrow> has_digit b (l @ s) = has_digit b l"
  by (cases l) (simp_all add: has_digit_def)

lemma read_line_text:
  "list_all (\<lambda>(l, _, _). l \<noteq> [] \<and> \<not> has_digit 10 l) ps \<Longrightarrow> \<not> has_digit 10 tail \<Longrightarrow>
   read_line (map fst ps) (line_text ps tail) = map (\<lambda>(_, _, v). v) ps"
proof (induction ps)
  case (Cons p ps)
  obtain l n v where p: "p = (l, n, v)" by (cases p)
  have "\<not> has_digit 10 (line_text ps tail)" using Cons.prems
    by (cases ps) (auto simp: has_digit_append)
  with Cons show ?case by (simp add: p strtol_fmt_dw)
qed simp

text \<open>No number runs into its neighbours, however large it is: the values are read back from every line.\<close>

lemma format_read_back:
  "list_all2 (\<lambda>(ps, tail) txt. read_line (map fst ps) txt = map (\<lambda>(_, _, v). v) ps)
     (format_parts s) (format_sta_statistics s)"
proof -
  have "list_all (\<lambda>(ps, tail). list_all (\<lambda>(l, _, _). l \<noteq> [] \<and> \<not> has_digit 10 l) ps \<and> \<not> has_digit 10 tail) (format_parts s)"
    by (simp add: format_parts_def has_digit_def digit_in_def digit_val_def chr_code_def)
  then show ?thesis unfolding format_sta_statistics_def
    by (auto simp: list_all2_conv_all_nth list_all_length read_line_text split: prod.splits)
qed

end
