(* ===== verification/P2p_Params.thy ===== *)
theory P2p_Params
  imports Sta_Statistics
begin

text \<open>
  The P2P side of the driver library: the in-place tokenizer \<open>tokenize_space\<close>, the
  \<open>p2p_ctrl_iface_set_*\<close> commands that turn text into testmode requests, the Wi-Fi Display
  update, the capability commands, \<open>priv_p2p_freq_to_channel\<close>, the choice of the operating
  channel in \<open>p2p_wfd_sink_config_scc\<close>, and the collection of the frequencies in use by the
  interfaces of one radio.
\<close>

section \<open>The tokenizer\<close>

text \<open>
  \<open>tokenize_space\<close> works in place on a buffer that holds a NUL-terminated string: separators are
  overwritten with NUL and \<open>argv\<close> receives the offsets of the tokens. The caller's \<open>argv\<close> has
  room for 64 pointers; writing entry 64 is out of bounds.
\<close>

definition is_sep :: "char \<Rightarrow> bool" where
  "is_sep c \<longleftrightarrow> c = CHR 0x0A \<or> c = CHR '' ''"

definition ARGV_SIZE :: nat where
  "ARGV_SIZE = 64"

text \<open>The inner \<open>while\<close>: it stops at a separator, at a NUL, or when \<open>len\<close> is reached.\<close>

function tokenize_scan :: "string \<Rightarrow> nat \<Rightarrow> nat \<Rightarrow> nat" where
  "tokenize_scan buf len pos =
     (if \<not> is_sep (buf ! pos) \<and> buf ! pos \<noteq> NUL
      then (if pos + 1 \<ge> len then pos + 1 else tokenize_scan buf len (pos + 1))
      else pos)"
  by pat_completeness auto
termination
  by (relation "measure (\<lambda>(buf, len, pos). len - pos)") auto

declare tokenize_scan.simps [simp del]

function tokenize_loop ::
  "nat \<Rightarrow> string \<Rightarrow> nat list \<Rightarrow> nat \<Rightarrow> ub + nat list \<times> string" where
  "tokenize_loop len buf argv pos =
     (if length argv \<ge> ARGV_SIZE then Inl Out_of_bounds
      else (let argv' = argv @ [pos]; p = tokenize_scan buf len pos
            in if buf ! p = NUL then Inr (argv', buf)
               else if is_sep (buf ! p)
               then (if p + 1 \<ge> len then Inr (argv', buf[p := NUL])
                     else tokenize_loop len (buf[p := NUL]) argv' (p + 1))
               else tokenize_loop len buf argv' p))"
  by pat_completeness auto
termination
  by (relation "measure (\<lambda>(len, buf, argv, pos). ARGV_SIZE - length argv)") auto

declare tokenize_loop.simps [simp del]

definition tokenize_space :: "string \<Rightarrow> nat \<Rightarrow> ub + nat list \<times> string" where
  "tokenize_space buf len = tokenize_loop len buf [] 0"

text \<open>The C string at an offset of a buffer.\<close>

definition str_at :: "string \<Rightarrow> nat \<Rightarrow> string" where
  "str_at buf off = takeWhile (\<lambda>c. c \<noteq> NUL) (drop off buf)"

text \<open>The call \<open>tokenize_space (cmd, argv, os_strlen (cmd))\<close>: the strings \<open>argv\<close> points to.\<close>

definition tokenize_cmd :: "string \<Rightarrow> ub + string list" where
  "tokenize_cmd cmd =
     (case tokenize_space (cmd @ [NUL]) (length cmd) of
        Inl e \<Rightarrow> Inl e
      | Inr (argv, buf) \<Rightarrow> Inr (map (str_at buf) argv))"

section \<open>Commands that become requests\<close>

text \<open>
  A present \<open>cmd\<close> without a blank makes the second \<open>os_strchr\<close> of
  \<open>p2p_ctrl_iface_set_opps\<close> read through a null pointer. The SSID is only logged.
\<close>

definition p2p_ctrl_iface_set_opps :: "drv_env \<Rightarrow> u32 \<Rightarrow> string \<Rightarrow> tm_log \<Rightarrow> ub + int \<times> tm_log" where
  "p2p_ctrl_iface_set_opps env ifindex cmd log =
     (let CTWin = atoi (long_bits env) cmd in
      case strchr cmd (CHR '' '') of
        None \<Rightarrow> Inl Null_deref
      | Some str \<Rightarrow>
          (case hwaddr_aton env (tl str) of
             None \<Rightarrow> Inr (-1, log)
           | Some addr \<Rightarrow> Inr (0, snd (wpas_p2p_sigma_test_mode env ifindex 107 CTWin log))))"

definition p2p_ctrl_iface_set_power_save :: "drv_env \<Rightarrow> u32 \<Rightarrow> string \<Rightarrow> tm_log \<Rightarrow> int \<times> tm_log" where
  "p2p_ctrl_iface_set_power_save env ifindex cmd log =
     (0, snd (wpas_p2p_sigma_test_mode env ifindex 108 (atoi (long_bits env) cmd) log))"

definition p2p_ctrl_iface_set_sleep :: "drv_env \<Rightarrow> u32 \<Rightarrow> string \<Rightarrow> tm_log \<Rightarrow> int \<times> tm_log" where
  "p2p_ctrl_iface_set_sleep env ifindex cmd log =
     (case hwaddr_aton env cmd of
        None \<Rightarrow> (-1, log)
      | Some addr \<Rightarrow> (0, snd (wpas_p2p_sigma_test_mode env ifindex 106 0 log)))"

definition p2p_ctrl_iface_set_noa :: "drv_env \<Rightarrow> u32 \<Rightarrow> string \<Rightarrow> tm_log \<Rightarrow> ub + int \<times> tm_log" where
  "p2p_ctrl_iface_set_noa env ifindex cmd log =
     (case tokenize_cmd cmd of
        Inl e \<Rightarrow> Inl e
      | Inr argv \<Rightarrow>
          if length argv \<noteq> 4 then Inr (-1, log)
          else (let arg = \<lambda>i. atoi (long_bits env) (argv ! i);
                    (ret, _, log') = send_request env ifindex 1 (P2p_noa 4 0 (arg 1) (arg 2) (arg 3)) log
                in Inr (ret, log')))"

text \<open>Bit 7 of the CT window switches opportunistic power save on.\<close>

definition p2p_ctrl_iface_set_ps :: "drv_env \<Rightarrow> u32 \<Rightarrow> string \<Rightarrow> tm_log \<Rightarrow> ub + int \<times> tm_log" where
  "p2p_ctrl_iface_set_ps env ifindex cmd log =
     (case tokenize_cmd cmd of
        Inl e \<Rightarrow> Inl e
      | Inr argv \<Rightarrow>
          if length argv \<noteq> 4 then Inr (-1, log)
          else (let enable = atoi (long_bits env) (argv ! 2);
                    ctw = atoi (long_bits env) (argv ! 3);
                    ctw' = (if enable \<noteq> 0 then ctw OR BIT 7 else ctw);
                    (ret, _, log') = send_request env ifindex 1 (P2p_sigma 107 ctw') log
                in Inr (ret, log')))"

text \<open>
  \<open>wpas_wfd_data_update\<close> copies the caller's structure field by field into a zeroed request.
  The session information element is copied with the length the caller states, into 192 bytes.
  The length in the header is the size of the caller's structure, not that of the request.
\<close>

definition wfd_params :: "wfd_data \<Rightarrow> wfd_data" where
  "wfd_params d =
     d\<lparr>WfdCoupleSinkAddress := take 6 (WfdCoupleSinkAddress d),
       WfdAssociatedBssid := take 6 (WfdAssociatedBssid d),
       WfdVideoIp := take 4 (WfdVideoIp d), WfdAudioIp := take 4 (WfdAudioIp d),
       WfdSessionInformationIE :=
         copy_over (take (unat (WfdSessionInformationIELen d)) (WfdSessionInformationIE d))
           (replicate 192 0),
       WfdPrimarySinkMac := take 6 (WfdPrimarySinkMac d),
       WfdSecondarySinkMac := take 6 (WfdSecondarySinkMac d),
       WfdLocalIp := take 4 (WfdLocalIp d)\<rparr>"

definition wpas_wfd_data_update :: "drv_env \<Rightarrow> u32 \<Rightarrow> wfd_data \<Rightarrow> tm_log \<Rightarrow> ub + int \<times> tm_log" where
  "wpas_wfd_data_update env ifindex d log =
     (if unat (WfdSessionInformationIELen d) > 192 then Inl Out_of_bounds
      else (let b = Wfd_update (wfd_params d);
                req = \<lparr>req_hdr = mk_hdr 2 (sizeof_wfd_data_s env), req_body = b\<rparr>;
                (ret, _, log') = wpa_driver_nl80211_testmode env ifindex req
                                   (sizeof_request (ptr_size env) b) log
            in Inr (ret, log')))"

section \<open>Capabilities and channels\<close>

record p2p_reg_class =
  rc_reg_class :: u8
  rc_channel :: "u8 list"
  rc_channels :: nat

record p2p_channels =
  reg_classes :: nat
  reg_class :: "p2p_reg_class list"

record p2p_config =
  cfg_op_channel :: u8
  cfg_channels :: p2p_channels
  concurrent_operations :: u8

record p2p_data =
  dev_capab :: u8
  p2p_devices :: "p2p_device list"
  op_reg_class :: u8
  op_channel :: u8
  p2p_chans :: p2p_channels
  p2p_cfg :: "p2p_config option"

text \<open>The result, and the text left in the buffer when the command writes it.\<close>

definition p2p_get_capability :: "p2p_data \<Rightarrow> string \<Rightarrow> nat \<Rightarrow> int \<times> string option" where
  "p2p_get_capability p2p cmd buflen =
     (if strncmp_eq 12 cmd ''p2p_dev_capa''
      then (let (txt, ret) = snprintf buflen (''p2p_dev_capa='' @ fmt_d (uint (dev_capab p2p)) @ nl)
            in (ret, Some txt))
      else if strncmp_eq 14 cmd ''p2p_group_capa'' then (-1, None)
      else (0, None))"

definition p2p_set_capability :: "drv_env \<Rightarrow> string \<Rightarrow> p2p_data \<Rightarrow> int \<times> p2p_data" where
  "p2p_set_capability env cmd p2p =
     (if strncmp_eq 13 cmd ''p2p_dev_capa ''
      then (0, p2p\<lparr>dev_capab := ucast (atoi (long_bits env) (drop 13 cmd) AND 0xff)\<rparr>)
      else if strncmp_eq 15 cmd ''p2p_group_capa '' then (-1, p2p)
      else (0, p2p))"

text \<open>The operating class and channel of a frequency, \<open>None\<close> where the source returns -1.\<close>

definition priv_p2p_freq_to_channel :: "u32 \<Rightarrow> (u8 \<times> u8) option" where
  "priv_p2p_freq_to_channel freq =
     (if freq \<ge> 2412 \<and> freq \<le> 2472 then
        (if (freq - 2407) mod 5 \<noteq> 0 then None else Some (81, ucast ((freq - 2407) div 5)))
      else if freq = 2484 then Some (82, 14)
      else if freq \<ge> 5180 \<and> freq \<le> 5240 then
        (if (freq - 5000) mod 5 \<noteq> 0 then None else Some (115, ucast ((freq - 5000) div 5)))
      else if freq \<ge> 5260 \<and> freq \<le> 5320 then Some (118, ucast ((freq - 5000) div 5))
      else if freq \<ge> 5500 \<and> freq \<le> 5700 then Some (121, ucast ((freq - 5000) div 5))
      else if freq \<ge> 5745 \<and> freq \<le> 5805 then
        (if (freq - 5000) mod 5 \<noteq> 0 then None else Some (124, ucast ((freq - 5000) div 5)))
      else if freq \<ge> 5825 \<and> freq \<le> 5845 then Some (125, ucast ((freq - 5000) div 5))
      else None)"

text \<open>
  \<open>p2p_wfd_sink_config_scc\<close>: \<open>conf_class\<close> and \<open>conf_channel\<close> are the operating class and
  channel of the configuration file, \<open>r\<close> the random number drawn. A frequency that
  \<open>priv_p2p_freq_to_channel\<close> does not know leaves the two zeros in place.
\<close>

definition p2p_wfd_sink_config_scc ::
  "u8 \<Rightarrow> u8 \<Rightarrow> u32 \<Rightarrow> bool \<Rightarrow> u32 \<Rightarrow> p2p_data option \<Rightarrow> ub + p2p_data option" where
  "p2p_wfd_sink_config_scc conf_class conf_channel r scc oper_freq p2p_opt =
     (case p2p_opt of
        None \<Rightarrow> Inr None
      | Some p2p \<Rightarrow>
          if scc \<and> oper_freq \<noteq> 0 then
            (let (cls, ch) = (case priv_p2p_freq_to_channel oper_freq of
                                None \<Rightarrow> (0, 0) | Some cc \<Rightarrow> cc);
                 rc0 = (reg_class (p2p_chans p2p)) ! 0;
                 rc0' = rc0\<lparr>rc_channels := 1, rc_reg_class := cls,
                            rc_channel := (rc_channel rc0)[0 := ch]\<rparr>
             in Inr (Some (p2p\<lparr>op_channel := ch, op_reg_class := cls,
                  p2p_chans := \<lparr>reg_classes = 1,
                                 reg_class = (reg_class (p2p_chans p2p))[0 := rc0']\<rparr>\<rparr>)))
          else
            (case p2p_cfg p2p of
               None \<Rightarrow> Inl Null_deref
             | Some cfg \<Rightarrow>
                 if conf_class \<noteq> 0 \<and> conf_channel \<noteq> 0 then
                   Inr (Some (p2p\<lparr>op_reg_class := conf_class, op_channel := conf_channel,
                     p2p_cfg := Some (cfg\<lparr>cfg_op_channel := 1\<rparr>),
                     p2p_chans := cfg_channels cfg\<rparr>))
                 else
                   Inr (Some (p2p\<lparr>op_reg_class := 81, op_channel := ucast (1 + (r mod 3) * 5),
                     p2p_cfg := Some (cfg\<lparr>cfg_op_channel := 0\<rparr>),
                     p2p_chans := cfg_channels cfg\<rparr>))))"

section \<open>Frequencies in use\<close>

datatype wpas_mode = WPAS_MODE_INFRA | WPAS_MODE_IBSS | WPAS_MODE_AP | WPAS_MODE_P2P_GO
  | WPAS_MODE_P2P_GROUP_FORMATION | WPAS_MODE_MESH

record ssid =
  ssid_mode :: wpas_mode
  ssid_frequency :: u32
  ssid_p2p_group :: bool

record radio_iface =
  ri_current_ssid :: "ssid option"
  ri_assoc_freq :: u32

datatype freq_flag = No_flag | WPA_FREQ_USED_BY_INFRA_STATION | WPA_FREQ_USED_BY_P2P_CLIENT

record used_freq =
  uf_freq :: u32
  uf_flags :: freq_flag

text \<open>\<open>for (i = 0; i < idx; i++) if (freqs_data[i].freq == freq) break;\<close>\<close>

fun find_freq :: "used_freq list \<Rightarrow> u32 \<Rightarrow> nat \<Rightarrow> nat" where
  "find_freq [] f i = i"
| "find_freq (d # ds) f i = (if uf_freq d = f then i else find_freq ds f (Suc i))"

text \<open>The network of an interface and the frequency it uses, when it uses one.\<close>

definition iface_freq :: "(radio_iface \<Rightarrow> bool) \<Rightarrow> radio_iface \<Rightarrow> (ssid \<times> u32) option" where
  "iface_freq has_bssid ifs =
     (case ri_current_ssid ifs of
        None \<Rightarrow> None
      | Some s \<Rightarrow>
          if ri_assoc_freq ifs = 0 then None
          else if ssid_mode s = WPAS_MODE_AP \<or> ssid_mode s = WPAS_MODE_P2P_GO
          then Some (s, ssid_frequency s)
          else if has_bssid ifs then Some (s, ri_assoc_freq ifs) else None)"

text \<open>
  The end of the loop body: the frequency is entered unless it is there already, and the flags of
  its entry are set for an infrastructure network.
\<close>

definition note_freq :: "ssid \<Rightarrow> u32 \<Rightarrow> used_freq list \<Rightarrow> nat \<Rightarrow> used_freq list \<times> nat" where
  "note_freq s freq data idx =
     (let i = find_freq (take idx data) freq 0;
          data1 = (if i = idx then data[idx := (data ! idx)\<lparr>uf_freq := freq\<rparr>] else data);
          data2 = (if ssid_mode s = WPAS_MODE_INFRA
                   then data1[i := (data1 ! i)\<lparr>uf_flags :=
                          (if ssid_p2p_group s then WPA_FREQ_USED_BY_P2P_CLIENT
                           else WPA_FREQ_USED_BY_INFRA_STATION)\<rparr>]
                   else data1)
      in (data2, if i = idx then idx + 1 else idx))"

text \<open>
  The loop over the interfaces of the radio. \<open>data\<close> is the array \<open>freqs_data\<close> of \<open>len\<close> entries
  and \<open>idx\<close> the number of entries in use; \<open>has_bssid\<close> tells whether \<open>wpa_drv_get_bssid\<close>
  returned 0.
\<close>

fun shared_freqs_loop ::
  "(radio_iface \<Rightarrow> bool) \<Rightarrow> nat \<Rightarrow> radio_iface list \<Rightarrow> used_freq list \<Rightarrow> nat \<Rightarrow> nat \<times> used_freq list" where
  "shared_freqs_loop has_bssid len [] data idx = (idx, data)"
| "shared_freqs_loop has_bssid len (ifs # rest) data idx =
     (if idx = len then (idx, data)
      else (case iface_freq has_bssid ifs of
              None \<Rightarrow> shared_freqs_loop has_bssid len rest data idx
            | Some (s, freq) \<Rightarrow>
                (let (data', idx') = note_freq s freq data idx
                 in shared_freqs_loop has_bssid len rest data' idx')))"

definition mtk_get_shared_radio_freqs_data ::
  "(radio_iface \<Rightarrow> bool) \<Rightarrow> radio_iface list \<Rightarrow> nat \<Rightarrow> nat \<times> used_freq list" where
  "mtk_get_shared_radio_freqs_data has_bssid ifaces len =
     shared_freqs_loop has_bssid len ifaces (replicate len \<lparr>uf_freq = 0, uf_flags = No_flag\<rparr>) 0"

text \<open>\<open>calloc_ok\<close> is whether \<open>os_calloc\<close> found the memory.\<close>

definition mtk_get_shared_radio_freqs ::
  "bool \<Rightarrow> (radio_iface \<Rightarrow> bool) \<Rightarrow> radio_iface list \<Rightarrow> nat \<Rightarrow> int \<times> u32 list" where
  "mtk_get_shared_radio_freqs calloc_ok has_bssid ifaces len =
     (if \<not> calloc_ok then (-1, replicate len 0)
      else (let (num, data) = mtk_get_shared_radio_freqs_data has_bssid ifaces len
            in (int num, copy_over (map uf_freq (take num data)) (replicate len 0))))"

section \<open>The tokenizer splits at blanks\<close>

text \<open>The reference: split at every separator; a separator at the very end starts no token.\<close>

function tokens :: "string \<Rightarrow> string list" where
  "tokens s =
     (let w = takeWhile (\<lambda>c. \<not> is_sep c) s; r = dropWhile (\<lambda>c. \<not> is_sep c) s
      in if length r \<le> 1 then [w] else w # tokens (tl r))"
  by pat_completeness auto
termination
proof (relation "measure length")
  fix s :: string and x xa
  assume "xa = dropWhile (\<lambda>c. \<not> is_sep c) s" "\<not> length xa \<le> 1"
  then show "(tl xa, s) \<in> measure length"
    using length_dropWhile_le [of "\<lambda>c. \<not> is_sep c" s] by simp
qed simp

declare tokens.simps [simp del]

lemma tokens_last: "\<forall>c \<in> set w. \<not> is_sep c \<Longrightarrow> tokens w = [w]"
  by (subst tokens.simps) (simp add: Let_def dropWhile_eq_Nil_conv [THEN iffD2] takeWhile_eq_all_conv [THEN iffD2])

lemma tokens_Cons:
  "\<forall>c \<in> set w. \<not> is_sep c \<Longrightarrow> is_sep x \<Longrightarrow> s \<noteq> [] \<Longrightarrow> tokens (w @ x # s) = w # tokens s"
  by (subst tokens.simps) (simp add: takeWhile_append dropWhile_append Let_def takeWhile_eq_all_conv [THEN iffD2] dropWhile_eq_Nil_conv [THEN iffD2])

lemma tokenize_scan_spec:
  assumes "\<forall>c \<in> set w. \<not> is_sep c \<and> c \<noteq> NUL" "r = [] \<or> is_sep (hd r)"
  shows "tokenize_scan (pre @ w @ r @ [NUL]) (length pre + length w + length r) (length pre)
           = length pre + length w"
  using assms
proof (induction w arbitrary: pre)
  case Nil
  then show ?case by (subst tokenize_scan.simps) (cases r; auto simp: nth_append)
next
  case (Cons x w)
  have at: "(pre @ (x # w) @ r @ [NUL]) ! length pre = x" by (simp add: nth_append)
  show ?case
  proof (cases "w = [] \<and> r = []")
    case True
    with Cons.prems at show ?thesis by (subst tokenize_scan.simps) simp
  next
    case False
    then have "\<not> length pre + length (x # w) + length r \<le> length pre + 1"
      by (cases w; cases r) auto
    moreover have "tokenize_scan (pre @ (x # w) @ r @ [NUL]) (length pre + length (x # w) + length r)
        (length pre + 1) = length pre + length (x # w)"
      using Cons.IH [of "pre @ [x]"] Cons.prems by simp
    ultimately show ?thesis using Cons.prems at by (subst tokenize_scan.simps) simp
  qed
qed

lemma str_at_append:
  "NUL \<notin> set w \<Longrightarrow> str_at (pre @ w @ NUL # t) (length pre) = w"
  by (simp add: str_at_def takeWhile_append)

text \<open>One turn of the outer loop on a word \<open>w\<close> followed by \<open>r\<close>.\<close>

lemma tokenize_loop_turn:
  assumes "\<forall>c \<in> set w. \<not> is_sep c" "NUL \<notin> set (w @ r)" "r = [] \<or> is_sep (hd r)"
    and "length argv < ARGV_SIZE"
  shows "tokenize_loop (length pre + length (w @ r)) (pre @ (w @ r) @ [NUL]) argv (length pre) =
     (if length r \<le> 1 then Inr (argv @ [length pre], pre @ w @ NUL # map (\<lambda>_. NUL) r)
      else tokenize_loop (length pre + length (w @ r)) ((pre @ w @ [NUL]) @ tl r @ [NUL])
             (argv @ [length pre]) (Suc (length pre + length w)))"
proof -
  have scan: "tokenize_scan (pre @ (w @ r) @ [NUL]) (length pre + length (w @ r)) (length pre)
      = length pre + length w"
    using tokenize_scan_spec [of w r pre] assms by (auto simp: add.assoc)
  have sep: "is_sep x \<Longrightarrow> x \<noteq> NUL" for x by (auto simp: is_sep_def NUL_def)
  show ?thesis
    using assms(3,4) scan sep
    by (subst tokenize_loop.simps) (cases r; auto simp: Let_def nth_append list_update_append)
qed

definition tokenized :: "string \<Rightarrow> nat list \<Rightarrow> string \<Rightarrow> ub + nat list \<times> string \<Rightarrow> bool" where
  "tokenized pre argv s res \<longleftrightarrow>
     (case res of
        Inl e \<Rightarrow> e = Out_of_bounds \<and> length argv + length (tokens s) > ARGV_SIZE
      | Inr (a, b) \<Rightarrow> length argv + length (tokens s) \<le> ARGV_SIZE \<and>
          (\<exists>offs t. a = argv @ offs \<and> b = pre @ t \<and> map (str_at b) offs = tokens s))"

lemma tokenized_Cons:
  assumes "tokens s = w # tokens s'" "NUL \<notin> set w"
    and "tokenized (pre @ w @ [NUL]) (argv @ [length pre]) s' res"
  shows "tokenized pre argv s res"
  using assms by (auto simp: tokenized_def str_at_append split: sum.splits)

lemma tokenize_loop_spec:
  assumes "NUL \<notin> set s"
  shows "tokenized pre argv s (tokenize_loop (length pre + length s) (pre @ s @ [NUL]) argv (length pre))"
  using assms
proof (induction s arbitrary: pre argv rule: tokens.induct)
  case (1 s)
  define w where "w = takeWhile (\<lambda>c. \<not> is_sep c) s"
  define r where "r = dropWhile (\<lambda>c. \<not> is_sep c) s"
  have s: "s = w @ r" by (simp add: w_def r_def)
  have w: "\<forall>c \<in> set w. \<not> is_sep c" by (auto simp: w_def dest: set_takeWhileD)
  have r: "r = [] \<or> is_sep (hd r)" unfolding r_def using hd_dropWhile by blast
  have nul: "NUL \<notin> set (w @ r)" using 1(2) s by simp
  have tk: "tokens s = (if length r \<le> 1 then [w] else w # tokens (tl r))"
    by (subst tokens.simps) (simp add: Let_def w_def r_def)
  show ?case
  proof (cases "length argv < ARGV_SIZE")
    case False
    then show ?thesis by (subst tokenize_loop.simps) (simp add: tokenized_def tk)
  next
    case True
    note turn = tokenize_loop_turn [OF w nul r True, of pre, folded s]
    show ?thesis
    proof (cases "length r \<le> 1")
      case True
      with turn tk nul \<open>length argv < ARGV_SIZE\<close> show ?thesis
        by (simp add: tokenized_def str_at_append)
    next
      case False
      have len: "length pre + length s = length (pre @ w @ [NUL]) + length (tl r)"
        using False by (cases r) (auto simp: s)
      have "NUL \<notin> set (tl r)" using nul by (cases r) auto
      from 1(1) [OF w_def r_def False this, where pre = "pre @ w @ [NUL]" and argv = "argv @ [length pre]"]
      show ?thesis
        using turn tk nul False len by (intro tokenized_Cons [of s w "tl r"]) auto
    qed
  qed
qed

lemma tokenize_cmd_tokens:
  assumes "NUL \<notin> set cmd"
  shows "tokenize_cmd cmd = (if length (tokens cmd) \<le> ARGV_SIZE then Inr (tokens cmd) else Inl Out_of_bounds)"
  using tokenize_loop_spec [OF assms, of "[]" "[]"]
  by (auto simp: tokenize_cmd_def tokenize_space_def tokenized_def split: sum.splits)

text \<open>
  C18: on every command without an embedded NUL, the in-place tokenizer produces exactly the words
  of the reference splitter, and it leaves the bounds of the caller's \<open>argv\<close> exactly when there
  are more than 64 of them.
\<close>

theorem tokenize_space_splits:
  assumes "NUL \<notin> set cmd"
  shows "tokenize_cmd cmd =
    (if length (tokens cmd) \<le> ARGV_SIZE then Inr (tokens cmd) else Inl Out_of_bounds)"
  using assms by (rule tokenize_cmd_tokens)

lemma tokens_set_noa: "tokens ''P2P_SET_NOA 255 100 3'' = [''P2P_SET_NOA'', ''255'', ''100'', ''3'']"
  by (simp add: tokens.simps is_sep_def)

theorem tokenize_space_splits_witness:
  "tokenize_cmd ''P2P_SET_NOA 255 100 3'' =
    (if length (tokens ''P2P_SET_NOA 255 100 3'') \<le> ARGV_SIZE
     then Inr (tokens ''P2P_SET_NOA 255 100 3'') else Inl Out_of_bounds)
   \<and> tokens ''P2P_SET_NOA 255 100 3'' = [''P2P_SET_NOA'', ''255'', ''100'', ''3'']"
  using tokenize_space_splits [of "''P2P_SET_NOA 255 100 3''"]
  by (simp add: NUL_def tokens_set_noa)

section \<open>Requests built from text\<close>

lemma sigma_sends: "sends_wf env log (snd (wpas_p2p_sigma_test_mode env ifindex i v log))"
  by (cases "wpas_p2p_sigma_test_mode env ifindex i v log") (auto dest: sigma.sends)

interpretation opps: fallible_sender env "p2p_ctrl_iface_set_opps env ifindex cmd"
  for env ifindex cmd
  by unfold_locales
     (auto simp: p2p_ctrl_iface_set_opps_def sigma_sends Let_def split: option.splits)

interpretation psave: testmode_sender env "p2p_ctrl_iface_set_power_save env ifindex cmd"
  for env ifindex cmd
  by unfold_locales (auto simp: p2p_ctrl_iface_set_power_save_def sigma_sends)

interpretation sleep: testmode_sender env "p2p_ctrl_iface_set_sleep env ifindex cmd"
  for env ifindex cmd
  by unfold_locales (auto simp: p2p_ctrl_iface_set_sleep_def sigma_sends split: option.splits)

interpretation noa: fallible_sender env "p2p_ctrl_iface_set_noa env ifindex cmd"
  for env ifindex cmd
  by unfold_locales
     (auto simp: p2p_ctrl_iface_set_noa_def Let_def split: sum.splits prod.splits if_splits
       intro: send_request_sends_wf)

interpretation ps: fallible_sender env "p2p_ctrl_iface_set_ps env ifindex cmd"
  for env ifindex cmd
  by unfold_locales
     (auto simp: p2p_ctrl_iface_set_ps_def Let_def split: sum.splits prod.splits if_splits
       intro: send_request_sends_wf)

interpretation wfd: fallible_sender env "wpas_wfd_data_update env ifindex d"
  for env ifindex d
  by unfold_locales
     (auto simp: wpas_wfd_data_update_def wpa_driver_nl80211_testmode_def wf_message_def
       sends_wf_append mk_hdr_version testmode_handler_mk_hdr Let_def
       split: prod.splits if_splits)

lemma fmt_d_no_sep: "\<forall>c \<in> set (fmt_d i). \<not> is_sep c \<and> c \<noteq> NUL"
proof
  fix c assume "c \<in> set (fmt_d i)"
  then consider "c = CHR ''-''" | d where "d < 10" "c = digit_char d" using fmt_d_chars by blast
  then show "\<not> is_sep c \<and> c \<noteq> NUL"
  proof cases
    case 2
    then have "chr_code c = d + 48" by (simp add: chr_code_digit_char)
    then show ?thesis by (auto simp: is_sep_def NUL_def chr_code_def)
  qed (simp add: is_sep_def NUL_def)
qed

text \<open>A command word followed by three printed numbers.\<close>

definition cmd3 :: "string \<Rightarrow> int \<Rightarrow> int \<Rightarrow> int \<Rightarrow> string" where
  "cmd3 name a b c = name @ '' '' @ fmt_d a @ '' '' @ fmt_d b @ '' '' @ fmt_d c"

lemma tokens_cmd3:
  assumes "\<forall>x \<in> set name. \<not> is_sep x \<and> x \<noteq> NUL"
  shows "tokenize_cmd (cmd3 name a b c) = Inr [name, fmt_d a, fmt_d b, fmt_d c]"
proof -
  have sep: "is_sep (CHR '' '')" by (simp add: is_sep_def)
  have "tokens (cmd3 name a b c) = [name, fmt_d a, fmt_d b, fmt_d c]"
    using assms fmt_d_no_sep sep by (simp add: cmd3_def tokens_Cons tokens_last fmt_d_nonempty)
  moreover have "NUL \<notin> set (cmd3 name a b c)"
    using assms fmt_d_no_sep by (auto simp: cmd3_def) (auto simp: NUL_def)
  ultimately show ?thesis by (simp add: tokenize_cmd_tokens ARGV_SIZE_def)
qed

definition int_range :: "int \<Rightarrow> bool" where
  "int_range i \<longleftrightarrow> - (2 ^ 31) \<le> i \<and> i < 2 ^ 31"

lemma atoi_fmt_d_alone: "32 \<le> lw \<Longrightarrow> int_range i \<Longrightarrow> atoi lw (fmt_d i) = word_of_int i"
  using atoi_fmt_d [of lw i "[]"] by (simp add: int_range_def has_digit_def)

lemma set_noa_printed:
  assumes "32 \<le> long_bits env" "int_range count" "int_range start" "int_range dur"
  shows "p2p_ctrl_iface_set_noa env ifindex (cmd3 ''P2P_SET_NOA'' count start dur) log =
    Inr (let (ret, _, log') = send_request env ifindex 1
           (P2p_noa 4 0 (word_of_int count) (word_of_int start) (word_of_int dur)) log
         in (ret, log'))"
proof -
  have "tokenize_cmd (cmd3 ''P2P_SET_NOA'' count start dur)
      = Inr [''P2P_SET_NOA'', fmt_d count, fmt_d start, fmt_d dur]"
    by (rule tokens_cmd3) (simp add: is_sep_def NUL_def)
  then show ?thesis
    using assms by (simp add: p2p_ctrl_iface_set_noa_def atoi_fmt_d_alone Let_def split: prod.splits)
qed

lemma set_ps_printed:
  assumes "32 \<le> long_bits env" "int_range legacy_ps" "int_range opp_ps" "int_range ctwindow"
  shows "p2p_ctrl_iface_set_ps env ifindex (cmd3 ''P2P_SET_PS'' legacy_ps opp_ps ctwindow) log =
    Inr (let (ret, _, log') = send_request env ifindex 1
           (P2p_sigma 107 (word_of_int ctwindow OR (if opp_ps \<noteq> 0 then BIT 7 else 0))) log
         in (ret, log'))"
proof -
  have "tokenize_cmd (cmd3 ''P2P_SET_PS'' legacy_ps opp_ps ctwindow)
      = Inr [''P2P_SET_PS'', fmt_d legacy_ps, fmt_d opp_ps, fmt_d ctwindow]"
    by (rule tokens_cmd3) (simp add: is_sep_def NUL_def)
  moreover have "(word_of_int opp_ps :: u32) = 0 \<longleftrightarrow> opp_ps = 0"
    using assms(3) by (auto simp: int_range_def word_of_int_eq_0_iff dvd_def)
  ultimately show ?thesis
    using assms by (simp add: p2p_ctrl_iface_set_ps_def atoi_fmt_d_alone Let_def split: prod.splits)
qed

section \<open>Capabilities\<close>

lemma set_capability_printed:
  assumes "32 \<le> long_bits env" "int_range n"
  shows "p2p_set_capability env (''p2p_dev_capa '' @ fmt_d n) p2p = (0, p2p\<lparr>dev_capab := word_of_int n\<rparr>)"
proof -
  have ff: "(0xff :: u32) = mask 8" by (simp add: mask_eq_exp_minus_1)
  have "ucast (word_of_int n AND 0xff :: u32) = (word_of_int n :: u8)"
    unfolding ff by (rule bit_eqI) (auto simp: bit_simps)
  then show ?thesis
    using assms by (simp add: p2p_set_capability_def strncmp_eq_def atoi_fmt_d_alone)
qed

text \<open>
  A device capability set as the number \<open>n\<close> is read back as \<open>n\<close> modulo 256, as the line
  \<open>p2p_dev_capa=<n mod 256>\<close>, when the caller's buffer has room for it.
\<close>

lemma capability_roundtrip:
  assumes "32 \<le> long_bits env" "int_range n" "20 \<le> buflen"
  shows "p2p_get_capability (snd (p2p_set_capability env (''p2p_dev_capa '' @ fmt_d n) p2p)) ''p2p_dev_capa'' buflen
      = (int (length (''p2p_dev_capa='' @ fmt_d (n mod 256) @ nl)),
         Some (''p2p_dev_capa='' @ fmt_d (n mod 256) @ nl))"
proof -
  have u: "uint (word_of_int n :: u8) = n mod 256" by (simp add: uint_word_of_int)
  have "length (dec_digits k) \<le> 3" if "k < 256" for k
    using that by (subst dec_digits.simps, subst dec_digits.simps, subst dec_digits.simps) auto
  from this [of "nat (n mod 256)"] have "length (fmt_d (n mod 256)) \<le> 3" 
    using pos_mod_sign [of 256 n] by (simp add: fmt_d_def nat_less_iff del: pos_mod_sign)
  then show ?thesis
    unfolding set_capability_printed [OF assms(1,2)]
    using assms(3) by (simp add: p2p_get_capability_def strncmp_eq_def snprintf_def u nl_def)
qed

section \<open>Channels\<close>


lemma unat_ucast_u8: "unat (w :: u32) < 256 \<Longrightarrow> unat (ucast w :: u8) = unat w"
  by (simp add: unsigned_ucast_eq take_bit_nat_eq_self)

lemma unat_channel:
  assumes "base \<le> (freq :: u32)" "unat freq < unat base + 1280"
  shows "unat (ucast ((freq - base) div 5) :: u8) = (unat freq - unat base) div 5"
    and "unat ((freq - base) mod 5) = (unat freq - unat base) mod 5"
proof -
  have d: "unat ((freq - base) div 5) = (unat freq - unat base) div 5"
    using assms(1) by (simp add: unat_div unat_sub)
  then have "unat ((freq - base) div 5) < 256" using assms(2) by (simp add: div_less_iff_less_mult)
  then show "unat (ucast ((freq - base) div 5) :: u8) = (unat freq - unat base) div 5"
    by (simp add: unat_ucast_u8 d)
  show "unat ((freq - base) mod 5) = (unat freq - unat base) mod 5"
    using assms(1) by (simp add: unat_mod_distrib unat_sub)
qed

text \<open>The channels of an operating class, and the centre frequency of each.\<close>

definition class_channels :: "u8 \<Rightarrow> nat \<Rightarrow> bool" where
  "class_channels c ch \<longleftrightarrow>
     (if c = 81 then 1 \<le> ch \<and> ch \<le> 13 else if c = 82 then ch = 14
      else if c = 115 then 36 \<le> ch \<and> ch \<le> 48 else if c = 118 then 52 \<le> ch \<and> ch \<le> 64
      else if c = 121 then 100 \<le> ch \<and> ch \<le> 140 else if c = 124 then 149 \<le> ch \<and> ch \<le> 161
      else c = 125 \<and> 165 \<le> ch \<and> ch \<le> 169)"

definition class_freq :: "u8 \<Rightarrow> nat \<Rightarrow> nat" where
  "class_freq c ch = (if c = 82 then 2484 else (if c = 81 then 2407 else 5000) + 5 * ch)"

text \<open>
  C36: \<open>priv_p2p_freq_to_channel\<close> only ever returns a channel of the class it returns, and the
  frequency lies in that channel's 5 MHz cell; in the classes 81, 82, 115 and 124 it is exactly
  the channel's centre frequency.
\<close>

theorem freq_to_channel_sound:
  assumes "priv_p2p_freq_to_channel freq = Some (c, ch)"
  shows "class_channels c (unat ch) \<and>
         class_freq c (unat ch) \<le> unat freq \<and> unat freq < class_freq c (unat ch) + 5 \<and>
         (c \<in> {81, 82, 115, 124} \<longrightarrow> unat freq = class_freq c (unat ch))"
proof -
  have 2: "unat (ucast ((freq - 2407) div 5) :: u8) = (unat freq - 2407) div 5
      \<and> unat ((freq - 2407) mod 5) = (unat freq - 2407) mod 5"
    if "2412 \<le> freq" "freq \<le> 2472"
    using that unat_channel [of 2407 freq] by (simp add: word_le_nat_alt)
  have 5: "unat (ucast ((freq - 5000) div 5) :: u8) = (unat freq - 5000) div 5
      \<and> unat ((freq - 5000) mod 5) = (unat freq - 5000) mod 5"
    if "5180 \<le> freq" "freq \<le> 5845"
    using that unat_channel [of 5000 freq] by (simp add: word_le_nat_alt)
  show ?thesis
    using assms 2 5
    by (auto simp: priv_p2p_freq_to_channel_def class_channels_def class_freq_def word_le_nat_alt
        unat_eq_0 [symmetric] split: if_splits)
qed

lemma freq_eval:
  "class_channels c ch \<Longrightarrow> class_freq c ch < 2 ^ 32"
  by (auto simp: class_channels_def class_freq_def split: if_splits)

text \<open>
  Every channel of a class is reached from its centre frequency:
  \<open>priv_p2p_freq_to_channel\<close> inverts the channel-to-frequency map of the operating classes.
\<close>

lemma freq_to_channel_nominal:
  assumes "class_channels c ch"
  shows "priv_p2p_freq_to_channel (word_of_nat (class_freq c ch)) = Some (c, word_of_nat ch)"
proof -
  define freq :: u32 where "freq = word_of_nat (class_freq c ch)"
  have uf: "unat freq = class_freq c ch"
    unfolding freq_def using freq_eval [OF assms] by (simp add: unat_of_nat)
  have ch: "ch < 256" using assms by (auto simp: class_channels_def split: if_splits)
  have u8: "x = word_of_nat ch" if "unat x = ch" for x :: u8 using that by auto
  have 2: "(freq - 2407) mod 5 = 0 \<and> ucast ((freq - 2407) div 5) = (word_of_nat ch :: u8)" if "c = 81"
    using that assms unat_channel [of 2407 freq] uf
    by (auto simp: class_channels_def class_freq_def word_le_nat_alt unat_eq_0 [symmetric] intro!: u8)
  have 5: "(freq - 5000) mod 5 = 0 \<and> ucast ((freq - 5000) div 5) = (word_of_nat ch :: u8)" if "c \<noteq> 81" "c \<noteq> 82"
    using that assms unat_channel [of 5000 freq] uf
    by (auto simp: class_channels_def class_freq_def word_le_nat_alt unat_eq_0 [symmetric] intro!: u8 split: if_splits)
  show ?thesis
    unfolding freq_def [symmetric] using assms 2 5 uf
    by (auto simp: priv_p2p_freq_to_channel_def class_channels_def class_freq_def word_le_nat_alt word_unat_eq_iff [of freq]
        split: if_splits)
qed

text \<open>
  Between the centre frequencies of the classes 118, 121 and 125 the converter has no check and
  rounds down, unlike in the other classes.
\<close>

lemma freq_to_channel_off_raster:
  "priv_p2p_freq_to_channel 5263 = Some (118, 52)" "priv_p2p_freq_to_channel 5183 = None"
  by (simp_all add: priv_p2p_freq_to_channel_def)

theorem freq_to_channel_sound_witness:
  "class_channels 115 36 \<and> unat (5180 :: u32) = class_freq 115 36"
  using freq_to_channel_sound [of 5180 115 36] by (simp add: priv_p2p_freq_to_channel_def)

section \<open>The operating channel\<close>

lemma social_channel: "(ucast (1 + (r mod 3) * 5 :: u32) :: u8) \<in> {1, 6, 11}"
proof -
  have "unat (r mod 3) < 3" using word_mod_less_divisor [of 3 r] by (simp add: word_less_nat_alt)
  then consider "unat (r mod 3) = 0" | "unat (r mod 3) = 1" | "unat (r mod 3) = 2" by linarith
  then show ?thesis
  proof cases
    case 1 then have "r mod 3 = 0" by (simp only: unat_eq_0)
    then show ?thesis by (simp only:) simp
  next
    case 2 then have "r mod 3 = 1" by (simp only: word_unat_eq_iff unat_1)
    then show ?thesis by (simp only:) simp
  next
    case 3 then have "r mod 3 = 2" by (simp only: word_unat_eq_iff) simp
    then show ?thesis by (simp only:) simp
  qed
qed

text \<open>
  Back in multi-channel mode without a configured channel, \<open>p2p_wfd_sink_config_scc\<close> picks
  one of the three non-overlapping 2.4 GHz channels in class 81, whatever the random number, and
  restores the configured channel list.
\<close>

lemma config_mcc_social_channel:
  assumes "p2p_wfd_sink_config_scc cls ch r scc freq (Some p2p) = Inr (Some p2p')"
    and "\<not> (scc \<and> freq \<noteq> 0)" and "cls = 0 \<or> ch = 0"
  shows "op_reg_class p2p' = 81 \<and> op_channel p2p' \<in> {1, 6, 11} \<and>
         (\<exists>cfg. p2p_cfg p2p = Some cfg \<and> p2p_chans p2p' = cfg_channels cfg)"
proof -
  have "(ucast (1 + (r mod 3) * 5) :: u8) \<in> {1, 6, 11}" by (rule social_channel)
  then show ?thesis
    using assms by (auto simp: p2p_wfd_sink_config_scc_def split: option.splits if_splits)
qed

definition sample_chans :: p2p_channels where
  "sample_chans = \<lparr>reg_classes = 1,
     reg_class = [\<lparr>rc_reg_class = 81, rc_channel = [1, 6, 11], rc_channels = 3\<rparr>]\<rparr>"

definition sample_p2p :: p2p_data where
  "sample_p2p = \<lparr>dev_capab = 0x25, p2p_devices = [], op_reg_class = 115, op_channel = 40,
     p2p_chans = \<lparr>reg_classes = 0, reg_class = []\<rparr>,
     p2p_cfg = Some \<lparr>cfg_op_channel = 1,
       cfg_channels = sample_chans,
       concurrent_operations = 0\<rparr>\<rparr>"

text \<open>
  In single-channel mode the result of \<open>priv_p2p_freq_to_channel\<close> is not looked at: a frequency
  it does not know, such as that of channel 144, leaves class 0 and channel 0 as the only
  operating channel.
\<close>

lemma config_scc_unknown_freq:
  "p2p_wfd_sink_config_scc cls ch r True 5720 (Some sample_p2p) =
     Inr (Some (sample_p2p\<lparr>op_channel := 0, op_reg_class := 0,
       p2p_chans := \<lparr>reg_classes = 1, reg_class = []\<rparr>\<rparr>))"
  by (simp add: p2p_wfd_sink_config_scc_def priv_p2p_freq_to_channel_def sample_p2p_def)

section \<open>Frequencies in use\<close>

lemma find_freq_spec:
  "find_freq ds f i = i + length (takeWhile (\<lambda>d. uf_freq d \<noteq> f) ds)"
  by (induction ds arbitrary: i) auto

lemma find_freq_new: "find_freq ds f 0 = length ds \<longleftrightarrow> f \<notin> uf_freq ` set ds"
  by (induction ds) (auto simp: find_freq_spec)

lemma find_freq_le: "find_freq ds f 0 \<le> length ds"
  by (simp add: find_freq_spec length_takeWhile_le)

text \<open>The elements of a list in the order of their first occurrence.\<close>

fun first_distinct :: "'a list \<Rightarrow> 'a list" where
  "first_distinct [] = []"
| "first_distinct (x # xs) = x # filter (\<lambda>y. y \<noteq> x) (first_distinct xs)"

lemma set_first_distinct [simp]: "set (first_distinct xs) = set xs"
  by (induction xs) auto

lemma distinct_first_distinct [simp]: "distinct (first_distinct xs)"
  by (induction xs) auto

lemma map_uf_freq_flags:
  "map uf_freq (ds[i := (ds ! i)\<lparr>uf_flags := x\<rparr>]) = map uf_freq ds"
  by (cases "i < length ds") (simp_all add: map_update list_update_same_conv list_update_beyond)

lemma take_freqs_new:
  "idx < length ds \<Longrightarrow>
   map uf_freq (take (Suc idx) (ds[idx := (ds ! idx)\<lparr>uf_freq := f\<rparr>])) = map uf_freq (take idx ds) @ [f]"
  by (simp add: take_Suc_conv_app_nth)

lemma note_freq_spec:
  assumes "note_freq s freq data idx = (data', idx')" "idx < length data"
    and "A = map uf_freq (take idx data)"
  shows "length data' = length data" "idx' \<le> length data"
    and "map uf_freq (take idx' data') = (if freq \<in> set A then A else A @ [freq])"
proof -
  define i where "i = find_freq (take idx data) freq 0"
  define data1 where "data1 = (if i = idx then data[idx := (data ! idx)\<lparr>uf_freq := freq\<rparr>] else data)"
  have new: "i = idx \<longleftrightarrow> freq \<notin> set A"
    using find_freq_new [of "take idx data" freq] assms by (auto simp: i_def)
  have "map uf_freq data' = map uf_freq data1" and idx': "idx' = (if i = idx then idx + 1 else idx)"
    using assms(1) unfolding note_freq_def Let_def i_def [symmetric] data1_def [symmetric]
    by (auto simp: map_uf_freq_flags)
  then have "map uf_freq (take idx' data') = map uf_freq (take idx' data1)"
    by (metis take_map)
  then show "map uf_freq (take idx' data') = (if freq \<in> set A then A else A @ [freq])"
    using assms new idx' by (auto simp: data1_def take_freqs_new)
  show "length data' = length data" "idx' \<le> length data"
    using assms by (auto simp: note_freq_def Let_def)
qed

definition used_freqs :: "(radio_iface \<Rightarrow> bool) \<Rightarrow> radio_iface list \<Rightarrow> u32 list" where
  "used_freqs hb ifs = first_distinct (map snd (List.map_filter (iface_freq hb) ifs))"

lemma used_freqs_simps:
  "used_freqs hb [] = []"
  "used_freqs hb (i # ifs) =
     (case iface_freq hb i of None \<Rightarrow> used_freqs hb ifs
      | Some (s, f) \<Rightarrow> f # filter (\<lambda>y. y \<noteq> f) (used_freqs hb ifs))"
  by (simp_all add: used_freqs_def List.map_filter_def split: option.splits)

lemma append_known:
  "A @ filter (\<lambda>f. f \<notin> set A) (x # filter (\<lambda>y. y \<noteq> x) xs) =
   (let B = (if x \<in> set A then A else A @ [x]) in B @ filter (\<lambda>f. f \<notin> set B) xs)"
  by (auto simp: Let_def intro!: filter_cong)

lemma shared_freqs_loop_spec:
  assumes "shared_freqs_loop hb len ifs data idx = (n, d)" "length data = len" "idx \<le> len"
    and "A = map uf_freq (take idx data)"
  shows "length d = len \<and> n \<le> len \<and>
         map uf_freq (take n d) = take len (A @ filter (\<lambda>f. f \<notin> set A) (used_freqs hb ifs))"
  using assms
proof (induction ifs arbitrary: data idx A)
  case Nil
  then show ?case by (simp add: used_freqs_simps)
next
  case (Cons ifs rest)
  consider "idx = len" | "idx \<noteq> len" "iface_freq hb ifs = None"
    | s freq where "idx \<noteq> len" "iface_freq hb ifs = Some (s, freq)" by fastforce
  then show ?case
  proof cases
    case 1
    with Cons.prems show ?thesis by auto
  next
    case 2
    with Cons show ?thesis by (simp add: used_freqs_simps)
  next
    case 3
    obtain data' idx' where nf: "note_freq s freq data idx = (data', idx')" by fastforce
    have "idx < length data" using Cons.prems 3 by simp
    note spec = note_freq_spec [OF nf this Cons.prems(4)]
    have "shared_freqs_loop hb len rest data' idx' = (n, d)"
      using Cons.prems(1) 3 nf by simp
    from Cons.IH [OF this _ _ spec(3) [symmetric]] spec(1,2) Cons.prems(2) show ?thesis
      by (simp only: used_freqs_simps 3 option.case prod.case append_known Let_def)
  qed
qed

text \<open>
  C29: \<open>mtk_get_shared_radio_freqs\<close> returns the first \<open>len\<close> distinct frequencies in use on the
  radio, in the order of the interfaces, pads the rest of the array with zeros, and returns how
  many there are.
\<close>

theorem shared_radio_freqs_distinct:
  "mtk_get_shared_radio_freqs True hb ifaces len =
     (let fs = take len (used_freqs hb ifaces) in (int (length fs), fs @ replicate (len - length fs) 0))
   \<and> distinct (used_freqs hb ifaces)"
proof -
  obtain n d where nd: "mtk_get_shared_radio_freqs_data hb ifaces len = (n, d)" by fastforce
  then have "length d = len \<and> n \<le> len \<and> map uf_freq (take n d) = take len (used_freqs hb ifaces)"
    using shared_freqs_loop_spec [of hb len ifaces _ 0 n d]
    by (auto simp: mtk_get_shared_radio_freqs_data_def)
  moreover from this have "n = length (take len (used_freqs hb ifaces))"
    by (metis length_map length_take min.absorb2)
  ultimately show ?thesis
    using nd by (simp add: mtk_get_shared_radio_freqs_def copy_over_def Let_def used_freqs_def)
qed

end
