(* ===== verification/Driver_Cmd.thy ===== *)
theory Driver_Cmd
  imports P2p_Params
begin

text \<open>
  \<open>wpa_driver_nl80211_driver_cmd\<close>, the handler of the supplicant's \<open>DRIVER\<close> commands: an
  \<open>else if\<close> chain over the command text, one definition per branch, and the private ioctl that
  ends the commands the chain does not settle. The wrappers \<open>wpa_driver_set_p2p_noa\<close> and
  \<open>wpa_driver_set_p2p_ps\<close> print a command and call the handler.

  The state \<open>drv_state\<close> holds what the handler reads and writes of the driver, supplicant and P2P
  contexts, the log of testmode messages and the list of the other visible effects. Outside calls
  are fields of \<open>cmd_env\<close> and may depend on the effects so far.
\<close>

section \<open>State and environment\<close>

datatype drv_effect =
    Country_ioctl string string
  | Iface_flags string bool
  | Deauthenticate mac
  | Driver_state string
  | Channel_list_changed nat string
  | Priv_ioctl (priv_ifname: string) (priv_buf: string) (priv_used_len: nat) (priv_total_len: nat)

record global_iface =
  num_multichan_concurrent :: nat
  drv_flags :: u64

record drv_state =
  drv_null :: bool
  ctx_null :: bool
  conf_null :: bool
  drv_priv_null :: bool
  bss_ifname :: string
  first_ifname :: string
  drv_ifindex :: u32
  own_addr :: mac
  wpa_bssid :: mac
  current_infra :: "bool option"
  conf_reg_class :: u8
  conf_channel :: u8
  global_ifaces :: "global_iface list"
  radio_ifaces :: "radio_iface list"
  p2p_ctx :: "p2p_data option"
  associated :: bool
  assoc_bssid :: mac
  drv_errors :: nat
  tmlog :: tm_log
  effects :: "drv_effect list"

record cmd_env =
  tm_env :: drv_env
  MTK_TC1_FEATURE :: bool
  MAX_DRV_CMD_SIZE :: nat
  DRV_NUMBER_SEQUENTIAL_ERRORS :: nat
  WPA_DRIVER_FLAGS_P2P_CONCURRENT :: u64
  socket_ok :: "drv_effect list \<Rightarrow> bool"
  ioctl_ret :: "drv_effect list \<Rightarrow> drv_effect \<Rightarrow> int"
  linux_set_iface_flags :: "drv_effect list \<Rightarrow> string \<Rightarrow> bool \<Rightarrow> int"
  os_get_random :: "drv_effect list \<Rightarrow> u32"
  os_calloc_ok :: "drv_effect list \<Rightarrow> bool"
  get_bssid_ok :: "radio_iface \<Rightarrow> bool"

text \<open>
  The caller's buffer as the handler reads it: as text, and under the three structure types that
  three of the branches cast it to.
\<close>

record wapi_key_param =
  wkp_addr :: "mac option"
  wkp_key_idx :: s32
  wkp_set_tx :: bool
  wkp_seq :: "u8 list option"
  wkp_seq_len :: nat
  wkp_key :: "u8 list option"
  wkp_key_len :: nat

record cmd_buf =
  buf_text :: string
  buf_wapi_key :: wapi_key_param
  buf_wapi_msg_len :: int
  buf_wfd :: wfd_data

text \<open>
  How a branch ends: with a result, the text it wrote to the buffer and the state, or with
  \<open>handled\<close> reset to 0 and the command (which one branch rewrites) left for the private ioctl.
\<close>

datatype outcome =
    Handled int "string option" (oc_state: drv_state)
  | Not_handled string (oc_state: drv_state)

definition PRIV_CMD_SIZE :: nat where "PRIV_CMD_SIZE = 512"
definition IFNAMSIZ :: nat where "IFNAMSIZ = 16"

text \<open>
  \<open>wpa_s\<close> is only assigned when the interface is not \<open>ap0\<close>; a branch that uses it there reads an
  uninitialised pointer.
\<close>

definition wpa_s_init :: "drv_state \<Rightarrow> bool" where
  "wpa_s_init st \<longleftrightarrow> bss_ifname st \<noteq> ''ap0''"

definition with_wpa_s :: "drv_state \<Rightarrow> ub + 'a \<Rightarrow> ub + 'a" where
  "with_wpa_s st r = (if wpa_s_init st then r else Inl Uninit_read)"

definition add_effect :: "drv_effect \<Rightarrow> drv_state \<Rightarrow> drv_state" where
  "add_effect e st = st\<lparr>effects := effects st @ [e]\<rparr>"

text \<open>A sender's result and log put back into the state.\<close>

definition tm_done :: "drv_state \<Rightarrow> ub + int \<times> tm_log \<Rightarrow> ub + outcome" where
  "tm_done st r =
     (case r of
        Inl e \<Rightarrow> Inl e
      | Inr (ret, log') \<Rightarrow> Inr (Handled ret None (st\<lparr>tmlog := log'\<rparr>)))"

section \<open>Branches\<close>

definition wpa_driver_send_hang_msg :: "cmd_env \<Rightarrow> drv_state \<Rightarrow> drv_state" where
  "wpa_driver_send_hang_msg env st =
     (let n = drv_errors st + 1
      in st\<lparr>drv_errors := (if n > DRV_NUMBER_SEQUENTIAL_ERRORS env then 0 else n)\<rparr>)"

definition wpa_driver_mediatek_set_country :: "cmd_env \<Rightarrow> string \<Rightarrow> drv_state \<Rightarrow> int \<times> drv_state" where
  "wpa_driver_mediatek_set_country env alpha2_arg st =
     (if \<not> socket_ok env (effects st) then (-1, st)
      else (let name = (if MTK_TC1_FEATURE env \<and> strncmp_eq 4 (first_ifname st) ''p2p0''
                        then ''wlan0'' else first_ifname st);
                buf = fst (snprintf 11 (''COUNTRY '' @ alpha2_arg));
                e = Country_ioctl (take (IFNAMSIZ - 1) name) buf;
                ret = ioctl_ret env (effects st) e
            in (if ret < 0 then ret else 0, add_effect e st)))"

text \<open>The event carries the two letters when the command is long enough; all interfaces get it.\<close>

definition wpa_driver_notify_country_change :: "string \<Rightarrow> drv_state \<Rightarrow> drv_state" where
  "wpa_driver_notify_country_change cmd st =
     (if strncasecmp_eq 7 cmd ''COUNTRY'' then
        (let alpha2 = (if length cmd > 9 then [cmd ! 8, cmd ! 9] else [NUL, NUL])
         in st\<lparr>effects := effects st @
                 map (\<lambda>i. Channel_list_changed i alpha2) [0..<length (global_ifaces st)]\<rparr>)
      else st)"

definition cmd_powermode :: "drv_state \<Rightarrow> ub + outcome" where
  "cmd_powermode st = Inr (Handled (-1) None st)"

definition cmd_get_sta_statistics :: "cmd_env \<Rightarrow> string \<Rightarrow> nat \<Rightarrow> drv_state \<Rightarrow> ub + outcome" where
  "cmd_get_sta_statistics env arg buf_len st =
     with_wpa_s st
       (let (ret, txt, log') = wpa_driver_get_sta_statistics (tm_env env) (drv_ifindex st)
              (map_option p2p_devices (p2p_ctx st)) (current_infra st) (wpa_bssid st) arg buf_len
              (tmlog st)
        in Inr (Handled ret txt (st\<lparr>tmlog := log'\<rparr>)))"

definition cmd_macaddr :: "nat \<Rightarrow> drv_state \<Rightarrow> ub + outcome" where
  "cmd_macaddr buf_len st =
     with_wpa_s st
       (let (txt, ret) = snprintf buf_len (''Macaddr = '' @ fmt_mac (own_addr st) @ nl)
        in Inr (Handled ret (Some txt) st))"

definition cmd_country :: "cmd_env \<Rightarrow> string \<Rightarrow> drv_state \<Rightarrow> ub + outcome" where
  "cmd_country env cmd st =
     (if length cmd \<noteq> 7 + 3 then Inr (Handled 0 None st)
      else (let (ret, st1) = wpa_driver_mediatek_set_country env (drop 8 cmd) st
            in if ret = 0
               then with_wpa_s st1 (Inr (Handled 0 None (wpa_driver_notify_country_change cmd st1)))
               else Inr (Handled ret None st1)))"

definition cmd_start :: "cmd_env \<Rightarrow> drv_state \<Rightarrow> ub + outcome" where
  "cmd_start env st =
     (let ret = linux_set_iface_flags env (effects st) (first_ifname st) True;
          st1 = add_effect (Iface_flags (first_ifname st) True) st
      in Inr (Handled ret None
           (if ret \<noteq> 0 then st1 else add_effect (Driver_state ''CTRL-EVENT-DRIVER-STATE STARTED'') st1)))"

definition cmd_stop :: "cmd_env \<Rightarrow> drv_state \<Rightarrow> ub + outcome" where
  "cmd_stop env st =
     (let r = (if associated st
               then with_wpa_s st (Inr (add_effect (Deauthenticate (assoc_bssid st)) st))
               else Inr st)
      in case r of
           Inl e \<Rightarrow> Inl e
         | Inr st0 \<Rightarrow>
             (let ret = linux_set_iface_flags env (effects st0) (first_ifname st0) False;
                  st1 = add_effect (Iface_flags (first_ifname st0) False) st0
              in Inr (Handled ret None
                   (if ret \<noteq> 0 then st1 else add_effect (Driver_state ''CTRL-EVENT-DRIVER-STATE STOPPED'') st1))))"

text \<open>\<open>ret\<close> is still -1 when the branch tests it against 0, so nothing is written.\<close>

definition cmd_getpower :: "nat \<Rightarrow> drv_state \<Rightarrow> ub + outcome" where
  "cmd_getpower buf_len st =
     (let ret = -1 :: int
      in if ret = 0
         then (let (txt, ret') = snprintf buf_len (''powermode = '' @ fmt_d 0 @ nl)
               in Inr (Handled ret' (Some txt) st))
         else Inr (Handled ret None st))"

definition sw_filter :: "cmd_env \<Rightarrow> u32 \<Rightarrow> drv_state \<Rightarrow> ub + outcome" where
  "sw_filter env idx st =
     tm_done st (Inr (wpa_driver_nl80211_driver_sw_cmd (tm_env env) (drv_ifindex st) True 0x9F000000 idx
       (tmlog st)))"

definition cmd_rxfilter_add :: "cmd_env \<Rightarrow> string \<Rightarrow> drv_state \<Rightarrow> ub + outcome" where
  "cmd_rxfilter_add env cp st =
     (if cp = [] then Inr (Handled (-1) None st)
      else (let (v, endp) = strtol (long_bits (tm_env env)) 0 cp
            in if endp \<noteq> cp then sw_filter env (word_of_int v + 0x00900200) st
               else Inr (Handled (-1) None st)))"

definition cmd_rxfilter_remove :: "cmd_env \<Rightarrow> string \<Rightarrow> drv_state \<Rightarrow> ub + outcome" where
  "cmd_rxfilter_remove env cp st =
     (if cp = [] then Inr (Handled (-1) None st)
      else (let (v, endp) = strtol (long_bits (tm_env env)) 0 cp
            in if endp \<noteq> cp then sw_filter env (word_of_int v + 0x00900300) st
               else Inr (Handled (-1) None st)))"

definition cmd_rxfilter_stop :: "cmd_env \<Rightarrow> drv_state \<Rightarrow> ub + outcome" where
  "cmd_rxfilter_stop env st = sw_filter env 0x00900000 st"

definition cmd_rxfilter_start :: "cmd_env \<Rightarrow> drv_state \<Rightarrow> ub + outcome" where
  "cmd_rxfilter_start env st = sw_filter env 0x00900100 st"

definition cmd_btcoex :: "drv_state \<Rightarrow> ub + outcome" where
  "cmd_btcoex st = Inr (Handled 0 None st)"

definition cmd_sta_block :: "cmd_env \<Rightarrow> string \<Rightarrow> drv_state \<Rightarrow> ub + outcome" where
  "cmd_sta_block env arg st =
     (let (ret, log') = wpa_driver_sta_block (tm_env env) (drv_ifindex st) arg (tmlog st)
      in Inr (Handled (if ret \<noteq> 0 then -1 else 0) None (st\<lparr>tmlog := log'\<rparr>)))"

definition cmd_sta_unblock :: "cmd_env \<Rightarrow> string \<Rightarrow> drv_state \<Rightarrow> ub + outcome" where
  "cmd_sta_unblock env arg st =
     (let (ret, log') = wpa_driver_sta_unblock (tm_env env) (drv_ifindex st) arg (tmlog st)
      in Inr (Handled (if ret \<noteq> 0 then -1 else 0) None (st\<lparr>tmlog := log'\<rparr>)))"

text \<open>The result of \<open>wpa_driver_set_max_client\<close> is dropped and \<open>ret\<close> stays -1.\<close>

definition cmd_set_max_client :: "cmd_env \<Rightarrow> string \<Rightarrow> drv_state \<Rightarrow> ub + outcome" where
  "cmd_set_max_client env arg st =
     (let (_, log') = wpa_driver_set_max_client (tm_env env) (drv_ifindex st) arg (tmlog st)
      in Inr (Handled (-1) None (st\<lparr>tmlog := log'\<rparr>)))"

definition cmd_mtk_acs :: "cmd_env \<Rightarrow> drv_state \<Rightarrow> ub + outcome" where
  "cmd_mtk_acs env st =
     (let (ch, log') = wpa_driver_do_mtk_acs (tm_env env) (drv_ifindex st) (tmlog st)
      in Inr (Handled 1 (Some [char_of (unat ch)]) (st\<lparr>tmlog := log'\<rparr>)))"

definition cmd_set_wapi_key :: "cmd_env \<Rightarrow> wapi_key_param \<Rightarrow> drv_state \<Rightarrow> ub + outcome" where
  "cmd_set_wapi_key env p st =
     tm_done st (wpa_driver_nl80211_set_wapi_key (tm_env env) (drv_ifindex st) (wkp_addr p)
       (wkp_key_idx p) (wkp_set_tx p) (wkp_seq p) (wkp_seq_len p) (wkp_key p) (wkp_key_len p)
       (tmlog st))"

definition cmd_wapi_msg_send :: "int \<Rightarrow> drv_state \<Rightarrow> ub + outcome" where
  "cmd_wapi_msg_send len st = Inr (Handled (wpa_driver_nl80211_send_msg len) None st)"

definition cmd_p2p_get_cap :: "string \<Rightarrow> nat \<Rightarrow> drv_state \<Rightarrow> ub + outcome" where
  "cmd_p2p_get_cap arg buf_len st =
     with_wpa_s st
       (case p2p_ctx st of
          None \<Rightarrow> Inr (Handled (-1) None st)
        | Some p2p \<Rightarrow>
            (let (ret, txt) = p2p_get_capability p2p arg buf_len in Inr (Handled ret txt st)))"

definition cmd_p2p_set_cap :: "cmd_env \<Rightarrow> string \<Rightarrow> drv_state \<Rightarrow> ub + outcome" where
  "cmd_p2p_set_cap env arg st =
     with_wpa_s st
       (case p2p_ctx st of
          None \<Rightarrow> Inr (Handled (-1) None st)
        | Some p2p \<Rightarrow>
            (let (ret, p2p') = p2p_set_capability (tm_env env) arg p2p
             in Inr (Handled ret None (st\<lparr>p2p_ctx := Some p2p'\<rparr>))))"

text \<open>\<open>p2p_wfd_sink_config_scc\<close> on the state; it always returns 0.\<close>

definition config_scc :: "cmd_env \<Rightarrow> bool \<Rightarrow> u32 \<Rightarrow> drv_state \<Rightarrow> ub + drv_state" where
  "config_scc env scc freq st =
     (case p2p_wfd_sink_config_scc (conf_reg_class st) (conf_channel st)
             (os_get_random env (effects st)) scc freq (p2p_ctx st) of
        Inl e \<Rightarrow> Inl e
      | Inr p2p' \<Rightarrow> Inr (st\<lparr>p2p_ctx := p2p'\<rparr>))"

text \<open>
  Follow the frequency the radio already uses, if there is one, else go back to multi-channel
  mode. \<open>positive\<close> is the test on the frequency: the variable is unsigned in one caller and
  signed in the other.
\<close>

definition follow_shared_freq :: "cmd_env \<Rightarrow> (u32 \<Rightarrow> bool) \<Rightarrow> drv_state \<Rightarrow> ub + drv_state" where
  "follow_shared_freq env positive st =
     (let (num, freqs) = mtk_get_shared_radio_freqs (os_calloc_ok env (effects st)) (get_bssid_ok env)
                           (radio_ifaces st) 1;
          freq = freqs ! 0
      in if num > 0 \<and> positive freq then config_scc env True freq st
         else config_scc env False 0 st)"

definition cmd_miracast :: "cmd_env \<Rightarrow> string \<Rightarrow> drv_state \<Rightarrow> ub + outcome" where
  "cmd_miracast env cmd st =
     (let miracast = (ucast (atoi (long_bits (tm_env env)) (drop 9 cmd)) :: u8);
          leave = (\<lambda>cmd' r. case r of Inl e \<Rightarrow> Inl e | Inr st' \<Rightarrow> Inr (Not_handled cmd' st'))
      in if miracast = 0 \<or> miracast = 1 then
           leave cmd (with_wpa_s st (follow_shared_freq env (\<lambda>f. f > 0) st))
         else if miracast = 2 then
           (case strstr cmd '' freq='' of
              Some pos \<Rightarrow>
                leave ''MIRACAST 2''
                  (with_wpa_s st (config_scc env True (atoi (long_bits (tm_env env)) (drop 6 pos)) st))
            | None \<Rightarrow> leave cmd (with_wpa_s st (follow_shared_freq env (\<lambda>f. f > 0) st)))
         else Inr (Not_handled cmd st))"

definition cmd_p2p_use_mcc :: "cmd_env \<Rightarrow> string \<Rightarrow> drv_state \<Rightarrow> ub + outcome" where
  "cmd_p2p_use_mcc env arg st =
     (let use_mcc = (ucast (atoi (long_bits (tm_env env)) arg) :: u8);
          r = with_wpa_s st (if use_mcc \<noteq> 0 then config_scc env False 0 st
                             else follow_shared_freq env (\<lambda>f. sint f > 0) st)
      in case r of Inl e \<Rightarrow> Inl e | Inr st' \<Rightarrow> Inr (Handled (-1) None st'))"

definition cmd_wfd_data_update :: "cmd_env \<Rightarrow> wfd_data \<Rightarrow> drv_state \<Rightarrow> ub + outcome" where
  "cmd_wfd_data_update env d st =
     with_wpa_s st (tm_done st (wpas_wfd_data_update (tm_env env) (drv_ifindex st) d (tmlog st)))"

text \<open>The loop over all interfaces of the \<open>mcc\<close> command.\<close>

definition set_mcc :: "cmd_env \<Rightarrow> bool \<Rightarrow> drv_state \<Rightarrow> drv_state" where
  "set_mcc env on st =
     st\<lparr>global_ifaces := map (\<lambda>i. \<lparr>num_multichan_concurrent = (if on then 2 else 0),
            drv_flags = (if on then drv_flags i OR WPA_DRIVER_FLAGS_P2P_CONCURRENT env
                         else drv_flags i AND NOT (WPA_DRIVER_FLAGS_P2P_CONCURRENT env))\<rparr>)
          (global_ifaces st),
        p2p_ctx := (if global_ifaces st = [] then p2p_ctx st
                    else map_option (\<lambda>p2p. p2p\<lparr>p2p_cfg := map_option
                           (\<lambda>c. c\<lparr>concurrent_operations := (if on then 1 else 0)\<rparr>) (p2p_cfg p2p)\<rparr>)
                         (p2p_ctx st))\<rparr>"

definition cmd_mcc :: "cmd_env \<Rightarrow> string \<Rightarrow> drv_state \<Rightarrow> ub + outcome" where
  "cmd_mcc env cmd st =
     with_wpa_s st
       (if drv_priv_null st then Inr (Handled (-1) None st)
        else (case strchr cmd (CHR '' '') of
                None \<Rightarrow> Inr (Handled (-1) None st)
              | Some v \<Rightarrow>
                  Inr (Handled 0 None (set_mcc env (atoi (long_bits (tm_env env)) (tl v) \<noteq> 0) st))))"

definition cmd_p2p_set_opps :: "cmd_env \<Rightarrow> string \<Rightarrow> drv_state \<Rightarrow> ub + outcome" where
  "cmd_p2p_set_opps env arg st =
     with_wpa_s st (tm_done st (p2p_ctrl_iface_set_opps (tm_env env) (drv_ifindex st) arg (tmlog st)))"

definition cmd_p2p_set_power_save :: "cmd_env \<Rightarrow> string \<Rightarrow> drv_state \<Rightarrow> ub + outcome" where
  "cmd_p2p_set_power_save env arg st =
     with_wpa_s st (tm_done st (Inr (p2p_ctrl_iface_set_power_save (tm_env env) (drv_ifindex st) arg (tmlog st))))"

definition cmd_p2p_set_sleep :: "cmd_env \<Rightarrow> string \<Rightarrow> drv_state \<Rightarrow> ub + outcome" where
  "cmd_p2p_set_sleep env arg st =
     with_wpa_s st (tm_done st (Inr (p2p_ctrl_iface_set_sleep (tm_env env) (drv_ifindex st) arg (tmlog st))))"

definition cmd_sigma_mode :: "string \<Rightarrow> drv_state \<Rightarrow> ub + outcome" where
  "cmd_sigma_mode cmd st =
     Inr (Handled (if strchr cmd (CHR '' '') = None then -1 else 0) None st)"

definition cmd_p2p_set_noa :: "cmd_env \<Rightarrow> string \<Rightarrow> drv_state \<Rightarrow> ub + outcome" where
  "cmd_p2p_set_noa env cmd st =
     with_wpa_s st (tm_done st (p2p_ctrl_iface_set_noa (tm_env env) (drv_ifindex st) cmd (tmlog st)))"

definition cmd_p2p_set_ps :: "cmd_env \<Rightarrow> string \<Rightarrow> drv_state \<Rightarrow> ub + outcome" where
  "cmd_p2p_set_ps env cmd st =
     with_wpa_s st (tm_done st (p2p_ctrl_iface_set_ps (tm_env env) (drv_ifindex st) cmd (tmlog st)))"

text \<open>The mode is the character after the blank, minus the character 0; at the end it is the NUL.\<close>

definition cmd_setsuspendmode :: "cmd_env \<Rightarrow> string \<Rightarrow> drv_state \<Rightarrow> ub + outcome" where
  "cmd_setsuspendmode env cmd st =
     (let c = (case drop 15 cmd of [] \<Rightarrow> NUL | c # _ \<Rightarrow> c);
          (_, _, log') = send_request (tm_env env) (drv_ifindex st) NL80211_TESTMODE_SUSPEND
                           (Suspendmode (word_of_nat (chr_code c) - 48)) (tmlog st)
      in Inr (Not_handled cmd (st\<lparr>tmlog := log'\<rparr>)))"

text \<open>Eight characters at an offset, through \<open>strtol\<close> in base 16.\<close>

definition hex8 :: "nat \<Rightarrow> string \<Rightarrow> nat \<Rightarrow> u32" where
  "hex8 lw cmd off = word_of_int (fst (strtol lw 16 (take 8 (drop off cmd))))"

definition cmd_rx_packet_filter :: "cmd_env \<Rightarrow> string \<Rightarrow> drv_state \<Rightarrow> ub + outcome" where
  "cmd_rx_packet_filter env cmd st =
     (if length cmd \<noteq> 71 then Inr (Handled (-1) None st)
      else (let h = hex8 (long_bits (tm_env env)) cmd;
                (ret, _, log') = send_request (tm_env env) (drv_ifindex st) NL80211_TESTMODE_RXFILTER
                   (Rx_filter (h 21) (h 29) (h 38) (h 46) (h 55) (h 63)) (tmlog st)
            in Inr (Handled ret None (st\<lparr>tmlog := log'\<rparr>))))"

text \<open>
  Any other command goes to the driver as text, from a buffer of 100 bytes with the 8 of the
  header. The length handed to \<open>nla_put\<close> is that of the whole command, so a command of more than
  92 characters makes \<open>nla_put\<close> copy past the end of the buffer when there is room in the
  message.
\<close>

definition nla_put_reached :: "drv_env \<Rightarrow> tm_log \<Rightarrow> nat \<Rightarrow> bool" where
  "nla_put_reached env log len \<longleftrightarrow>
     nlmsg_alloc env log \<and> nla_put env log NL80211_ATTR_IFINDEX 4 \<and> nla_put env log NL80211_ATTR_TESTDATA len"

definition cmd_transparent :: "cmd_env \<Rightarrow> string \<Rightarrow> drv_state \<Rightarrow> ub + outcome" where
  "cmd_transparent env cmd st =
     (if 8 + length cmd > 100 \<and> nla_put_reached (tm_env env) (tmlog st) (8 + length cmd)
      then Inl Out_of_bounds
      else (let (_, _, log') = send_request (tm_env env) (drv_ifindex st) NL80211_TESTMODE_STR_CMD
                                 (Str_cmd cmd) (tmlog st)
            in Inr (Not_handled cmd (st\<lparr>tmlog := log'\<rparr>))))"

section \<open>The handler\<close>

definition driver_cmd_chain ::
  "cmd_env \<Rightarrow> string \<Rightarrow> cmd_buf \<Rightarrow> nat \<Rightarrow> drv_state \<Rightarrow> ub + outcome" where
  "driver_cmd_chain env cmd buf buf_len st =
     (if strncasecmp_eq 10 cmd ''POWERMODE '' then cmd_powermode st
      else if strncasecmp_eq 19 cmd ''GET_STA_STATISTICS '' then
        cmd_get_sta_statistics env (drop 19 cmd) buf_len st
      else if strncmp_eq 7 cmd ''MACADDR'' then cmd_macaddr buf_len st
      else if strncasecmp_eq 7 cmd ''COUNTRY'' then cmd_country env cmd st
      else if strcasecmp_eq cmd ''start'' then cmd_start env st
      else if strcasecmp_eq cmd ''stop'' then cmd_stop env st
      else if strncasecmp_eq 8 cmd ''getpower'' then cmd_getpower buf_len st
      else if strncasecmp_eq 12 cmd ''rxfilter-add'' then cmd_rxfilter_add env (drop 12 cmd) st
      else if strncasecmp_eq 15 cmd ''rxfilter-remove'' then cmd_rxfilter_remove env (drop 15 cmd) st
      else if strncasecmp_eq 13 cmd ''rxfilter-stop'' then cmd_rxfilter_stop env st
      else if strncasecmp_eq 14 cmd ''rxfilter-start'' then cmd_rxfilter_start env st
      else if strcasecmp_eq cmd ''btcoexscan-start'' then cmd_btcoex st
      else if strcasecmp_eq cmd ''btcoexscan-stop'' then cmd_btcoex st
      else if strncasecmp_eq 10 cmd ''btcoexmode'' then cmd_btcoex st
      else if CONFIG_HOTSPOT_MGR_SUPPORT (tm_env env) \<and> strncmp_eq 10 cmd ''STA-BLOCK '' then
        cmd_sta_block env (drop 10 cmd) st
      else if CONFIG_HOTSPOT_MGR_SUPPORT (tm_env env) \<and> strncmp_eq 12 cmd ''STA-UNBLOCK '' then
        cmd_sta_unblock env (drop 12 cmd) st
      else if CONFIG_HOTSPOT_MGR_SUPPORT (tm_env env) \<and> strncasecmp_eq 15 cmd ''set_max_client '' then
        cmd_set_max_client env (drop 15 cmd) st
      else if CONFIG_MTK_LTE_COEX (tm_env env) \<and> strncmp_eq 7 cmd ''MTK-ACS'' then cmd_mtk_acs env st
      else if CONFIG_WAPI_SUPPORT (tm_env env) \<and> strncasecmp_eq 12 cmd ''set-wapi-key'' then
        cmd_set_wapi_key env (buf_wapi_key buf) st
      else if CONFIG_WAPI_SUPPORT (tm_env env) \<and> strncasecmp_eq 13 cmd ''wapi-msg-send'' then
        cmd_wapi_msg_send (buf_wapi_msg_len buf) st
      else if CONFIG_MTK_WFD_SINK (tm_env env) \<and> strncmp_eq 12 cmd ''p2p_get_cap '' then
        cmd_p2p_get_cap (drop 12 cmd) buf_len st
      else if CONFIG_MTK_WFD_SINK (tm_env env) \<and> strncmp_eq 12 cmd ''p2p_set_cap '' then
        cmd_p2p_set_cap env (drop 12 cmd) st
      else if CONFIG_MTK_WFD_SINK (tm_env env) \<and> strncmp_eq 9 cmd ''MIRACAST '' then
        cmd_miracast env cmd st
      else if CONFIG_MTK_WFD_SINK (tm_env env) \<and> strncasecmp_eq 12 cmd ''p2p_use_mcc='' then
        cmd_p2p_use_mcc env (drop 12 cmd) st
      else if CONFIG_MTK_WFD_SINK (tm_env env) \<and> strncmp_eq 15 cmd ''wfd_data_update'' then
        cmd_wfd_data_update env (buf_wfd buf) st
      else if CONFIG_MTK_P2P_SIGMA (tm_env env) \<and> strncasecmp_eq 3 cmd ''mcc'' then cmd_mcc env cmd st
      else if CONFIG_MTK_P2P_SIGMA (tm_env env) \<and> strncmp_eq 13 cmd ''p2p_set_opps '' then
        cmd_p2p_set_opps env (drop 13 cmd) st
      else if CONFIG_MTK_P2P_SIGMA (tm_env env) \<and> strncmp_eq 19 cmd ''p2p_set_power_save '' then
        cmd_p2p_set_power_save env (drop 19 cmd) st
      else if CONFIG_MTK_P2P_SIGMA (tm_env env) \<and> strncmp_eq 14 cmd ''p2p_set_sleep '' then
        cmd_p2p_set_sleep env (drop 14 cmd) st
      else if CONFIG_MTK_P2P_SIGMA (tm_env env) \<and> strncmp_eq 13 cmd ''p2p_set_sleep'' then
        cmd_p2p_set_sleep env (''ff:ff:ff:ff:ff:ff '' @ [CHR 0x22, CHR 0x22]) st
      else if CONFIG_MTK_P2P_SIGMA (tm_env env) \<and> strncasecmp_eq 10 cmd ''sigma_mode'' then
        cmd_sigma_mode cmd st
      else if strncmp_eq 11 cmd ''P2P_SET_NOA'' then cmd_p2p_set_noa env cmd st
      else if strncmp_eq 10 cmd ''P2P_SET_PS'' then cmd_p2p_set_ps env cmd st
      else if strncasecmp_eq 15 cmd ''SETSUSPENDMODE '' then cmd_setsuspendmode env cmd st
      else if strncasecmp_eq 21 cmd ''mtk_rx_packet_filter '' then cmd_rx_packet_filter env cmd st
      else cmd_transparent env cmd st)"

text \<open>
  The private command: the text and its NUL are copied into the zeroed 512 bytes, cut to 512
  characters when the command is longer. The caller's buffer is cleared first, and only receives
  the text FAIL: the reply of the driver stays in the private buffer. \<open>strlen\<close> of a buffer of size
  0 reads the text that was there.
\<close>

definition driver_priv_cmd ::
  "cmd_env \<Rightarrow> string \<Rightarrow> cmd_buf \<Rightarrow> nat \<Rightarrow> drv_state \<Rightarrow> int \<times> string option \<times> drv_state" where
  "driver_priv_cmd env cmd buf buf_len st =
     (let cmd_len = (if length cmd \<ge> PRIV_CMD_SIZE then PRIV_CMD_SIZE - 1 else length cmd);
          text = (if buf_len = 0 then buf_text buf else []);
          e = Priv_ioctl (take (IFNAMSIZ - 1) (bss_ifname st))
                (copy_over (take (cmd_len + 1) (cmd @ [NUL])) (replicate PRIV_CMD_SIZE NUL))
                (cmd_len + 1) PRIV_CMD_SIZE;
          ret = ioctl_ret env (effects st) e;
          st1 = add_effect e st
      in if ret < 0 then
           (let (txt, ret') = snprintf buf_len (''FAIL'' @ nl)
            in (ret', Some (if buf_len = 0 then text else txt), wpa_driver_send_hang_msg env st1))
         else (if strncasecmp_eq 12 cmd ''WLS_BATCHING'' then int (length text) else 0,
               Some text, st1\<lparr>drv_errors := 0\<rparr>))"

definition wpa_driver_nl80211_driver_cmd ::
  "cmd_env \<Rightarrow> string \<Rightarrow> cmd_buf \<Rightarrow> nat \<Rightarrow> drv_state \<Rightarrow> ub + int \<times> string option \<times> drv_state" where
  "wpa_driver_nl80211_driver_cmd env cmd buf buf_len st =
     (if drv_null st then Inr (-1, None, st)
      else if ctx_null st then Inr (-1, None, st)
      else if bss_ifname st \<noteq> ''ap0'' \<and> conf_null st then Inr (-1, None, st)
      else (case driver_cmd_chain env cmd buf buf_len st of
              Inl e \<Rightarrow> Inl e
            | Inr (Handled ret txt st') \<Rightarrow> Inr (ret, txt, st')
            | Inr (Not_handled cmd' st') \<Rightarrow> Inr (driver_priv_cmd env cmd' buf buf_len st')))"

section \<open>Wrappers\<close>

definition wpa_driver_set_p2p_noa ::
  "cmd_env \<Rightarrow> cmd_buf \<Rightarrow> u8 \<Rightarrow> s32 \<Rightarrow> s32 \<Rightarrow> drv_state \<Rightarrow> ub + int \<times> string option \<times> drv_state" where
  "wpa_driver_set_p2p_noa env bufv count start duration st =
     (let buf = fst (snprintf (MAX_DRV_CMD_SIZE env)
                  (cmd3 ''P2P_SET_NOA'' (uint count) (sint start) (sint duration)))
      in wpa_driver_nl80211_driver_cmd env buf (bufv\<lparr>buf_text := buf\<rparr>) (length buf + 1) st)"

definition wpa_driver_get_p2p_noa :: "drv_state \<Rightarrow> int \<times> drv_state" where
  "wpa_driver_get_p2p_noa st = (-1, st)"

definition wpa_driver_set_p2p_ps ::
  "cmd_env \<Rightarrow> cmd_buf \<Rightarrow> s32 \<Rightarrow> s32 \<Rightarrow> s32 \<Rightarrow> drv_state \<Rightarrow> ub + int \<times> string option \<times> drv_state" where
  "wpa_driver_set_p2p_ps env bufv legacy_ps opp_ps ctwindow st =
     (let buf = fst (snprintf (MAX_DRV_CMD_SIZE env)
                  (cmd3 ''P2P_SET_PS'' (sint legacy_ps) (sint opp_ps) (sint ctwindow)))
      in wpa_driver_nl80211_driver_cmd env buf (bufv\<lparr>buf_text := buf\<rparr>) (length buf + 1) st)"

definition wpa_driver_set_ap_wps_p2p_ie :: "drv_state \<Rightarrow> int \<times> drv_state" where
  "wpa_driver_set_ap_wps_p2p_ie st = (0, st)"

section \<open>What every branch keeps\<close>

text \<open>
  The contract of a branch: the messages it sends are well formed, it touches neither the error
  counter nor the effects already recorded, and the interface keeps its name.
\<close>

definition kept :: "cmd_env \<Rightarrow> drv_state \<Rightarrow> drv_state \<Rightarrow> bool" where
  "kept env st st' \<longleftrightarrow>
     sends_wf (tm_env env) (tmlog st) (tmlog st') \<and> drv_errors st' = drv_errors st \<and>
     take (length (effects st)) (effects st') = effects st \<and> bss_ifname st' = bss_ifname st"

definition branch_ok :: "cmd_env \<Rightarrow> drv_state \<Rightarrow> ub + outcome \<Rightarrow> bool" where
  "branch_ok env st r \<longleftrightarrow> (case r of Inl _ \<Rightarrow> True | Inr oc \<Rightarrow> kept env st (oc_state oc))"

lemma kept_refl [simp]: "kept env st st"
  by (simp add: kept_def)

lemma kept_tmlog: "sends_wf (tm_env env) (tmlog st) l \<Longrightarrow> kept env st (st\<lparr>tmlog := l\<rparr>)"
  by (simp add: kept_def)

lemma kept_simps [simp]:
  "kept env st (st'\<lparr>p2p_ctx := x\<rparr>) = kept env st st'"
  "kept env st (st'\<lparr>global_ifaces := y\<rparr>) = kept env st st'"
  by (simp_all add: kept_def)

lemma take_prefix_append: "take (length xs) ys = xs \<Longrightarrow> take (length xs) (ys @ zs) = xs"
  by (metis append.assoc append_eq_conv_conj append_take_drop_id)

lemma kept_add_effect: "kept env st st' \<Longrightarrow> kept env st (add_effect e st')"
  unfolding kept_def add_effect_def by (simp add: take_prefix_append del: take_append)

lemma kept_notify: "kept env st st' \<Longrightarrow> kept env st (wpa_driver_notify_country_change cmd st')"
  unfolding kept_def wpa_driver_notify_country_change_def Let_def
  by (simp add: take_prefix_append del: take_append)

lemma branch_ok_same [simp]: "branch_ok env st (Inr (Handled r t st))"
  by (simp add: branch_ok_def)

lemma branch_ok_if:
  "\<lbrakk>b \<Longrightarrow> branch_ok env st r; \<not> b \<Longrightarrow> branch_ok env st r'\<rbrakk> \<Longrightarrow> branch_ok env st (if b then r else r')"
  by simp

lemma branch_ok_with_wpa_s: "branch_ok env st r \<Longrightarrow> branch_ok env st (with_wpa_s st0 r)"
  by (simp add: with_wpa_s_def branch_ok_def)

lemma branch_ok_tm_done:
  "(\<And>ret l. r = Inr (ret, l) \<Longrightarrow> sends_wf (tm_env env) (tmlog st) l) \<Longrightarrow> branch_ok env st (tm_done st r)"
  by (auto simp: branch_ok_def tm_done_def intro: kept_tmlog split: sum.splits)

locale cmd_branch =
  fixes env :: cmd_env
    and br :: "drv_state \<Rightarrow> ub + outcome"
  assumes ok: "branch_ok env st (br st)"
begin

lemma returns_kept: "br st = Inr oc \<Longrightarrow> kept env st (oc_state oc)"
  using ok [of st] by (simp add: branch_ok_def)

lemma log_grows: "br st = Inr oc \<Longrightarrow> length (tmlog st) \<le> length (tmlog (oc_state oc))"
  by (drule returns_kept) (auto simp: kept_def elim: sends_wfE)

end

lemmas branch_intros = branch_ok_if branch_ok_with_wpa_s branch_ok_tm_done

interpretation b_powermode: cmd_branch env cmd_powermode for env
  by unfold_locales (simp add: cmd_powermode_def branch_ok_def)

interpretation b_stats: cmd_branch env "cmd_get_sta_statistics env arg n" for env arg n
proof
  fix st
  show "branch_ok env st (cmd_get_sta_statistics env arg n st)"
    using stats.sends [of "tm_env env" "drv_ifindex st" "map_option p2p_devices (p2p_ctx st)"
        "current_infra st" "wpa_bssid st" arg n "tmlog st"]
    by (auto simp: cmd_get_sta_statistics_def branch_ok_def split: prod.splits
        intro!: branch_ok_with_wpa_s kept_tmlog) (auto simp: with_wpa_s_def intro!: kept_tmlog)
qed

interpretation b_macaddr: cmd_branch env "cmd_macaddr n" for env n
  by unfold_locales (auto simp: cmd_macaddr_def branch_ok_def with_wpa_s_def split: prod.splits)

lemma set_country_kept: "wpa_driver_mediatek_set_country env a st = (ret, st') \<Longrightarrow> kept env st st'"
  by (auto simp: wpa_driver_mediatek_set_country_def Let_def intro: kept_add_effect split: if_splits)

interpretation b_country: cmd_branch env "cmd_country env cmd" for env cmd
  by unfold_locales
     (auto simp: cmd_country_def branch_ok_def with_wpa_s_def dest!: set_country_kept
       intro: kept_notify split: prod.splits)

interpretation b_start: cmd_branch env "cmd_start env" for env
  by unfold_locales (auto simp: cmd_start_def branch_ok_def Let_def intro!: kept_add_effect)

interpretation b_stop: cmd_branch env "cmd_stop env" for env
  by unfold_locales
     (auto simp: cmd_stop_def branch_ok_def Let_def with_wpa_s_def intro!: kept_add_effect split: sum.splits if_splits)

interpretation b_getpower: cmd_branch env "cmd_getpower n" for env n
  by unfold_locales (simp add: cmd_getpower_def branch_ok_def)

lemma sw_filter_ok: "branch_ok env st (sw_filter env idx st)"
  unfolding sw_filter_def by (rule branch_ok_tm_done) (auto dest: sw.sends)

interpretation b_add: cmd_branch env "cmd_rxfilter_add env cp" for env cp
  by unfold_locales (auto simp: cmd_rxfilter_add_def sw_filter_ok split: prod.splits)

interpretation b_remove: cmd_branch env "cmd_rxfilter_remove env cp" for env cp
  by unfold_locales (auto simp: cmd_rxfilter_remove_def sw_filter_ok split: prod.splits)

interpretation b_fstop: cmd_branch env "cmd_rxfilter_stop env" for env
  by unfold_locales (simp add: cmd_rxfilter_stop_def sw_filter_ok)

interpretation b_fstart: cmd_branch env "cmd_rxfilter_start env" for env
  by unfold_locales (simp add: cmd_rxfilter_start_def sw_filter_ok)

interpretation b_btcoex: cmd_branch env cmd_btcoex for env
  by unfold_locales (simp add: cmd_btcoex_def branch_ok_def)

interpretation b_block: cmd_branch env "cmd_sta_block env arg" for env arg
  by unfold_locales
     (auto simp: cmd_sta_block_def branch_ok_def split: prod.splits intro!: kept_tmlog dest: blk.sends)

interpretation b_unblock: cmd_branch env "cmd_sta_unblock env arg" for env arg
  by unfold_locales
     (auto simp: cmd_sta_unblock_def branch_ok_def split: prod.splits intro!: kept_tmlog dest: unblk.sends)

interpretation b_maxc: cmd_branch env "cmd_set_max_client env arg" for env arg
  by unfold_locales
     (auto simp: cmd_set_max_client_def branch_ok_def split: prod.splits intro!: kept_tmlog dest: maxc.sends)

lemma mtk_acs_sends_wf: "wpa_driver_do_mtk_acs env ifindex log = (ch, log') \<Longrightarrow> sends_wf env log log'"
  by (auto simp: wpa_driver_do_mtk_acs_def split: prod.splits option.splits dest: acs_wait_sends_wf)

interpretation b_acs: cmd_branch env "cmd_mtk_acs env" for env
  by unfold_locales
     (auto simp: cmd_mtk_acs_def branch_ok_def split: prod.splits intro!: kept_tmlog dest: mtk_acs_sends_wf)

interpretation b_wapi: cmd_branch env "cmd_set_wapi_key env p" for env p
  by unfold_locales (auto simp: cmd_set_wapi_key_def intro!: branch_ok_tm_done dest: wapi.returns_wf)

interpretation b_wmsg: cmd_branch env "cmd_wapi_msg_send n" for env n
  by unfold_locales (simp add: cmd_wapi_msg_send_def branch_ok_def)

interpretation b_getcap: cmd_branch env "cmd_p2p_get_cap arg n" for env arg n
  by unfold_locales
     (auto simp: cmd_p2p_get_cap_def branch_ok_def with_wpa_s_def split: prod.splits option.splits)

interpretation b_setcap: cmd_branch env "cmd_p2p_set_cap env arg" for env arg
  by unfold_locales
     (auto simp: cmd_p2p_set_cap_def branch_ok_def with_wpa_s_def split: prod.splits option.splits)

lemma config_scc_kept: "config_scc env scc f st = Inr st' \<Longrightarrow> kept env st st'"
  by (auto simp: config_scc_def split: sum.splits)

lemma follow_shared_kept: "follow_shared_freq env P st = Inr st' \<Longrightarrow> kept env st st'"
  by (auto simp: follow_shared_freq_def Let_def dest: config_scc_kept split: prod.splits if_splits)

lemmas scc_kept = config_scc_kept follow_shared_kept

interpretation b_miracast: cmd_branch env "cmd_miracast env cmd" for env cmd
  by unfold_locales
     (auto simp: cmd_miracast_def branch_ok_def with_wpa_s_def Let_def dest: scc_kept
       split: sum.splits option.splits if_splits)

interpretation b_mcc_use: cmd_branch env "cmd_p2p_use_mcc env arg" for env arg
  by unfold_locales
     (auto simp: cmd_p2p_use_mcc_def branch_ok_def with_wpa_s_def Let_def dest: scc_kept
       split: sum.splits if_splits)

interpretation b_wfd: cmd_branch env "cmd_wfd_data_update env d" for env d
  by unfold_locales (auto simp: cmd_wfd_data_update_def intro!: branch_intros dest: wfd.returns_wf)

interpretation b_mcc: cmd_branch env "cmd_mcc env cmd" for env cmd
  by unfold_locales
     (auto simp: cmd_mcc_def branch_ok_def with_wpa_s_def set_mcc_def split: option.splits)

interpretation b_opps: cmd_branch env "cmd_p2p_set_opps env arg" for env arg
  by unfold_locales (auto simp: cmd_p2p_set_opps_def intro!: branch_intros dest: opps.returns_wf)

interpretation b_psave: cmd_branch env "cmd_p2p_set_power_save env arg" for env arg
  by unfold_locales (auto simp: cmd_p2p_set_power_save_def intro!: branch_intros dest: psave.sends)

interpretation b_sleep: cmd_branch env "cmd_p2p_set_sleep env arg" for env arg
  by unfold_locales (auto simp: cmd_p2p_set_sleep_def intro!: branch_intros dest: sleep.sends)

interpretation b_sigma: cmd_branch env "cmd_sigma_mode cmd" for env cmd
  by unfold_locales (simp add: cmd_sigma_mode_def branch_ok_def)

interpretation b_noa: cmd_branch env "cmd_p2p_set_noa env cmd" for env cmd
  by unfold_locales (auto simp: cmd_p2p_set_noa_def intro!: branch_intros dest: noa.returns_wf)

interpretation b_ps: cmd_branch env "cmd_p2p_set_ps env cmd" for env cmd
  by unfold_locales (auto simp: cmd_p2p_set_ps_def intro!: branch_intros dest: ps.returns_wf)

interpretation b_suspend: cmd_branch env "cmd_setsuspendmode env cmd" for env cmd
  by unfold_locales
     (auto simp: cmd_setsuspendmode_def branch_ok_def layout split: prod.splits
       intro!: kept_tmlog send_request_sends_wf)

interpretation b_rxf: cmd_branch env "cmd_rx_packet_filter env cmd" for env cmd
  by unfold_locales
     (auto simp: cmd_rx_packet_filter_def branch_ok_def layout Let_def split: prod.splits
       intro!: kept_tmlog send_request_sends_wf)

interpretation b_trans: cmd_branch env "cmd_transparent env cmd" for env cmd
  by unfold_locales
     (auto simp: cmd_transparent_def branch_ok_def layout split: prod.splits
       intro!: kept_tmlog send_request_sends_wf)

interpretation b_chain: cmd_branch env "driver_cmd_chain env cmd buf n" for env cmd buf n
proof
  fix st show "branch_ok env st (driver_cmd_chain env cmd buf n st)"
    unfolding driver_cmd_chain_def
    by (intro branch_ok_if b_powermode.ok b_stats.ok b_macaddr.ok b_country.ok b_start.ok b_stop.ok
        b_getpower.ok b_add.ok b_remove.ok b_fstop.ok b_fstart.ok b_btcoex.ok b_block.ok
        b_unblock.ok b_maxc.ok b_acs.ok b_wapi.ok b_wmsg.ok b_getcap.ok b_setcap.ok b_miracast.ok
        b_mcc_use.ok b_wfd.ok b_mcc.ok b_opps.ok b_psave.ok b_sleep.ok b_sigma.ok b_noa.ok b_ps.ok
        b_suspend.ok b_rxf.ok b_trans.ok)
qed

section \<open>Sessions\<close>

lemma priv_cmd_effects:
  "driver_priv_cmd env cmd buf n st = (ret, txt, st') \<Longrightarrow>
   tmlog st' = tmlog st \<and> take (length (effects st)) (effects st') = effects st \<and>
   bss_ifname st' = bss_ifname st \<and> drv_errors st' \<le> max (drv_errors st) (DRV_NUMBER_SEQUENTIAL_ERRORS env)"
  by (auto simp: driver_priv_cmd_def wpa_driver_send_hang_msg_def add_effect_def Let_def
      split: prod.splits if_splits)

definition session_inv :: "cmd_env \<Rightarrow> drv_state \<Rightarrow> drv_state \<Rightarrow> bool" where
  "session_inv env st st' \<longleftrightarrow>
     sends_wf (tm_env env) (tmlog st) (tmlog st') \<and>
     take (length (effects st)) (effects st') = effects st \<and>
     drv_errors st' \<le> max (drv_errors st) (DRV_NUMBER_SEQUENTIAL_ERRORS env)"

lemma take_prefix_trans:
  "take (length xs) ys = xs \<Longrightarrow> take (length ys) zs = ys \<Longrightarrow> take (length xs) zs = xs"
  by (metis append_take_drop_id take_prefix_append)

lemma driver_cmd_session_inv:
  assumes "wpa_driver_nl80211_driver_cmd env cmd buf n st = Inr (ret, txt, st')"
  shows "session_inv env st st'"
proof (cases "driver_cmd_chain env cmd buf n st")
  case (Inl e)
  with assms show ?thesis
    by (auto simp: wpa_driver_nl80211_driver_cmd_def session_inv_def split: if_splits)
next
  case (Inr oc)
  then have k: "kept env st (oc_state oc)" by (rule b_chain.returns_kept)
  show ?thesis
  proof (cases oc)
    case (Handled r t s)
    with assms Inr k show ?thesis
      by (auto simp: wpa_driver_nl80211_driver_cmd_def session_inv_def kept_def split: if_splits)
  next
    case (Not_handled c s)
    with assms Inr k show ?thesis
      by (auto simp: wpa_driver_nl80211_driver_cmd_def session_inv_def kept_def
          dest!: priv_cmd_effects intro: take_prefix_trans split: if_splits)
  qed
qed

text \<open>The states a supplicant can bring the driver library to with a sequence of commands.\<close>

inductive driver_session :: "cmd_env \<Rightarrow> drv_state \<Rightarrow> drv_state \<Rightarrow> bool" for env st0 where
  session_start: "driver_session env st0 st0"
| session_cmd: "\<lbrakk>driver_session env st0 st;
     wpa_driver_nl80211_driver_cmd env cmd buf n st = Inr (ret, txt, st')\<rbrakk>
     \<Longrightarrow> driver_session env st0 st'"

text \<open>
  C5: along every sequence of \<open>DRIVER\<close> commands, each message sent to the kernel is well formed
  (version byte 1, length of its structure, a reply handler only for a structure with a reply
  buffer), the recorded effects are only ever extended, and the static error counter never
  exceeds the limit once it is within it.
\<close>

theorem driver_session_safe:
  assumes "driver_session env st0 st" "drv_errors st0 \<le> DRV_NUMBER_SEQUENTIAL_ERRORS env"
  shows "sends_wf (tm_env env) (tmlog st0) (tmlog st) \<and>
         take (length (effects st0)) (effects st) = effects st0 \<and>
         drv_errors st \<le> DRV_NUMBER_SEQUENTIAL_ERRORS env"
  using assms(1)
proof induction
  case session_start
  then show ?case using assms(2) by simp
next
  case (session_cmd st cmd buf n ret t st')
  then have "session_inv env st st'" by (blast intro: driver_cmd_session_inv)
  with session_cmd.IH show ?case
    by (auto simp: session_inv_def intro: sends_wf_trans take_prefix_trans)
qed

section \<open>A concrete supplicant\<close>

definition sample_cmd_env :: cmd_env where
  "sample_cmd_env = \<lparr>tm_env = answering_env [], MTK_TC1_FEATURE = False, MAX_DRV_CMD_SIZE = 248,
     DRV_NUMBER_SEQUENTIAL_ERRORS = 4, WPA_DRIVER_FLAGS_P2P_CONCURRENT = 0x200,
     socket_ok = (\<lambda>_. True), ioctl_ret = (\<lambda>_ _. 0), linux_set_iface_flags = (\<lambda>_ _ _. 0),
     os_get_random = (\<lambda>_. 7), os_calloc_ok = (\<lambda>_. True), get_bssid_ok = (\<lambda>_. True)\<rparr>"

definition sample_state :: drv_state where
  "sample_state = \<lparr>drv_null = False, ctx_null = False, conf_null = False, drv_priv_null = False,
     bss_ifname = ''p2p0'', first_ifname = ''p2p0'', drv_ifindex = 5, own_addr = [2, 0, 0, 0, 0, 3],
     wpa_bssid = [2, 0, 0, 0, 0, 7], current_infra = None, conf_reg_class = 0, conf_channel = 0,
     global_ifaces = [\<lparr>num_multichan_concurrent = 0, drv_flags = 1\<rparr>], radio_ifaces = [],
     p2p_ctx = Some sample_p2p, associated = False, assoc_bssid = [0, 0, 0, 0, 0, 0],
     drv_errors = 0, tmlog = [], effects = []\<rparr>"

definition sample_wfd :: wfd_data where
  "sample_wfd = \<lparr>WfdCmdType = 0, WfdEnable = 1, WfdCoupleSinkStatus = 0, WfdSessionAvailable = 1,
     WfdSigmaMode = 0, WfdDevInfo = 0, WfdControlPort = 7236, WfdMaximumTp = 50, WfdExtendCap = 0,
     WfdCoupleSinkAddress = [], WfdAssociatedBssid = [], WfdVideoIp = [], WfdAudioIp = [],
     WfdVideoPort = 0, WfdAudioPort = 0, WfdFlag = 0, WfdPolicy = 0, WfdState = 0,
     WfdSessionInformationIE = [], WfdSessionInformationIELen = 0, WfdPrimarySinkMac = [],
     WfdSecondarySinkMac = [], WfdAdvancedFlag = 0, WfdLocalIp = []\<rparr>"

definition sample_buf :: cmd_buf where
  "sample_buf = \<lparr>buf_text = [], buf_wapi_key = \<lparr>wkp_addr = None, wkp_key_idx = 0, wkp_set_tx = False,
     wkp_seq = None, wkp_seq_len = 0, wkp_key = None, wkp_key_len = 0\<rparr>, buf_wapi_msg_len = 0,
     buf_wfd = sample_wfd\<rparr>"

lemmas cmd_eval = driver_cmd_chain_def strncasecmp_eq_def strcasecmp_eq_def strncmp_eq_def cstring

lemma chain_rxfilter_stop: "driver_cmd_chain env ''rxfilter-stop'' buf n st = cmd_rxfilter_stop env st"
  by (simp add: cmd_eval)

lemma sample_rxfilter_stop:
  "\<exists>st'. wpa_driver_nl80211_driver_cmd sample_cmd_env ''rxfilter-stop'' sample_buf 64 sample_state
     = Inr (0, None, st') \<and> length (tmlog st') = 1"
  by (simp add: wpa_driver_nl80211_driver_cmd_def chain_rxfilter_stop cmd_rxfilter_stop_def sw_filter_def
      tm_done_def wpa_driver_nl80211_driver_sw_cmd_def sample_cmd_env_def sample_state_def testmode_eval Let_def layout)

theorem driver_session_safe_witness:
  "\<exists>st. driver_session sample_cmd_env sample_state st \<and> length (tmlog st) = 1 \<and>
     (sends_wf (tm_env sample_cmd_env) (tmlog sample_state) (tmlog st) \<and>
      take (length (effects sample_state)) (effects st) = effects sample_state \<and>
      drv_errors st \<le> DRV_NUMBER_SEQUENTIAL_ERRORS sample_cmd_env)"
proof -
  obtain st where st: "wpa_driver_nl80211_driver_cmd sample_cmd_env ''rxfilter-stop'' sample_buf 64 sample_state
     = Inr (0, None, st)" "length (tmlog st) = 1"
    using sample_rxfilter_stop by blast
  then have "driver_session sample_cmd_env sample_state st"
    by (blast intro: session_start session_cmd)
  with st driver_session_safe [OF this] show ?thesis
    by (auto simp: sample_state_def sample_cmd_env_def)
qed

end
