(* ===== verification/Driver_Wire.thy ===== *)
theory Driver_Wire
  imports Driver_Cmd
begin

text \<open>
  What the command handler guarantees from its text interface to the wire: the conditions under
  which it stays within the defined behaviour of C, the round trips of the wrappers through the
  printed command, the packet filter masks, country codes, the private ioctl buffer and the
  multi-channel switch.
\<close>

section \<open>Commands with defined behaviour\<close>

text \<open>
  The conditions under which the handler stays within the defined behaviour of C: the interface
  is not \<open>ap0\<close>, the command fits the buffer of a transparent command and the argument vector,
  the argument of \<open>p2p_set_opps\<close> has a blank, the WAPI key and the session information element
  fit their fields, and the P2P context has its configuration.
\<close>

definition cmd_safe :: "string \<Rightarrow> cmd_buf \<Rightarrow> drv_state \<Rightarrow> bool" where
  "cmd_safe cmd buf st \<longleftrightarrow>
     wpa_s_init st \<and> NUL \<notin> set cmd \<and> length cmd \<le> 92 \<and> length (tokens cmd) \<le> ARGV_SIZE \<and>
     (strncmp_eq 13 cmd ''p2p_set_opps '' \<longrightarrow> CHR '' '' \<in> set (drop 13 cmd)) \<and>
     (wkp_key (buf_wapi_key buf) = None \<or> wkp_key_len (buf_wapi_key buf) \<le> 32) \<and>
     unat (WfdSessionInformationIELen (buf_wfd buf)) \<le> 192 \<and>
     (case p2p_ctx st of None \<Rightarrow> True | Some p2p \<Rightarrow> p2p_cfg p2p \<noteq> None)"

definition defined :: "ub + 'a \<Rightarrow> bool" where
  "defined r \<longleftrightarrow> \<not> isl r"

lemma defined_simps [simp]: "defined (Inr x)" "\<not> defined (Inl e)"
  by (simp_all add: defined_def)

lemma defined_if: "\<lbrakk>b \<Longrightarrow> defined r; \<not> b \<Longrightarrow> defined r'\<rbrakk> \<Longrightarrow> defined (if b then r else r')"
  by simp

lemma defined_with_wpa_s: "wpa_s_init st \<Longrightarrow> defined (with_wpa_s st r) = defined r"
  by (simp add: with_wpa_s_def)

lemma defined_tm_done: "defined (tm_done st r) = defined r"
  by (cases r) (auto simp: tm_done_def)

lemma tokenize_defined:
  "NUL \<notin> set cmd \<Longrightarrow> length (tokens cmd) \<le> ARGV_SIZE \<Longrightarrow> tokenize_cmd cmd = Inr (tokens cmd)"
  by (simp add: tokenize_cmd_tokens)

lemma config_scc_defined:
  "case p2p_ctx st of None \<Rightarrow> True | Some p2p \<Rightarrow> p2p_cfg p2p \<noteq> None \<Longrightarrow> defined (config_scc env scc f st)"
  by (auto simp: config_scc_def p2p_wfd_sink_config_scc_def Let_def split: option.splits prod.splits)

lemma follow_shared_defined:
  "case p2p_ctx st of None \<Rightarrow> True | Some p2p \<Rightarrow> p2p_cfg p2p \<noteq> None \<Longrightarrow> defined (follow_shared_freq env P st)"
  by (simp add: follow_shared_freq_def Let_def config_scc_defined split: prod.splits)

lemma defined_case_sum: "defined r \<Longrightarrow> defined (case r of Inl e \<Rightarrow> Inl e | Inr x \<Rightarrow> Inr (f x))"
  by (cases r) auto

lemmas branch_defs = cmd_powermode_def cmd_get_sta_statistics_def cmd_macaddr_def cmd_country_def
  cmd_start_def cmd_getpower_def sw_filter_def cmd_rxfilter_add_def cmd_rxfilter_remove_def
  cmd_rxfilter_stop_def cmd_rxfilter_start_def cmd_btcoex_def cmd_sta_block_def
  cmd_sta_unblock_def cmd_set_max_client_def cmd_mtk_acs_def cmd_wapi_msg_send_def
  cmd_p2p_get_cap_def cmd_p2p_set_cap_def cmd_mcc_def cmd_p2p_set_power_save_def
  cmd_p2p_set_sleep_def cmd_sigma_mode_def cmd_setsuspendmode_def cmd_rx_packet_filter_def

lemma set_country_ifname: "wpa_driver_mediatek_set_country env a st = (ret, st') \<Longrightarrow> wpa_s_init st' = wpa_s_init st"
  using set_country_kept [of env a st ret st'] by (simp add: kept_def wpa_s_init_def)

lemma defined_plain:
  assumes "wpa_s_init st"
  shows "defined (cmd_powermode st)" "defined (cmd_get_sta_statistics env arg n st)"
    "defined (cmd_macaddr n st)" "defined (cmd_country env cmd st)" "defined (cmd_start env st)"
    "defined (cmd_getpower n st)" "defined (cmd_rxfilter_add env arg st)"
    "defined (cmd_rxfilter_remove env arg st)" "defined (cmd_rxfilter_stop env st)"
    "defined (cmd_rxfilter_start env st)" "defined (cmd_btcoex st)"
    "defined (cmd_sta_block env arg st)" "defined (cmd_sta_unblock env arg st)"
    "defined (cmd_set_max_client env arg st)" "defined (cmd_mtk_acs env st)"
    "defined (cmd_wapi_msg_send len st)" "defined (cmd_p2p_get_cap arg n st)"
    "defined (cmd_p2p_set_cap env arg st)" "defined (cmd_mcc env cmd st)"
    "defined (cmd_p2p_set_power_save env arg st)" "defined (cmd_p2p_set_sleep env arg st)"
    "defined (cmd_sigma_mode cmd st)" "defined (cmd_setsuspendmode env cmd st)"
    "defined (cmd_rx_packet_filter env cmd st)"
  using assms
  by (auto simp: branch_defs defined_with_wpa_s defined_tm_done set_country_ifname Let_def
      split: prod.splits option.splits list.splits)

lemma defined_stop: "wpa_s_init st \<Longrightarrow> defined (cmd_stop env st)"
  by (simp add: cmd_stop_def Let_def with_wpa_s_def)

lemma defined_wapi:
  "wkp_key p = None \<or> wkp_key_len p \<le> 32 \<Longrightarrow> defined (cmd_set_wapi_key env p st)"
  by (auto simp: cmd_set_wapi_key_def defined_tm_done wpa_driver_nl80211_set_wapi_key_def Let_def
      split: prod.splits)

lemma defined_wfd:
  "wpa_s_init st \<Longrightarrow> unat (WfdSessionInformationIELen d) \<le> 192 \<Longrightarrow> defined (cmd_wfd_data_update env d st)"
  by (auto simp: cmd_wfd_data_update_def defined_tm_done wpas_wfd_data_update_def Let_def
      defined_with_wpa_s split: prod.splits)

lemma defined_opps:
  "wpa_s_init st \<Longrightarrow> CHR '' '' \<in> set arg \<Longrightarrow> defined (cmd_p2p_set_opps env arg st)"
  by (auto simp: cmd_p2p_set_opps_def defined_tm_done p2p_ctrl_iface_set_opps_def Let_def
      defined_with_wpa_s strchr_None_iff split: option.splits)

lemma defined_tokens:
  assumes "wpa_s_init st" "NUL \<notin> set cmd" "length (tokens cmd) \<le> ARGV_SIZE"
  shows "defined (cmd_p2p_set_noa env cmd st)" "defined (cmd_p2p_set_ps env cmd st)"
  using assms
  by (auto simp: cmd_p2p_set_noa_def cmd_p2p_set_ps_def defined_tm_done p2p_ctrl_iface_set_noa_def
      p2p_ctrl_iface_set_ps_def tokenize_defined Let_def defined_with_wpa_s split: prod.splits)

lemma defined_scc:
  assumes "wpa_s_init st" "case p2p_ctx st of None \<Rightarrow> True | Some p2p \<Rightarrow> p2p_cfg p2p \<noteq> None"
  shows "defined (cmd_miracast env cmd st)" "defined (cmd_p2p_use_mcc env arg st)"
  using config_scc_defined [OF assms(2)] follow_shared_defined [OF assms(2)] assms(1)
  by (auto simp: cmd_miracast_def cmd_p2p_use_mcc_def defined_with_wpa_s Let_def
      intro!: defined_case_sum split: option.splits)

lemma defined_transparent: "length cmd \<le> 92 \<Longrightarrow> defined (cmd_transparent env cmd st)"
  by (auto simp: cmd_transparent_def split: prod.splits)

lemma chain_defined:
  assumes "cmd_safe cmd buf st"
  shows "defined (driver_cmd_chain env cmd buf n st)"
  unfolding driver_cmd_chain_def
  using assms unfolding cmd_safe_def
  by (intro defined_if defined_plain defined_stop defined_wapi defined_wfd defined_opps defined_tokens
      defined_scc defined_transparent) simp_all


lemma sample_safe: "cmd_safe ''MIRACAST 2 freq=5180'' sample_buf sample_state"
  by (simp add: cmd_safe_def sample_buf_def sample_state_def sample_wfd_def sample_p2p_def
      wpa_s_init_def NUL_def tokens.simps is_sep_def ARGV_SIZE_def strncmp_eq_def)


text \<open>Each condition of \<open>cmd_safe\<close> matters.\<close>

lemma ap0_reads_uninitialised:
  "wpa_driver_nl80211_driver_cmd env ''MACADDR'' buf n (sample_state\<lparr>bss_ifname := ''ap0''\<rparr>) = Inl Uninit_read"
  by (simp add: wpa_driver_nl80211_driver_cmd_def cmd_eval cmd_macaddr_def with_wpa_s_def
      wpa_s_init_def sample_state_def)

lemma set_opps_without_blank:
  "wpa_driver_nl80211_driver_cmd sample_cmd_env ''p2p_set_opps 10'' buf n sample_state = Inl Null_deref"
  by (simp add: wpa_driver_nl80211_driver_cmd_def cmd_eval cmd_p2p_set_opps_def with_wpa_s_def
      p2p_ctrl_iface_set_opps_def tm_done_def wpa_s_init_def sample_state_def sample_cmd_env_def
      answering_env_def)

lemma long_transparent_command:
  "wpa_driver_nl80211_driver_cmd sample_cmd_env (''X'' @ replicate 92 (CHR ''Y'')) buf n sample_state
     = Inl Out_of_bounds"
  by (simp add: wpa_driver_nl80211_driver_cmd_def cmd_eval cmd_transparent_def nla_put_reached_def
      sample_state_def sample_cmd_env_def answering_env_def)

section \<open>From the wrappers to the wire\<close>

definition running :: "drv_state \<Rightarrow> bool" where
  "running st \<longleftrightarrow> \<not> drv_null st \<and> \<not> ctx_null st \<and> \<not> conf_null st \<and> wpa_s_init st"

lemma int_range_abs: "int_range i \<Longrightarrow> \<bar>i\<bar> \<le> 2 ^ 31"
  by (auto simp: int_range_def)

lemma int_range_sint: "int_range (sint (w :: s32))"
  using sint_range_size [of w] by (simp add: int_range_def word_size)

lemma int_range_uint: "int_range (uint (w :: u8))"
proof -
  have "uint w < 256" using uint_lt2p [of w] by simp
  moreover have "- (2 ^ 31) \<le> (0 :: int)" "(256 :: int) \<le> 2 ^ 31" by simp_all
  ultimately show ?thesis unfolding int_range_def using uint_ge_0 [of w] by linarith
qed

lemma cmd3_fits:
  assumes "int_range a" "int_range b" "int_range c" "length name \<le> 11" "49 \<le> sz"
  shows "fst (snprintf sz (cmd3 name a b c)) = cmd3 name a b c"
  using assms assms(1-3) [THEN int_range_abs, THEN length_fmt_d]
  by (simp add: snprintf_def cmd3_def)

lemma chain_set_noa:
  "driver_cmd_chain env (cmd3 ''P2P_SET_NOA'' a b c) buf n st = cmd_p2p_set_noa env (cmd3 ''P2P_SET_NOA'' a b c) st"
  by (simp add: cmd_eval cmd3_def)

lemma chain_set_ps:
  "driver_cmd_chain env (cmd3 ''P2P_SET_PS'' a b c) buf n st = cmd_p2p_set_ps env (cmd3 ''P2P_SET_PS'' a b c) st"
  by (simp add: cmd_eval cmd3_def)

text \<open>
  C17: \<open>wpa_driver_set_p2p_noa\<close> delivers its arguments unchanged. The numbers printed into the
  command, tokenized in place and read back with \<open>atoi\<close> arrive in the notice-of-absence request
  as the count, interval and duration that were passed, for every 8-bit count and every 32-bit
  interval and duration; the result is that of the transport.
\<close>

theorem set_p2p_noa_delivers:
  assumes "running st" "32 \<le> long_bits (tm_env env)" "49 \<le> MAX_DRV_CMD_SIZE env"
  shows "wpa_driver_set_p2p_noa env bufv count start duration st =
     (let (ret, _, log') = send_request (tm_env env) (drv_ifindex st) 1
            (P2p_noa 4 0 (ucast count) start duration) (tmlog st)
      in Inr (ret, None, st\<lparr>tmlog := log'\<rparr>))"
proof -
  have "word_of_int (uint count) = (ucast count :: u32)" by (simp add: unsigned_ucast_eq)
  then show ?thesis
    using assms
    by (simp add: wpa_driver_set_p2p_noa_def cmd3_fits int_range_sint int_range_uint running_def
        wpa_driver_nl80211_driver_cmd_def chain_set_noa cmd_p2p_set_noa_def defined_with_wpa_s
        with_wpa_s_def tm_done_def set_noa_printed Let_def split: prod.splits)
qed


lemma sample_running: "running sample_state"
  by (simp add: running_def sample_state_def wpa_s_init_def)

theorem set_p2p_noa_delivers_witness:
  "wpa_driver_set_p2p_noa sample_cmd_env sample_buf 255 (- 7) 102400 sample_state =
     (let (ret, _, log') = send_request (tm_env sample_cmd_env) (drv_ifindex sample_state) 1
            (P2p_noa 4 0 (ucast (255 :: u8)) (- 7) 102400) (tmlog sample_state)
      in Inr (ret, None, sample_state\<lparr>tmlog := log'\<rparr>))"
  by (rule set_p2p_noa_delivers) (simp_all add: sample_running, simp_all add: sample_cmd_env_def answering_env_def)

text \<open>
  \<open>wpa_driver_set_p2p_ps\<close> delivers the CT window unchanged, with bit 7 set exactly when
  opportunistic power save is asked for (and untouched otherwise); the legacy power save argument
  has no effect.
\<close>

lemma set_p2p_ps_delivers:
  assumes "running st" "32 \<le> long_bits (tm_env env)" "49 \<le> MAX_DRV_CMD_SIZE env"
  shows "wpa_driver_set_p2p_ps env bufv legacy_ps opp_ps ctwindow st =
     (let (ret, _, log') = send_request (tm_env env) (drv_ifindex st) 1
            (P2p_sigma 107 (if opp_ps \<noteq> 0 then ctwindow OR BIT 7 else ctwindow)) (tmlog st)
      in Inr (ret, None, st\<lparr>tmlog := log'\<rparr>))"
proof -
  have "sint opp_ps = 0 \<longleftrightarrow> opp_ps = 0" by (rule signed_eq_0_iff)
  then show ?thesis
    using assms
    by (simp add: wpa_driver_set_p2p_ps_def cmd3_fits int_range_sint running_def
        wpa_driver_nl80211_driver_cmd_def chain_set_ps cmd_p2p_set_ps_def
        with_wpa_s_def tm_done_def set_ps_printed Let_def split: prod.splits)
qed

section \<open>The packet filter command\<close>

lemma digit_in_upper: "d < 16 \<Longrightarrow> digit_in 16 (digit_char_upper d) = Some d"
  by (auto simp: digit_in_def digit_val_def chr_code_def digit_char_upper_def Let_def)

lemma digits_val_upper:
  "\<forall>d \<in> set ds. d < 16 \<Longrightarrow>
   digits_val 16 acc (map digit_char_upper ds) = (foldl (\<lambda>a d. a * 16 + d) acc ds, [])"
  by (induction ds arbitrary: acc) (auto simp: digit_in_upper)

lemma foldl_nibbles:
  "foldl (\<lambda>a d. a * 16 + d) (acc :: nat) (map (\<lambda>k. n div 16 ^ k mod 16) (rev [0..<m])) = acc * 16 ^ m + n mod 16 ^ m"
proof (induction m arbitrary: acc)
  case (Suc m)
  have "n mod (16 ^ m * 16) = 16 ^ m * (n div 16 ^ m mod 16) + n mod 16 ^ m" by (rule mod_mult2_eq)
  then show ?case using Suc by (simp add: algebra_simps)
qed simp

definition nibbles8 :: "u32 \<Rightarrow> nat list" where
  "nibbles8 w = map (\<lambda>k. unat w div 16 ^ k mod 16) (rev [0..<8])"

lemma fmt_08X_nibbles: "fmt_08X w = map digit_char_upper (nibbles8 w)"
  by (simp add: fmt_08X_def nibbles8_def upt_rec)

lemma digits_val_08X: "digits_val 16 0 (fmt_08X w) = (unat w, [])"
proof -
  have "\<forall>d \<in> set (nibbles8 w). d < 16" by (auto simp: nibbles8_def)
  moreover have "unat w mod 16 ^ 8 = unat w" using unsigned_less [of w, where 'a = nat] by simp
  ultimately show ?thesis
    using foldl_nibbles [of 0 "unat w" 8, folded nibbles8_def]
    by (simp add: fmt_08X_nibbles digits_val_upper)
qed

lemma chr_code_upper: "d < 16 \<Longrightarrow> chr_code (digit_char_upper d) = (if d < 10 then d + 48 else d + 55)"
  by (simp add: chr_code_def digit_char_upper_def)

lemma upper_digit_plain:
  assumes "d < 16"
  shows "\<not> is_space (digit_char_upper d)" "digit_char_upper d \<noteq> CHR ''-''"
    "digit_char_upper d \<noteq> CHR ''+''" "tolower (digit_char_upper d) \<noteq> CHR ''x''"
proof -
  show "\<not> is_space (digit_char_upper d)" using assms by (simp add: is_space_def chr_code_upper)
  have neq: "chr_code c \<noteq> chr_code c' \<Longrightarrow> c \<noteq> c'" for c c' by auto
  show "digit_char_upper d \<noteq> CHR ''-''" "digit_char_upper d \<noteq> CHR ''+''"
    using assms by (auto intro!: neq simp: chr_code_upper) (auto simp: chr_code_def split: if_splits)
  have "chr_code (tolower (digit_char_upper d)) = (if d < 10 then d + 48 else d + 87)"
    using assms by (auto simp: tolower_def chr_code_upper) (simp_all add: chr_code_def)
  then show "tolower (digit_char_upper d) \<noteq> CHR ''x''"
    using assms by (auto simp: chr_code_def split: if_splits)
qed

lemma strtol_08X: "strtol lw 16 (fmt_08X w) = (clamp_long lw (uint w), [])"
proof -
  obtain d1 d2 r where ds: "nibbles8 w = d1 # d2 # r" "d1 < 16" "d2 < 16"
    by (simp add: nibbles8_def upt_rec)
  then have f: "fmt_08X w = digit_char_upper d1 # digit_char_upper d2 # map digit_char_upper r"
    by (simp add: fmt_08X_nibbles)
  have "dropWhile is_space (fmt_08X w) = fmt_08X w" "split_sign (fmt_08X w) = (False, fmt_08X w)"
    "\<not> hex_prefix (fmt_08X w)" "has_digit 16 (fmt_08X w)"
    using upper_digit_plain [OF ds(2)] upper_digit_plain [OF ds(3)] digit_in_upper [OF ds(2)]
    by (simp_all add: f split_sign_def hex_prefix_def has_digit_def)
  then show ?thesis by (simp add: strtol_def strtol_base_def digits_val_08X)
qed

lemma length_08X [simp]: "length (fmt_08X w) = 8"
  by (simp add: fmt_08X_def)

text \<open>The command line the comment in the source shows: three pairs of eight digits.\<close>

definition rx_filter_cmd :: "u32 \<Rightarrow> u32 \<Rightarrow> u32 \<Rightarrow> u32 \<Rightarrow> u32 \<Rightarrow> u32 \<Rightarrow> string" where
  "rx_filter_cmd a b c d e f =
     ''mtk_rx_packet_filter '' @ fmt_08X a @ fmt_08X b @ '' '' @ fmt_08X c @ fmt_08X d @ '' '' @
     fmt_08X e @ fmt_08X f"

lemma clamp_wide: "33 \<le> lw \<Longrightarrow> clamp_long lw (uint (w :: u32)) = uint w"
proof -
  assume "33 \<le> lw"
  then have "(2 :: int) ^ 32 \<le> 2 ^ (lw - 1)" by (intro power_increasing) auto
  moreover have "uint w < 2 ^ 32" using uint_lt2p [of w] by simp
  ultimately show ?thesis using uint_ge_0 [of w] unfolding clamp_long_def by linarith
qed

lemma rx_filter_cmd_fields:
  fixes lw defines "cl \<equiv> \<lambda>w :: u32. word_of_int (clamp_long lw (uint w)) :: u32"
  shows "length (rx_filter_cmd a b c d e f) = 71"
    and "hex8 lw (rx_filter_cmd a b c d e f) 21 = cl a" "hex8 lw (rx_filter_cmd a b c d e f) 29 = cl b"
    and "hex8 lw (rx_filter_cmd a b c d e f) 38 = cl c" "hex8 lw (rx_filter_cmd a b c d e f) 46 = cl d"
    and "hex8 lw (rx_filter_cmd a b c d e f) 55 = cl e" "hex8 lw (rx_filter_cmd a b c d e f) 63 = cl f"
  by (simp_all add: rx_filter_cmd_def hex8_def strtol_08X cl_def)

lemma chain_rx_filter:
  "driver_cmd_chain env (rx_filter_cmd a b c d e f) buf n st =
   cmd_rx_packet_filter env (rx_filter_cmd a b c d e f) st"
  unfolding rx_filter_cmd_def by (simp add: cmd_eval)

lemma rx_filter_sends:
  fixes env defines "cl \<equiv> \<lambda>w :: u32. word_of_int (clamp_long (long_bits (tm_env env)) (uint w)) :: u32"
  assumes "running st"
  shows "wpa_driver_nl80211_driver_cmd env (rx_filter_cmd a b c d e f) buf n st =
     (let (ret, _, log') = send_request (tm_env env) (drv_ifindex st) NL80211_TESTMODE_RXFILTER
            (Rx_filter (cl a) (cl b) (cl c) (cl d) (cl e) (cl f)) (tmlog st)
      in Inr (ret, None, st\<lparr>tmlog := log'\<rparr>))"
  using assms(2)
  by (simp add: wpa_driver_nl80211_driver_cmd_def chain_rx_filter cmd_rx_packet_filter_def cl_def
      rx_filter_cmd_fields running_def Let_def split: prod.splits)

text \<open>
  C34: with a \<open>long\<close> of more than 32 bits, \<open>mtk_rx_packet_filter\<close> sends exactly the six 32-bit
  masks whose hexadecimal digits are in the command.
\<close>

theorem rx_packet_filter_delivers:
  assumes "running st" "33 \<le> long_bits (tm_env env)"
  shows "wpa_driver_nl80211_driver_cmd env (rx_filter_cmd a b c d e f) buf n st =
     (let (ret, _, log') = send_request (tm_env env) (drv_ifindex st) NL80211_TESTMODE_RXFILTER
            (Rx_filter a b c d e f) (tmlog st)
      in Inr (ret, None, st\<lparr>tmlog := log'\<rparr>))"
  using assms by (simp add: rx_filter_sends clamp_wide)

definition sample_env64 :: cmd_env where
  "sample_env64 = sample_cmd_env\<lparr>tm_env := (answering_env [])\<lparr>long_bits := 64\<rparr>\<rparr>"

theorem rx_packet_filter_delivers_witness:
  "wpa_driver_nl80211_driver_cmd sample_env64 (rx_filter_cmd 0x80000000 0xFE 0 1 2 3) sample_buf 64 sample_state =
     (let (ret, _, log') = send_request (tm_env sample_env64) (drv_ifindex sample_state) NL80211_TESTMODE_RXFILTER
            (Rx_filter 0x80000000 0xFE 0 1 2 3) (tmlog sample_state)
      in Inr (ret, None, sample_state\<lparr>tmlog := log'\<rparr>))"
  by (rule rx_packet_filter_delivers) (simp_all add: sample_running sample_env64_def)

text \<open>With a \<open>long\<close> of 32 bits a mask with the top bit set is clamped to the largest \<open>long\<close>.\<close>

lemma rx_filter_clamped:
  "word_of_int (clamp_long 32 (uint (0x80000000 :: u32))) = (0x7FFFFFFF :: u32)"
  by (simp add: clamp_long_def)

section \<open>Country codes\<close>

lemma two_letters: "length cmd = 10 \<Longrightarrow> [cmd ! 8, cmd ! 9] = drop 8 cmd"
  by (intro nth_equalityI) (auto simp: less_Suc_eq)

lemma chain_country:
  "strncasecmp_eq 7 cmd ''COUNTRY'' \<Longrightarrow> driver_cmd_chain env cmd buf n st = cmd_country env cmd st"
proof -
  assume c: "strncasecmp_eq 7 cmd ''COUNTRY''"
  then obtain x xs where "cmd = x # xs" "tolower x = CHR ''c''"
    by (cases cmd) (auto simp: strncasecmp_eq_def tolower_Char)
  then have "\<not> strncasecmp_eq 10 cmd ''POWERMODE ''" "\<not> strncasecmp_eq 19 cmd ''GET_STA_STATISTICS ''"
    "\<not> strncmp_eq 7 cmd ''MACADDR''"
    by (auto simp: strncasecmp_eq_def strncmp_eq_def tolower_Char)
  with c show ?thesis by (simp add: driver_cmd_chain_def)
qed

text \<open>
  A country command of ten characters hands the driver \<open>COUNTRY\<close> and its two letters,
  untruncated. When the ioctl succeeds the command returns 0 and every interface of the
  supplicant is told of those two letters; when it fails the command returns the ioctl's error
  and no interface is told.
\<close>

lemma country_applied_then_announced:
  assumes "running st" "strncasecmp_eq 7 cmd ''COUNTRY''" "length cmd = 10"
    and "socket_ok env (effects st)" "\<not> MTK_TC1_FEATURE env"
  shows "wpa_driver_nl80211_driver_cmd env cmd buf n st =
     (let e = Country_ioctl (take 15 (first_ifname st)) (''COUNTRY '' @ drop 8 cmd);
          ret = ioctl_ret env (effects st) e
      in if ret < 0 then Inr (ret, None, st\<lparr>effects := effects st @ [e]\<rparr>)
         else Inr (0, None, st\<lparr>effects := effects st @ e #
                map (\<lambda>i. Channel_list_changed i (drop 8 cmd)) [0..<length (global_ifaces st)]\<rparr>))"
  using assms two_letters [OF assms(3)]
  by (simp add: wpa_driver_nl80211_driver_cmd_def running_def chain_country cmd_country_def
      wpa_driver_mediatek_set_country_def with_wpa_s_def wpa_s_init_def add_effect_def
      wpa_driver_notify_country_change_def snprintf_def IFNAMSIZ_def Let_def)

section \<open>Private commands\<close>

text \<open>
  The private command always fills the 512 bytes of its buffer and no more, and announces a
  used length within the total; the text it holds ends with a NUL exactly when the command is
  shorter than 512 characters (a longer one is cut to 512 characters without a NUL).
\<close>

lemma priv_cmd_buffer:
  assumes "NUL \<notin> set cmd" "driver_priv_cmd env cmd buf n st = (ret, out, st')"
  shows "\<exists>e. effects st' = effects st @ [e] \<and> length (priv_buf e) = PRIV_CMD_SIZE \<and>
           priv_used_len e \<le> priv_total_len e \<and> priv_total_len e = PRIV_CMD_SIZE \<and>
           (NUL \<in> set (priv_buf e) \<longleftrightarrow> length cmd < PRIV_CMD_SIZE) \<and>
           take (length cmd) (priv_buf e) = take PRIV_CMD_SIZE cmd"
proof -
  define cl where "cl = (if length cmd \<ge> PRIV_CMD_SIZE then PRIV_CMD_SIZE - 1 else length cmd)"
  define b where "b = copy_over (take (cl + 1) (cmd @ [NUL])) (replicate PRIV_CMD_SIZE NUL)"
  have b: "length b = PRIV_CMD_SIZE" "NUL \<in> set b \<longleftrightarrow> length cmd < PRIV_CMD_SIZE"
    "take (length cmd) b = take PRIV_CMD_SIZE cmd"
    using assms(1) by (auto simp: b_def cl_def copy_over_def PRIV_CMD_SIZE_def dest: in_set_takeD)
  have "effects st' = effects st @ [Priv_ioctl (take (IFNAMSIZ - 1) (bss_ifname st)) b (cl + 1) PRIV_CMD_SIZE]"
    using assms(2) unfolding driver_priv_cmd_def Let_def cl_def [symmetric] b_def [symmetric]
    by (auto simp: add_effect_def wpa_driver_send_hang_msg_def Let_def split: if_splits prod.splits)
  moreover have "cl + 1 \<le> PRIV_CMD_SIZE" by (simp add: cl_def PRIV_CMD_SIZE_def)
  ultimately show ?thesis using b by simp
qed

text \<open>
  The driver's reply stays in the private buffer: a batching query returns 0 and an empty text,
  although the handler means to return the length of the reply.
\<close>

lemma batching_reply_lost:
  assumes "0 < n" "strncasecmp_eq 12 cmd ''WLS_BATCHING''" "\<forall>e. ioctl_ret env (effects st) e \<ge> 0"
  shows "\<exists>st'. driver_priv_cmd env cmd buf n st = (0, Some [], st')"
  using assms by (simp add: driver_priv_cmd_def Let_def linorder_not_less [symmetric])

text \<open>
  Three commands that do their work report -1 to the caller all the same.
\<close>

lemma handled_but_failed:
  "\<exists>out st'. cmd_powermode st = Inr (Handled (-1) out st')"
  "\<exists>out st'. cmd_set_max_client env arg st = Inr (Handled (-1) out st')"
  "cmd_p2p_use_mcc env arg st = Inr oc \<Longrightarrow> \<exists>out st'. oc = Handled (-1) out st'"
  by (auto simp: cmd_powermode_def cmd_set_max_client_def cmd_p2p_use_mcc_def Let_def
      split: prod.splits sum.splits)

section \<open>Multi-channel concurrency\<close>

text \<open>
  The \<open>mcc\<close> command reaches every interface: switched on, each has two concurrent channels
  and the concurrency flag; switched off, each has none and not the flag; every other driver flag
  is left as it was, and nothing is sent to the driver.
\<close>

lemma mcc_sets_all_interfaces:
  assumes "running st" "\<not> drv_priv_null st" "CONFIG_MTK_P2P_SIGMA (tm_env env)"
    and "wpa_driver_nl80211_driver_cmd env (''mcc '' @ fmt_d v) buf n st = Inr (ret, out, st')"
    and "32 \<le> long_bits (tm_env env)" "int_range v"
  shows "ret = 0 \<and> tmlog st' = tmlog st \<and> effects st' = effects st \<and>
         length (global_ifaces st') = length (global_ifaces st) \<and>
         (\<forall>i < length (global_ifaces st).
            num_multichan_concurrent (global_ifaces st' ! i) = (if v \<noteq> 0 then 2 else 0) \<and>
            (\<forall>k < 64. bit (drv_flags (global_ifaces st' ! i)) k =
               (if bit (WPA_DRIVER_FLAGS_P2P_CONCURRENT env) k then v \<noteq> 0
                else bit (drv_flags (global_ifaces st ! i)) k)))"
proof -
  have z: "(word_of_int v :: s32) = 0 \<longleftrightarrow> v = 0"
    using assms(6) by (auto simp: int_range_def word_of_int_eq_0_iff dvd_def)
  have "driver_cmd_chain env (''mcc '' @ fmt_d v) buf n st = cmd_mcc env (''mcc '' @ fmt_d v) st"
    using assms(3) by (simp add: cmd_eval)
  also have "\<dots> = Inr (Handled 0 None (set_mcc env (v \<noteq> 0) st))"
    using assms(1,2,5,6) z by (simp add: cmd_mcc_def with_wpa_s_def running_def atoi_fmt_d_alone)
  finally have "ret = 0 \<and> st' = set_mcc env (v \<noteq> 0) st"
    using assms(1,4) by (simp add: wpa_driver_nl80211_driver_cmd_def running_def)
  then show ?thesis by (auto simp: set_mcc_def bit_simps)
qed

lemma sample_mcc:
  "wpa_driver_nl80211_driver_cmd sample_cmd_env (''mcc '' @ fmt_d 1) sample_buf 64 sample_state
     = Inr (0, None, set_mcc sample_cmd_env True sample_state)"
  by (simp add: wpa_driver_nl80211_driver_cmd_def cmd_eval cmd_mcc_def with_wpa_s_def wpa_s_init_def
      atoi_fmt_d_alone int_range_def sample_state_def sample_cmd_env_def answering_env_def)

end
