(* ===== verification/Hal_Registry.thy ===== *)
theory Hal_Registry
  imports Mtk_Prelude
begin

text \<open>
  The two tables of the Wi-Fi HAL (\<open>wifi_hal/common.cpp\<close>): the event handlers in
  \<open>event_cb\<close> and the outstanding commands in \<open>cmd\<close>. Each is an array of fixed capacity with a
  count; entries are appended at the end and removed with \<open>memmove\<close>. The locale
  \<open>bounded_table\<close> states what a client may rely on, in terms of the list of entries in use;
  the array implementation is an interpretation of it.
\<close>

section \<open>Runs\<close>

text \<open>
  A piece of code that may not return (\<open>None\<close>), may leave the defined behaviour of the language
  (\<open>Inl\<close>), or returns a value.
\<close>

type_synonym 'a run = "(ub + 'a) option"

definition ret :: "'a \<Rightarrow> 'a run" where
  "ret x = Some (Inr x)"

definition run_then :: "'a run \<Rightarrow> ('a \<Rightarrow> 'b run) \<Rightarrow> 'b run" where
  "run_then m f = (case m of None \<Rightarrow> None | Some (Inl e) \<Rightarrow> Some (Inl e) | Some (Inr x) \<Rightarrow> f x)"

lemma run_then_ret [simp]: "run_then (ret x) f = f x"
  by (simp add: run_then_def ret_def)

lemma ret_eq [simp]: "ret x = ret y \<longleftrightarrow> x = y"
  by (simp add: ret_def)

lemma run_then_eq_ret: "run_then m f = ret y \<longleftrightarrow> (\<exists>x. m = ret x \<and> f x = ret y)"
  by (auto simp: run_then_def ret_def split: option.splits sum.splits)

lemma run_then_retE:
  assumes "run_then m f = ret y"
  obtains x where "m = ret x" "f x = ret y"
  using assms by (auto simp: run_then_eq_ret)

section \<open>Arrays with a count\<close>

record 'a tab =
  tab_arr :: "'a list"
  tab_num :: nat

text \<open>\<open>memmove (&arr[i], &arr[i+1], (num - i - 1) * size)\<close> followed by \<open>num--\<close>.\<close>

definition tab_delete :: "nat \<Rightarrow> 'a tab \<Rightarrow> 'a tab" where
  "tab_delete i t =
     \<lparr>tab_arr = take i (tab_arr t) @ take (tab_num t - i - 1) (drop (i + 1) (tab_arr t))
                 @ drop (tab_num t - 1) (tab_arr t),
      tab_num = tab_num t - 1\<rparr>"

text \<open>\<open>if (num < alloc) { arr[num] = x; num++; }\<close>\<close>

definition tab_append :: "'a \<Rightarrow> 'a tab \<Rightarrow> 'a tab option" where
  "tab_append x t =
     (if tab_num t < length (tab_arr t)
      then Some \<lparr>tab_arr = (tab_arr t)[tab_num t := x], tab_num = tab_num t + 1\<rparr>
      else None)"

text \<open>\<open>for (i = 0; i < num; i++) if (P (arr[i])) ...\<close>: the first index that matches.\<close>

function tab_find :: "('a \<Rightarrow> bool) \<Rightarrow> 'a tab \<Rightarrow> nat \<Rightarrow> nat option" where
  "tab_find P t i =
     (if i < tab_num t then (if P (tab_arr t ! i) then Some i else tab_find P t (i + 1)) else None)"
  by pat_completeness auto
termination
  by (relation "measure (\<lambda>(P, t, i). tab_num t - i)") auto

declare tab_find.simps [simp del]

definition tab_remove_first :: "('a \<Rightarrow> bool) \<Rightarrow> 'a tab \<Rightarrow> 'a tab" where
  "tab_remove_first P t = (case tab_find P t 0 of None \<Rightarrow> t | Some i \<Rightarrow> tab_delete i t)"

text \<open>What a table stands for: its entries in use.\<close>

definition tab_abs :: "'a tab \<Rightarrow> 'a list" where
  "tab_abs t = take (tab_num t) (tab_arr t)"

definition tab_inv :: "'a tab \<Rightarrow> bool" where
  "tab_inv t \<longleftrightarrow> tab_num t \<le> length (tab_arr t)"

section \<open>The HAL tables\<close>

type_synonym ptr = nat

definition NULL :: ptr where "NULL = 0"
definition NL80211_CMD_VENDOR :: int where "NL80211_CMD_VENDOR = 103"
definition DEFAULT_EVENT_CB_SIZE :: nat where "DEFAULT_EVENT_CB_SIZE = 64"
definition DEFAULT_CMD_SIZE :: nat where "DEFAULT_CMD_SIZE = 64"

text \<open>
  The results of HAL functions, as numbers: an error of a netlink call is passed on as it is, cast
  to the result type. The values are those of the Android \<open>wifi_hal.h\<close>; the code only relies on
  success being zero and errors being negative.
\<close>

type_synonym wifi_error = int

definition WIFI_SUCCESS :: wifi_error where "WIFI_SUCCESS = 0"
definition WIFI_ERROR_UNKNOWN :: wifi_error where "WIFI_ERROR_UNKNOWN = -1"
definition WIFI_ERROR_NOT_SUPPORTED :: wifi_error where "WIFI_ERROR_NOT_SUPPORTED = -3"
definition WIFI_ERROR_NOT_AVAILABLE :: wifi_error where "WIFI_ERROR_NOT_AVAILABLE = -4"
definition WIFI_ERROR_INVALID_ARGS :: wifi_error where "WIFI_ERROR_INVALID_ARGS = -5"
definition WIFI_ERROR_OUT_OF_MEMORY :: wifi_error where "WIFI_ERROR_OUT_OF_MEMORY = -9"

lemmas wifi_codes = WIFI_SUCCESS_def WIFI_ERROR_UNKNOWN_def WIFI_ERROR_NOT_SUPPORTED_def
  WIFI_ERROR_NOT_AVAILABLE_def WIFI_ERROR_INVALID_ARGS_def WIFI_ERROR_OUT_OF_MEMORY_def

record cb_info =
  nl_cmd :: int
  vendor_id :: u32
  vendor_subcmd :: int
  cb_func :: ptr
  cb_arg :: ptr

record cmd_info =
  ci_id :: int
  ci_cmd :: ptr

text \<open>The part of \<open>hal_info\<close> the registry works on.\<close>

record hal_tabs =
  event_cbs :: "cb_info tab"
  cmds :: "cmd_info tab"

definition add_event_cb :: "cb_info \<Rightarrow> hal_tabs \<Rightarrow> wifi_error \<times> hal_tabs" where
  "add_event_cb cb info =
     (case tab_append cb (event_cbs info) of
        None \<Rightarrow> (WIFI_ERROR_OUT_OF_MEMORY, info)
      | Some t \<Rightarrow> (WIFI_SUCCESS, info\<lparr>event_cbs := t\<rparr>))"

definition wifi_register_handler :: "int \<Rightarrow> ptr \<Rightarrow> ptr \<Rightarrow> hal_tabs \<Rightarrow> wifi_error \<times> hal_tabs" where
  "wifi_register_handler c func arg info =
     add_event_cb \<lparr>nl_cmd = c, vendor_id = 0, vendor_subcmd = 0, cb_func = func, cb_arg = arg\<rparr> info"

definition wifi_register_vendor_handler ::
  "u32 \<Rightarrow> int \<Rightarrow> ptr \<Rightarrow> ptr \<Rightarrow> hal_tabs \<Rightarrow> wifi_error \<times> hal_tabs" where
  "wifi_register_vendor_handler vid subcmd func arg info =
     add_event_cb \<lparr>nl_cmd = NL80211_CMD_VENDOR, vendor_id = vid, vendor_subcmd = subcmd,
       cb_func = func, cb_arg = arg\<rparr> info"

definition wifi_unregister_handler :: "int \<Rightarrow> hal_tabs \<Rightarrow> hal_tabs" where
  "wifi_unregister_handler c info =
     (if c = NL80211_CMD_VENDOR then info
      else info\<lparr>event_cbs := tab_remove_first (\<lambda>cb. nl_cmd cb = c) (event_cbs info)\<rparr>)"

definition is_vendor_cb :: "u32 \<Rightarrow> int \<Rightarrow> cb_info \<Rightarrow> bool" where
  "is_vendor_cb vid subcmd cb \<longleftrightarrow>
     nl_cmd cb = NL80211_CMD_VENDOR \<and> vendor_id cb = vid \<and> vendor_subcmd cb = subcmd"

definition wifi_unregister_vendor_handler :: "u32 \<Rightarrow> int \<Rightarrow> hal_tabs \<Rightarrow> hal_tabs" where
  "wifi_unregister_vendor_handler vid subcmd info =
     info\<lparr>event_cbs := tab_remove_first (is_vendor_cb vid subcmd) (event_cbs info)\<rparr>"

definition wifi_register_cmd :: "int \<Rightarrow> ptr \<Rightarrow> hal_tabs \<Rightarrow> wifi_error \<times> hal_tabs" where
  "wifi_register_cmd i c info =
     (case tab_append \<lparr>ci_id = i, ci_cmd = c\<rparr> (cmds info) of
        None \<Rightarrow> (WIFI_ERROR_OUT_OF_MEMORY, info)
      | Some t \<Rightarrow> (WIFI_SUCCESS, info\<lparr>cmds := t\<rparr>))"

text \<open>The overload that removes by id returns the command, or null.\<close>

definition wifi_unregister_cmd :: "int \<Rightarrow> hal_tabs \<Rightarrow> ptr \<times> hal_tabs" where
  "wifi_unregister_cmd i info =
     (case tab_find (\<lambda>c. ci_id c = i) (cmds info) 0 of
        None \<Rightarrow> (NULL, info)
      | Some k \<Rightarrow> (ci_cmd (tab_arr (cmds info) ! k), info\<lparr>cmds := tab_delete k (cmds info)\<rparr>))"

definition wifi_get_cmd :: "int \<Rightarrow> hal_tabs \<Rightarrow> ptr" where
  "wifi_get_cmd i info =
     (case tab_find (\<lambda>c. ci_id c = i) (cmds info) 0 of
        None \<Rightarrow> NULL
      | Some k \<Rightarrow> ci_cmd (tab_arr (cmds info) ! k))"

text \<open>The overload that removes by command.\<close>

definition wifi_unregister_cmd_ptr :: "ptr \<Rightarrow> hal_tabs \<Rightarrow> hal_tabs" where
  "wifi_unregister_cmd_ptr c info = info\<lparr>cmds := tab_remove_first (\<lambda>ci. ci_cmd ci = c) (cmds info)\<rparr>"

text \<open>
  Commands are reference counted: \<open>refs\<close> counts the references of each live command, a command
  with none is deleted. What \<open>cancel\<close> does depends on the class of the command and is a
  parameter here.
\<close>

type_synonym refs = "ptr \<Rightarrow> nat"

definition addRef :: "ptr \<Rightarrow> refs \<Rightarrow> refs" where
  "addRef p r = r(p := r p + 1)"

definition releaseRef :: "ptr \<Rightarrow> refs \<Rightarrow> refs" where
  "releaseRef p r = r(p := r p - 1)"

record hal_state =
  tabs :: hal_tabs
  live :: refs

definition wifi_cancel_cmd ::
  "(ptr \<Rightarrow> hal_state \<Rightarrow> hal_state run) \<Rightarrow> int \<Rightarrow> hal_state \<Rightarrow> (wifi_error \<times> hal_state) run" where
  "wifi_cancel_cmd cancel i st =
     (let (c, info) = wifi_unregister_cmd i (tabs st); st1 = st\<lparr>tabs := info\<rparr>
      in if c \<noteq> NULL
         then run_then (cancel c st1) (\<lambda>st2. ret (WIFI_SUCCESS, st2\<lparr>live := releaseRef c (live st2)\<rparr>))
         else ret (WIFI_ERROR_INVALID_ARGS, st1))"

section \<open>The table interface\<close>

fun remove_first :: "('a \<Rightarrow> bool) \<Rightarrow> 'a list \<Rightarrow> 'a list" where
  "remove_first P [] = []"
| "remove_first P (x # xs) = (if P x then xs else x # remove_first P xs)"

lemma find_append: "find P (xs @ ys) = (case find P xs of None \<Rightarrow> find P ys | Some x \<Rightarrow> Some x)"
  by (induction xs) auto

lemma remove_first_none: "\<forall>x \<in> set xs. \<not> P x \<Longrightarrow> remove_first P xs = xs"
  by (induction xs) auto

lemma remove_first_append:
  "\<forall>x \<in> set xs. \<not> P x \<Longrightarrow> remove_first P (xs @ ys) = xs @ remove_first P ys"
  by (induction xs) auto

lemma set_remove_first_subset: "set (remove_first P xs) \<subseteq> set xs"
  by (induction xs) auto

lemma remove_first_keeps: "x \<in> set xs \<Longrightarrow> \<not> P x \<Longrightarrow> x \<in> set (remove_first P xs)"
  by (induction xs) auto

lemma length_remove_first:
  "length (remove_first P xs) = length xs - (if find P xs = None then 0 else 1)"
  by (induction xs) (auto simp: find_None_iff, metis Suc_pred length_pos_if_in_set)

locale bounded_table =
  fixes abs :: "'t \<Rightarrow> 'a list"
    and inv :: "'t \<Rightarrow> bool"
    and cap :: "'t \<Rightarrow> nat"
    and add :: "'a \<Rightarrow> 't \<Rightarrow> 't option"
    and del :: "('a \<Rightarrow> bool) \<Rightarrow> 't \<Rightarrow> 't"
  assumes within: "inv t \<Longrightarrow> length (abs t) \<le> cap t"
    and add_full: "inv t \<Longrightarrow> length (abs t) = cap t \<Longrightarrow> add x t = None"
    and add_room: "inv t \<Longrightarrow> length (abs t) < cap t \<Longrightarrow>
          \<exists>t'. add x t = Some t' \<and> inv t' \<and> cap t' = cap t \<and> abs t' = abs t @ [x]"
    and del_abs: "inv t \<Longrightarrow> inv (del P t) \<and> cap (del P t) = cap t \<and> abs (del P t) = remove_first P (abs t)"
begin

lemma add_Some_iff: "inv t \<Longrightarrow> (\<exists>t'. add x t = Some t') \<longleftrightarrow> length (abs t) < cap t"
  by (metis add_full add_room le_neq_implies_less option.distinct(1) within)

lemma add_SomeD:
  assumes "inv t" "add x t = Some t'"
  shows "inv t' \<and> cap t' = cap t \<and> abs t' = abs t @ [x]"
  using assms add_room [of t x] add_Some_iff [of t x] by auto

text \<open>What was added is found first, unless an older entry matches too.\<close>

lemma find_after_add:
  assumes "inv t" "add x t = Some t'" "P x"
  shows "find P (abs t') = (case find P (abs t) of None \<Rightarrow> Some x | Some y \<Rightarrow> Some y)"
  using add_SomeD [OF assms(1,2)] assms(3) by (auto simp: find_append split: option.splits)

text \<open>Adding an entry with a fresh key and deleting by that key restores the table.\<close>

lemma add_del_fresh:
  assumes "inv t" "add x t = Some t'" "P x" "\<forall>y \<in> set (abs t). \<not> P y"
  shows "abs (del P t') = abs t"
  using add_SomeD [OF assms(1,2)] assms(3,4) del_abs [of t' P]
  by (simp add: remove_first_append)

lemma del_frees_room:
  assumes "inv t" "find P (abs t) \<noteq> None"
  shows "\<exists>t'. add x (del P t) = Some t'"
proof -
  have "abs t \<noteq> []" using assms(2) by auto
  then have "length (abs (del P t)) < cap (del P t)"
    using assms del_abs [of t P] within [of t] length_remove_first [of P "abs t"]
    by (cases "abs t") auto
  then show ?thesis using del_abs [OF assms(1), of P] add_Some_iff by blast
qed

end

section \<open>The array implements the interface\<close>

lemma ge_cases: "(i :: nat) \<le> j \<longleftrightarrow> j = i \<or> i + 1 \<le> j"
  by auto

lemma tab_find_None: "tab_find P t i = None \<longleftrightarrow> (\<forall>j. i \<le> j \<and> j < tab_num t \<longrightarrow> \<not> P (tab_arr t ! j))"
proof (induction P t i rule: tab_find.induct)
  case (1 P t i)
  show ?case
  proof (cases "i < tab_num t \<and> \<not> P (tab_arr t ! i)")
    case True
    then have "(\<forall>j. i \<le> j \<and> j < tab_num t \<longrightarrow> \<not> P (tab_arr t ! j)) \<longleftrightarrow>
        (\<forall>j. i + 1 \<le> j \<and> j < tab_num t \<longrightarrow> \<not> P (tab_arr t ! j))"
      unfolding ge_cases [of i] by blast
    with True 1 show ?thesis by (subst tab_find.simps) simp
  next
    case False
    then show ?thesis by (subst tab_find.simps) auto
  qed
qed

lemma tab_find_Some:
  "tab_find P t i = Some k \<Longrightarrow>
   i \<le> k \<and> k < tab_num t \<and> P (tab_arr t ! k) \<and> (\<forall>j. i \<le> j \<and> j < k \<longrightarrow> \<not> P (tab_arr t ! j))"
proof (induction P t i rule: tab_find.induct)
  case (1 P t i)
  show ?case
  proof (cases "i < tab_num t \<and> \<not> P (tab_arr t ! i)")
    case True
    with 1 have "i + 1 \<le> k \<and> k < tab_num t \<and> P (tab_arr t ! k) \<and>
        (\<forall>j. i + 1 \<le> j \<and> j < k \<longrightarrow> \<not> P (tab_arr t ! j))"
      by (subst (asm) (2) tab_find.simps) simp
    with True show ?thesis unfolding ge_cases [of i] by blast
  next
    case False
    with 1(2) show ?thesis by (subst (asm) tab_find.simps) (auto split: if_splits)
  qed
qed

lemma remove_first_nth:
  "k < length xs \<Longrightarrow> P (xs ! k) \<Longrightarrow> \<forall>j < k. \<not> P (xs ! j) \<Longrightarrow>
   remove_first P xs = take k xs @ drop (Suc k) xs"
proof (induction xs arbitrary: k)
  case (Cons x xs)
  then show ?case by (cases k) (auto, fastforce)
qed simp

lemma tab_delete_abs:
  assumes "tab_inv t" "k < tab_num t"
  shows "tab_inv (tab_delete k t)" "length (tab_arr (tab_delete k t)) = length (tab_arr t)"
    "tab_abs (tab_delete k t) = take k (tab_abs t) @ drop (Suc k) (tab_abs t)"
  using assms
  by (auto simp: tab_inv_def tab_delete_def tab_abs_def min_def drop_take
      intro!: arg_cong [where f = "\<lambda>n. take n (tab_arr t)"])

lemma tab_find_abs:
  assumes "tab_inv t"
  shows "tab_find P t 0 = None \<longleftrightarrow> find P (tab_abs t) = None"
    and "tab_find P t 0 = Some k \<Longrightarrow> find P (tab_abs t) = Some (tab_arr t ! k)"
proof -
  show "tab_find P t 0 = None \<longleftrightarrow> find P (tab_abs t) = None"
    using assms by (auto simp: tab_find_None find_None_iff tab_abs_def tab_inv_def in_set_conv_nth)
  assume "tab_find P t 0 = Some k"
  then have k: "k < tab_num t" "P (tab_arr t ! k)" "\<forall>j < k. \<not> P (tab_arr t ! j)"
    by (auto dest: tab_find_Some)
  then show "find P (tab_abs t) = Some (tab_arr t ! k)"
    using assms by (auto simp: find_Some_iff tab_abs_def tab_inv_def intro!: exI [of _ k])
qed

interpretation tab: bounded_table tab_abs tab_inv "\<lambda>t. length (tab_arr t)" tab_append tab_remove_first
proof
  fix t :: "'a tab" and x P
  assume inv: "tab_inv t"
  then show "length (tab_abs t) \<le> length (tab_arr t)"
    by (simp add: tab_abs_def tab_inv_def)
  show "length (tab_abs t) = length (tab_arr t) \<Longrightarrow> tab_append x t = None"
    using inv by (simp add: tab_abs_def tab_inv_def tab_append_def)
  show "length (tab_abs t) < length (tab_arr t) \<Longrightarrow>
     \<exists>t'. tab_append x t = Some t' \<and> tab_inv t' \<and> length (tab_arr t') = length (tab_arr t) \<and>
       tab_abs t' = tab_abs t @ [x]"
    using inv by (auto simp: tab_abs_def tab_inv_def tab_append_def take_Suc_conv_app_nth)
  show "tab_inv (tab_remove_first P t) \<and> length (tab_arr (tab_remove_first P t)) = length (tab_arr t) \<and>
     tab_abs (tab_remove_first P t) = remove_first P (tab_abs t)"
  proof (cases "tab_find P t 0")
    case None
    with inv have "find P (tab_abs t) = None" by (simp add: tab_find_abs)
    with None inv show ?thesis by (simp add: tab_remove_first_def remove_first_none find_None_iff)
  next
    case (Some k)
    then have k: "k < tab_num t" "P (tab_arr t ! k)" "\<forall>j < k. \<not> P (tab_arr t ! j)"
      by (auto dest: tab_find_Some)
    then have "remove_first P (tab_abs t) = take k (tab_abs t) @ drop (Suc k) (tab_abs t)"
      using inv by (intro remove_first_nth) (auto simp: tab_abs_def tab_inv_def)
    with Some k inv show ?thesis by (simp add: tab_remove_first_def tab_delete_abs)
  qed
qed

section \<open>What the registry promises\<close>

definition hal_inv :: "hal_tabs \<Rightarrow> bool" where
  "hal_inv info \<longleftrightarrow> tab_inv (event_cbs info) \<and> tab_inv (cmds info) \<and>
     length (tab_arr (event_cbs info)) = DEFAULT_EVENT_CB_SIZE \<and>
     length (tab_arr (cmds info)) = DEFAULT_CMD_SIZE"

abbreviation handlers :: "hal_tabs \<Rightarrow> cb_info list" where
  "handlers info \<equiv> tab_abs (event_cbs info)"

abbreviation commands :: "hal_tabs \<Rightarrow> cmd_info list" where
  "commands info \<equiv> tab_abs (cmds info)"

lemma add_event_cb_spec:
  assumes "hal_inv info"
  shows "if length (handlers info) < DEFAULT_EVENT_CB_SIZE
         then \<exists>info'. add_event_cb cb info = (WIFI_SUCCESS, info') \<and> hal_inv info' \<and>
                handlers info' = handlers info @ [cb] \<and> cmds info' = cmds info
         else add_event_cb cb info = (WIFI_ERROR_OUT_OF_MEMORY, info)"
proof (cases "tab_append cb (event_cbs info)")
  case None
  then show ?thesis using assms tab.add_Some_iff [of "event_cbs info" cb]
    by (auto simp: hal_inv_def add_event_cb_def)
next
  case (Some t)
  then show ?thesis
    using assms tab.add_SomeD [of "event_cbs info" cb t] tab.add_Some_iff [of "event_cbs info" cb]
    by (auto simp: hal_inv_def add_event_cb_def)
qed

lemma register_cmd_spec:
  assumes "hal_inv info"
  shows "if length (commands info) < DEFAULT_CMD_SIZE
         then \<exists>info'. wifi_register_cmd i c info = (WIFI_SUCCESS, info') \<and> hal_inv info' \<and>
                commands info' = commands info @ [\<lparr>ci_id = i, ci_cmd = c\<rparr>] \<and> event_cbs info' = event_cbs info
         else wifi_register_cmd i c info = (WIFI_ERROR_OUT_OF_MEMORY, info)"
proof (cases "tab_append \<lparr>ci_id = i, ci_cmd = c\<rparr> (cmds info)")
  case None
  then show ?thesis using assms tab.add_Some_iff [of "cmds info" "\<lparr>ci_id = i, ci_cmd = c\<rparr>"]
    by (auto simp: hal_inv_def wifi_register_cmd_def)
next
  case (Some t)
  then show ?thesis
    using assms tab.add_SomeD [of "cmds info" _ t] tab.add_Some_iff [of "cmds info" "\<lparr>ci_id = i, ci_cmd = c\<rparr>"]
    by (auto simp: hal_inv_def wifi_register_cmd_def)
qed

lemma get_cmd_spec:
  "hal_inv info \<Longrightarrow> wifi_get_cmd i info =
     (case find (\<lambda>ci. ci_id ci = i) (commands info) of None \<Rightarrow> NULL | Some ci \<Rightarrow> ci_cmd ci)"
  using tab_find_abs [of "cmds info" "\<lambda>ci. ci_id ci = i"]
  by (auto simp: wifi_get_cmd_def hal_inv_def split: option.splits)

lemma unregister_cmd_tab:
  "wifi_unregister_cmd i info =
     (wifi_get_cmd i info, info\<lparr>cmds := tab_remove_first (\<lambda>ci. ci_id ci = i) (cmds info)\<rparr>)"
  by (auto simp: wifi_unregister_cmd_def wifi_get_cmd_def tab_remove_first_def split: option.splits)

lemma remove_spec:
  assumes "hal_inv info"
  shows "hal_inv (info\<lparr>cmds := tab_remove_first P (cmds info)\<rparr>)"
    "tab_abs (tab_remove_first P (cmds info)) = remove_first P (commands info)"
    "hal_inv (info\<lparr>event_cbs := tab_remove_first Q (event_cbs info)\<rparr>)"
    "tab_abs (tab_remove_first Q (event_cbs info)) = remove_first Q (handlers info)"
  using assms tab.del_abs [of "cmds info" P] tab.del_abs [of "event_cbs info" Q]
  by (auto simp: hal_inv_def)

text \<open>
  A command registered under an id that is not in use is what \<open>wifi_get_cmd\<close> and
  \<open>wifi_unregister_cmd\<close> return for that id, and unregistering it leaves the table of outstanding
  commands as it was.
\<close>

lemma register_unregister_cmd:
  assumes "hal_inv info" "wifi_register_cmd i c info = (WIFI_SUCCESS, info')"
    and "find (\<lambda>ci. ci_id ci = i) (commands info) = None"
  shows "wifi_get_cmd i info' = c \<and> fst (wifi_unregister_cmd i info') = c \<and>
         commands (snd (wifi_unregister_cmd i info')) = commands info \<and>
         event_cbs (snd (wifi_unregister_cmd i info')) = event_cbs info"
proof -
  from register_cmd_spec [OF assms(1), of i c] assms(2)
  have i': "hal_inv info'" "commands info' = commands info @ [\<lparr>ci_id = i, ci_cmd = c\<rparr>]"
    "event_cbs info' = event_cbs info"
    by (auto simp: wifi_codes split: if_splits)
  then have "wifi_get_cmd i info' = c"
    using assms(3) by (simp add: get_cmd_spec find_append)
  moreover have "remove_first (\<lambda>ci. ci_id ci = i) (commands info') = commands info"
    using i' assms(3) by (simp add: remove_first_append find_None_iff)
  ultimately show ?thesis
    using i' by (simp add: unregister_cmd_tab remove_spec(2) [OF i'(1)])
qed

definition empty_tab :: "nat \<Rightarrow> 'a \<Rightarrow> 'a tab" where
  "empty_tab n x = \<lparr>tab_arr = replicate n x, tab_num = 0\<rparr>"

text \<open>The tables as \<open>wifi_initialize\<close> leaves them; what the fresh arrays hold does not matter.\<close>

definition init_tabs :: "cb_info \<Rightarrow> cmd_info \<Rightarrow> hal_tabs" where
  "init_tabs cb ci = \<lparr>event_cbs = empty_tab DEFAULT_EVENT_CB_SIZE cb, cmds = empty_tab DEFAULT_CMD_SIZE ci\<rparr>"

lemma hal_inv_init: "hal_inv (init_tabs cb ci)"
  by (simp add: hal_inv_def init_tabs_def empty_tab_def tab_inv_def)

definition no_cb :: cb_info where
  "no_cb = \<lparr>nl_cmd = 0, vendor_id = 0, vendor_subcmd = 0, cb_func = NULL, cb_arg = NULL\<rparr>"

definition no_cmd :: cmd_info where
  "no_cmd = \<lparr>ci_id = 0, ci_cmd = NULL\<rparr>"

lemma init_tabs_lists [simp]: "handlers (init_tabs cb ci) = []" "commands (init_tabs cb ci) = []"
  by (simp_all add: init_tabs_def empty_tab_def tab_abs_def)

text \<open>The operations that change the tables.\<close>

inductive hal_step :: "hal_tabs \<Rightarrow> hal_tabs \<Rightarrow> bool" where
  "wifi_register_handler c f a info = (r, info') \<Longrightarrow> hal_step info info'"
| "wifi_register_vendor_handler v s f a info = (r, info') \<Longrightarrow> hal_step info info'"
| "hal_step info (wifi_unregister_handler c info)"
| "hal_step info (wifi_unregister_vendor_handler v s info)"
| "wifi_register_cmd i p info = (r, info') \<Longrightarrow> hal_step info info'"
| "wifi_unregister_cmd i info = (q, info') \<Longrightarrow> hal_step info info'"
| "hal_step info (wifi_unregister_cmd_ptr p info)"

lemma add_event_cb_inv: "hal_inv info \<Longrightarrow> add_event_cb cb info = (r, info') \<Longrightarrow> hal_inv info'"
  using add_event_cb_spec [of info cb] by (auto split: if_splits)

lemma register_cmd_inv: "hal_inv info \<Longrightarrow> wifi_register_cmd i c info = (r, info') \<Longrightarrow> hal_inv info'"
  using register_cmd_spec [of info i c] by (auto split: if_splits)

lemma hal_step_inv: "hal_step info info' \<Longrightarrow> hal_inv info \<Longrightarrow> hal_inv info'"
  by (induction rule: hal_step.induct)
     (auto simp: wifi_register_handler_def wifi_register_vendor_handler_def wifi_unregister_handler_def
       wifi_unregister_vendor_handler_def wifi_unregister_cmd_ptr_def unregister_cmd_tab
       intro: add_event_cb_inv register_cmd_inv remove_spec)

text \<open>
  C22: from the tables of a freshly initialised HAL, no sequence of registrations and removals
  ever writes outside the two arrays of 64 entries or counts past them.
\<close>

theorem registry_stays_in_bounds:
  assumes "hal_step\<^sup>*\<^sup>* (init_tabs cb ci) info"
  shows "tab_num (event_cbs info) \<le> 64 \<and> length (tab_arr (event_cbs info)) = 64 \<and>
         tab_num (cmds info) \<le> 64 \<and> length (tab_arr (cmds info)) = 64"
proof -
  have "hal_inv info"
    using assms by induction (auto intro: hal_inv_init hal_step_inv)
  then show ?thesis by (simp add: hal_inv_def tab_inv_def DEFAULT_EVENT_CB_SIZE_def DEFAULT_CMD_SIZE_def)
qed

theorem registry_stays_in_bounds_witness:
  "tab_num (cmds (snd (wifi_register_cmd 5 77 (init_tabs no_cb no_cmd)))) \<le> 64"
proof -
  have "hal_step (init_tabs no_cb no_cmd) (snd (wifi_register_cmd 5 77 (init_tabs no_cb no_cmd)))"
    by (rule hal_step.intros(5) [where i = 5 and p = 77]) (rule prod.collapse [symmetric])
  then show ?thesis using registry_stays_in_bounds [of no_cb no_cmd] by blast
qed

text \<open>
  Removing a vendor handler takes out the first entry for that vendor and subcommand and
  nothing else: every other entry stays, in order, also when an entry of a plain command has the
  same fields; a removal that finds nothing changes nothing.
\<close>

lemma unregister_vendor_handler_frame:
  assumes "hal_inv info" "info' = wifi_unregister_vendor_handler v s info"
  shows "filter (\<lambda>cb. \<not> is_vendor_cb v s cb) (handlers info') = filter (\<lambda>cb. \<not> is_vendor_cb v s cb) (handlers info) \<and>
         filter (is_vendor_cb v s) (handlers info') = tl (filter (is_vendor_cb v s) (handlers info)) \<and>
         cmds info' = cmds info"
proof -
  have "filter (\<lambda>x. \<not> P x) (remove_first P xs) = filter (\<lambda>x. \<not> P x) xs"
    "filter P (remove_first P xs) = tl (filter P xs)" for P and xs :: "cb_info list"
    by (induction xs) auto
  then show ?thesis
    using assms by (simp add: wifi_unregister_vendor_handler_def remove_spec(4))
qed

definition one_handler :: hal_tabs where
  "one_handler = snd (wifi_register_vendor_handler 0x1A11 7 1 77 (init_tabs no_cb no_cmd))"

lemma one_handler_list:
  "hal_inv one_handler \<and> handlers one_handler =
     [\<lparr>nl_cmd = NL80211_CMD_VENDOR, vendor_id = 0x1A11, vendor_subcmd = 7, cb_func = 1, cb_arg = 77\<rparr>]"
  using add_event_cb_spec [OF hal_inv_init, of no_cb no_cmd
      "\<lparr>nl_cmd = NL80211_CMD_VENDOR, vendor_id = 0x1A11, vendor_subcmd = 7, cb_func = 1, cb_arg = 77\<rparr>"]
  by (auto simp: one_handler_def wifi_register_vendor_handler_def DEFAULT_EVENT_CB_SIZE_def)

end
