(* ===== verification/Hal_Command.thy ===== *)
theory Hal_Command
  imports Hal_Registry
begin

text \<open>
  Commands of the Wi-Fi HAL (\<open>wifi_hal/cpp_bindings.h\<close> and \<open>cpp_bindings.cpp\<close>): the assembly of
  netlink requests in \<open>WifiRequest\<close>, the exchange \<open>WifiCommand::requestResponse\<close> with its reply
  loop, the event requests \<open>requestEvent\<close> and \<open>requestVendorEvent\<close>, and the dispatch of events in
  \<open>internal_valid_message_handler\<close> of \<open>wifi_hal.cpp\<close>.

  libnl is a parameter: whether an allocation or \<open>nla_put\<close> succeeds, what a send returns, and
  which callbacks each call of \<open>nl_recvmsgs\<close> makes.
\<close>

section \<open>Requests\<close>

text \<open>An attribute with its payload, or a nest of attributes.\<close>

datatype nl_attr = Attr nat "u8 list" | Nest nat "nl_attr list"

text \<open>
  A message under construction: \<open>nm_attrs\<close> are the finished attributes, \<open>nm_open\<close> the nests that
  are being filled, innermost first.
\<close>

record nl_msg =
  nm_family :: int
  nm_cmd :: int
  nm_attrs :: "nl_attr list"
  nm_open :: "(nat \<times> nl_attr list) list"

record wifi_request =
  mFamily :: int
  mIface :: int
  mMsg :: "nl_msg option"

record req_env =
  req_alloc :: bool
  req_put :: "nl_msg \<Rightarrow> nat \<Rightarrow> nat \<Rightarrow> int"

definition NL80211_ATTR_IFINDEX_id :: nat where "NL80211_ATTR_IFINDEX_id = 3"
definition NL80211_ATTR_VENDOR_ID :: nat where "NL80211_ATTR_VENDOR_ID = 195"
definition NL80211_ATTR_VENDOR_SUBCMD :: nat where "NL80211_ATTR_VENDOR_SUBCMD = 196"
definition NL80211_ATTR_VENDOR_DATA :: nat where "NL80211_ATTR_VENDOR_DATA = 197"
definition GOOGLE_OUI :: u32 where "GOOGLE_OUI = 0x001A11"

definition new_request :: "int \<Rightarrow> int \<Rightarrow> wifi_request" where
  "new_request family iface = \<lparr>mFamily = family, mIface = iface, mMsg = None\<rparr>"

text \<open>\<open>WifiRequest::create (family, cmd, flags, hdrlen)\<close>: a message that was there is destroyed.\<close>

definition req_create :: "req_env \<Rightarrow> int \<Rightarrow> int \<Rightarrow> wifi_request \<Rightarrow> int \<times> wifi_request" where
  "req_create env family c r =
     (if req_alloc env
      then (WIFI_SUCCESS, r\<lparr>mMsg := Some \<lparr>nm_family = family, nm_cmd = c, nm_attrs = [], nm_open = []\<rparr>\<rparr>)
      else (WIFI_ERROR_OUT_OF_MEMORY, r\<lparr>mMsg := None\<rparr>))"

definition msg_add :: "nl_attr \<Rightarrow> nl_msg \<Rightarrow> nl_msg" where
  "msg_add a m =
     (case nm_open m of
        [] \<Rightarrow> m\<lparr>nm_attrs := nm_attrs m @ [a]\<rparr>
      | (n, as) # os \<Rightarrow> m\<lparr>nm_open := (n, as @ [a]) # os\<rparr>)"

text \<open>
  \<open>WifiRequest::put\<close>: the result of \<open>nla_put\<close>, negative when the attribute did not fit. \<open>create\<close>
  puts attributes only after it has made a message; where a caller may put one without a message, the
  assembly below makes it a null dereference.
\<close>

definition req_put_bytes :: "req_env \<Rightarrow> nat \<Rightarrow> u8 list \<Rightarrow> wifi_request \<Rightarrow> int \<times> wifi_request" where
  "req_put_bytes env a bs r =
     (case mMsg r of
        None \<Rightarrow> (WIFI_ERROR_OUT_OF_MEMORY, r)
      | Some m \<Rightarrow>
          (let res = req_put env m a (length bs)
           in if res < 0 then (res, r) else (res, r\<lparr>mMsg := Some (msg_add (Attr a bs) m)\<rparr>)))"

definition req_put_u32 :: "req_env \<Rightarrow> nat \<Rightarrow> u32 \<Rightarrow> wifi_request \<Rightarrow> int \<times> wifi_request" where
  "req_put_u32 env a v r = req_put_bytes env a (le_bytes 4 (unat v)) r"

definition req_put_string :: "req_env \<Rightarrow> nat \<Rightarrow> string \<Rightarrow> wifi_request \<Rightarrow> int \<times> wifi_request" where
  "req_put_string env a s r = req_put_bytes env a (map (\<lambda>c. word_of_nat (chr_code c)) s @ [0]) r"

text \<open>\<open>if (res < 0) return res;\<close> between two steps of the assembly.\<close>

definition req_then :: "int \<times> wifi_request \<Rightarrow> (wifi_request \<Rightarrow> int \<times> wifi_request) \<Rightarrow> int \<times> wifi_request" where
  "req_then p f = (if fst p < 0 then p else f (snd p))"

definition attr_start :: "nat \<Rightarrow> wifi_request \<Rightarrow> wifi_request" where
  "attr_start n r = r\<lparr>mMsg := map_option (\<lambda>m. m\<lparr>nm_open := (n, []) # nm_open m\<rparr>) (mMsg r)\<rparr>"

definition attr_end :: "wifi_request \<Rightarrow> wifi_request" where
  "attr_end r = r\<lparr>mMsg := map_option
     (\<lambda>m. case nm_open m of [] \<Rightarrow> m
          | (n, as) # os \<Rightarrow> msg_add (Nest n as) (m\<lparr>nm_open := os\<rparr>)) (mMsg r)\<rparr>"

text \<open>\<open>WifiRequest::create (id, subcmd)\<close>: a vendor command, for an interface when there is one.\<close>

definition req_create_vendor :: "req_env \<Rightarrow> u32 \<Rightarrow> u32 \<Rightarrow> wifi_request \<Rightarrow> int \<times> wifi_request" where
  "req_create_vendor env vid subcmd r =
     req_then (req_create env (mFamily r) NL80211_CMD_VENDOR r)
       (\<lambda>r1. req_then (req_put_u32 env NL80211_ATTR_VENDOR_ID vid r1)
          (\<lambda>r2. req_then (req_put_u32 env NL80211_ATTR_VENDOR_SUBCMD subcmd r2)
             (\<lambda>r3. if mIface r3 \<noteq> -1
                   then req_put_u32 env NL80211_ATTR_IFINDEX_id (word_of_int (mIface r3)) r3
                   else (0, r3))))"

text \<open>
  The code assembles vendor data by a sequence of calls, each followed by a check of its result.
  \<open>Put\<close> is a \<open>put\<close> whose error is returned at once, \<open>Put_ignored\<close> one whose result is dropped,
  \<open>Start n checked\<close> an \<open>attr_start\<close>, whose null result is tested by some callers only, \<open>End\<close> the
  matching \<open>attr_end\<close>, and \<open>Fault\<close> a place where the code leaves a buffer. \<open>nla_nest_start\<close> puts an
  empty attribute and returns null when there is no room for it; \<open>nla_nest_end\<close> dereferences its
  argument, and every call dereferences the message.
\<close>

datatype req_step = Put nat "u8 list" | Put_ignored nat "u8 list" | Start nat bool | End | Fault ub

text \<open>\<open>nests\<close> are the open nests, innermost first: whether each is there or null.\<close>

fun assemble ::
  "req_env \<Rightarrow> req_step list \<Rightarrow> bool list \<Rightarrow> int \<times> wifi_request \<Rightarrow> ub + int \<times> wifi_request" where
  "assemble env [] nests (result, r) = Inr (result, r)"
| "assemble env (Put a bs # ss) nests (result, r) =
     (if mMsg r = None then Inl Null_deref
      else (let (res, r1) = req_put_bytes env a bs r
            in if res < 0 then Inr (res, r1) else assemble env ss nests (res, r1)))"
| "assemble env (Put_ignored a bs # ss) nests (result, r) =
     (if mMsg r = None then Inl Null_deref
      else assemble env ss nests (result, snd (req_put_bytes env a bs r)))"
| "assemble env (Start n checked # ss) nests (result, r) =
     (case mMsg r of
        None \<Rightarrow> Inl Null_deref
      | Some m \<Rightarrow>
          if req_put env m n 0 < 0
          then (if checked then Inr (WIFI_ERROR_OUT_OF_MEMORY, r)
                else assemble env ss (False # nests) (result, r))
          else assemble env ss (True # nests) (result, attr_start n r))"
| "assemble env (End # ss) nests (result, r) =
     (case nests of
        True # ns \<Rightarrow> assemble env ss ns (result, attr_end r)
      | _ \<Rightarrow> Inl Null_deref)"
| "assemble env (Fault e # ss) nests (result, r) = Inl e"

definition put_u32 :: "nat \<Rightarrow> u32 \<Rightarrow> req_step" where
  "put_u32 a v = Put a (le_bytes 4 (unat v))"

definition put_u16 :: "nat \<Rightarrow> u16 \<Rightarrow> req_step" where
  "put_u16 a v = Put a (le_bytes 2 (unat v))"

definition put_u8 :: "nat \<Rightarrow> u8 \<Rightarrow> req_step" where
  "put_u8 a v = Put a [v]"

definition put_addr :: "nat \<Rightarrow> mac \<Rightarrow> req_step" where
  "put_addr a v = Put a (take 6 v)"

text \<open>A vendor command with vendor data; the result is that of the last checked \<open>put\<close>.\<close>

definition vendor_request ::
  "req_env \<Rightarrow> u32 \<Rightarrow> req_step list \<Rightarrow> wifi_request \<Rightarrow> ub + int \<times> wifi_request" where
  "vendor_request env subcmd steps r =
     (let (res, r1) = req_create_vendor env GOOGLE_OUI subcmd r
      in if res < 0 then Inr (res, r1) else assemble env steps [] (res, r1))"

text \<open>For the functions that end with \<open>return WIFI_SUCCESS\<close>.\<close>

definition or_success :: "ub + int \<times> wifi_request \<Rightarrow> ub + int \<times> wifi_request" where
  "or_success c = (case c of Inl e \<Rightarrow> Inl e | Inr (res, r) \<Rightarrow> Inr (if res < 0 then res else WIFI_SUCCESS, r))"

section \<open>The reply loop\<close>

text \<open>The callbacks libnl makes while it receives: acknowledgement, end, error, or a message.\<close>

datatype 'm nl_event = Ev_ack | Ev_finish | Ev_error int | Ev_valid 'm

text \<open>
  \<open>ack_handler\<close>, \<open>finish_handler\<close> and \<open>error_handler\<close> write the shared \<open>err\<close>;
  \<open>response_handler\<close> passes a message that parses to the command's \<open>handleResponse\<close> and skips
  one that does not, so that \<open>Ev_valid\<close> stands for a reply that parses.
\<close>

fun on_event :: "('m \<Rightarrow> 's \<Rightarrow> 's) \<Rightarrow> 'm nl_event \<Rightarrow> int \<times> 's \<Rightarrow> int \<times> 's" where
  "on_event handleResponse Ev_ack (err, s) = (0, s)"
| "on_event handleResponse Ev_finish (err, s) = (0, s)"
| "on_event handleResponse (Ev_error e) (err, s) = (e, s)"
| "on_event handleResponse (Ev_valid m) (err, s) = (err, handleResponse m s)"

text \<open>
  \<open>while (err > 0) nl_recvmsgs (...)\<close>: \<open>recv n\<close> are the callbacks of the \<open>n\<close>-th call. A call
  that fails makes no callback, is logged, and the loop goes on; a loop that never ends has the
  value \<open>None\<close>.
\<close>

partial_function (option) wait_reply ::
  "('m \<Rightarrow> 's \<Rightarrow> 's) \<Rightarrow> (nat \<Rightarrow> 'm nl_event list) \<Rightarrow> nat \<Rightarrow> int \<times> 's \<Rightarrow> (int \<times> 's) option" where
  "wait_reply handleResponse recv n st =
     (if fst st > 0 then wait_reply handleResponse recv (n + 1) (fold (on_event handleResponse) (recv n) st)
      else Some st)"

record 'm cmd_net =
  nl_cb_alloc_ok :: bool
  nl_send_ret :: int
  nl_recv :: "nat \<Rightarrow> 'm nl_event list"

text \<open>
  \<open>WifiCommand::requestResponse (request)\<close>. When no callback set can be allocated, the result is
  the initial \<open>err\<close>, which is 0.
\<close>

definition requestResponse :: "'m cmd_net \<Rightarrow> ('m \<Rightarrow> 's \<Rightarrow> 's) \<Rightarrow> 's \<Rightarrow> (int \<times> 's) option" where
  "requestResponse net handleResponse s =
     (if \<not> nl_cb_alloc_ok net then Some (0, s)
      else if nl_send_ret net < 0 then Some (nl_send_ret net, s)
      else wait_reply handleResponse (nl_recv net) 0 (1, s))"

text \<open>\<open>WifiCommand::requestResponse ()\<close>: the command creates its own message first.\<close>

definition create_requestResponse ::
  "'m cmd_net \<Rightarrow> int \<times> wifi_request \<Rightarrow> ('m \<Rightarrow> 's \<Rightarrow> 's) \<Rightarrow> 's \<Rightarrow> (int \<times> 's) option" where
  "create_requestResponse net created handleResponse s =
     (if fst created < 0 then Some (fst created, s) else requestResponse net handleResponse s)"

text \<open>
  The exchange of commands that skip their replies, and the pattern of creating a request, giving up
  when the result is a failure, and exchanging it.
\<close>

definition skip_exchange :: "unit cmd_net \<Rightarrow> int run" where
  "skip_exchange net = map_option (\<lambda>(res, _). Inr res) (requestResponse net (\<lambda>_ s. s) ())"

definition creation :: "ub + int \<times> wifi_request \<Rightarrow> int run" where
  "creation c = Some (case c of Inl e \<Rightarrow> Inl e | Inr (res, _) \<Rightarrow> Inr res)"

definition transact :: "unit cmd_net \<Rightarrow> ub + int \<times> wifi_request \<Rightarrow> int run" where
  "transact net c = run_then (creation c) (\<lambda>res. if res < 0 then ret res else skip_exchange net)"

text \<open>The same where the result of the creation is compared with \<open>WIFI_SUCCESS\<close>.\<close>

definition transact_ne :: "unit cmd_net \<Rightarrow> ub + int \<times> wifi_request \<Rightarrow> int run" where
  "transact_ne net c = run_then (creation c) (\<lambda>res. if res \<noteq> WIFI_SUCCESS then ret res else skip_exchange net)"

text \<open>
  \<open>requestEvent\<close> and \<open>requestVendorEvent\<close>: \<open>create_ret\<close>, \<open>send_ret\<close> and \<open>wait_ret\<close> are what
  \<open>create\<close>, \<open>nl_send_auto_complete\<close> and \<open>Condition::wait\<close> return.
\<close>

definition event_result :: "int \<Rightarrow> int \<Rightarrow> int \<Rightarrow> int" where
  "event_result create_ret send_ret wait_ret =
     (if create_ret < 0 then create_ret else if send_ret < 0 then send_ret else wait_ret)"

definition requestEvent :: "int \<Rightarrow> int \<Rightarrow> int \<Rightarrow> int \<Rightarrow> ptr \<Rightarrow> ptr \<Rightarrow> hal_tabs \<Rightarrow> int \<times> hal_tabs" where
  "requestEvent create_ret send_ret wait_ret c func this info =
     (let (res, info1) = wifi_register_handler c func this info
      in if res < 0 then (res, info1)
         else (event_result create_ret send_ret wait_ret, wifi_unregister_handler c info1))"

definition requestVendorEvent ::
  "int \<Rightarrow> int \<Rightarrow> int \<Rightarrow> u32 \<Rightarrow> int \<Rightarrow> ptr \<Rightarrow> ptr \<Rightarrow> hal_tabs \<Rightarrow> int \<times> hal_tabs" where
  "requestVendorEvent create_ret send_ret wait_ret vid subcmd func this info =
     (let (res, info1) = wifi_register_vendor_handler vid subcmd func this info
      in if res < 0 then (res, info1)
         else (event_result create_ret send_ret wait_ret, wifi_unregister_vendor_handler vid subcmd info1))"

section \<open>Dispatch of events\<close>

text \<open>A received event after \<open>WifiEvent::parse\<close>; \<open>None\<close> when parsing fails.\<close>

record hal_event =
  ev_cmd :: int
  ev_vendor_id :: u32
  ev_vendor_subcmd :: int

definition ev_matches :: "hal_event \<Rightarrow> cb_info \<Rightarrow> bool" where
  "ev_matches ev cb \<longleftrightarrow>
     ev_cmd ev = nl_cmd cb \<and>
     (ev_cmd ev = NL80211_CMD_VENDOR \<longrightarrow>
        ev_vendor_id ev = vendor_id cb \<and> ev_vendor_subcmd ev = vendor_subcmd cb)"

definition NL_OK :: int where "NL_OK = 0"
definition NL_SKIP :: int where "NL_SKIP = 1"

text \<open>
  \<open>call\<close> is the effect of a callback with its argument. A plain event has vendor fields 0 in the
  code and they are not compared. The command is referenced for the time of the call.
\<close>

definition internal_valid_message_handler ::
  "(ptr \<Rightarrow> ptr \<Rightarrow> hal_state \<Rightarrow> hal_state) \<Rightarrow> hal_event option \<Rightarrow> hal_state \<Rightarrow> int \<times> hal_state" where
  "internal_valid_message_handler call ev st =
     (case ev of
        None \<Rightarrow> (NL_SKIP, st)
      | Some e \<Rightarrow>
          (case tab_find (ev_matches e) (event_cbs (tabs st)) 0 of
             None \<Rightarrow> (NL_OK, st)
           | Some i \<Rightarrow>
               (let cb = tab_arr (event_cbs (tabs st)) ! i;
                    c = cb_arg cb;
                    st1 = (if c \<noteq> NULL then st\<lparr>live := addRef c (live st)\<rparr> else st);
                    st2 = (if cb_func cb \<noteq> NULL then call (cb_func cb) c st1 else st1);
                    st3 = (if c \<noteq> NULL then st2\<lparr>live := releaseRef c (live st2)\<rparr> else st2)
                in (NL_OK, st3))))"

section \<open>Correctness of requests\<close>

lemma req_thenE:
  assumes "req_then p f = (res, r)" "0 \<le> res"
  obtains r1 where "0 \<le> fst p" "snd p = r1" "f r1 = (res, r)"
  using assms by (auto simp: req_then_def split: if_splits)

lemma le_val_bytes: "v < 256 ^ n \<Longrightarrow> le_val (le_bytes n v) = v"
proof (induction n arbitrary: v)
  case (Suc n)
  then have "v div 256 < 256 ^ n" by (simp add: div_less_iff_less_mult mult.commute)
  moreover have "unat (word_of_nat (v mod 256) :: u8) = v mod 256" by (rule unat_u8_of_nat) simp
  ultimately show ?case using Suc.IH by simp
qed simp

lemma length_le_bytes [simp]: "length (le_bytes n v) = n"
  by (induction n arbitrary: v) auto

lemma le_u32_bytes: "le_u32 (le_bytes 4 (unat (w :: u32))) = w"
  using le_val_bytes [of "unat w" 4] unsigned_less [of w, where 'a = nat] by (simp add: le_u32_def)

lemma req_put_ok:
  assumes "req_put_bytes env a bs r = (res, r')" "0 \<le> res"
  obtains m where "mMsg r = Some m" "mMsg r' = Some (msg_add (Attr a bs) m)" "mIface r' = mIface r" "mFamily r' = mFamily r"
  using assms by (auto simp: req_put_bytes_def Let_def wifi_codes split: option.splits if_splits)

section \<open>Correctness of the assembly\<close>

text \<open>What a sequence of steps stands for: the attributes it adds.\<close>

inductive encodes :: "req_step list \<Rightarrow> nl_attr list \<Rightarrow> bool" where
  none: "encodes [] []"
| put: "encodes ss ts \<Longrightarrow> encodes (Put a bs # ss) (Attr a bs # ts)"
| nest: "encodes inner as \<Longrightarrow> encodes ss ts \<Longrightarrow> encodes (Start n c # inner @ End # ss) (Nest n as # ts)"

named_theorems enc "attributes of assembled requests"

lemma encodes_append: "encodes xs as \<Longrightarrow> encodes ys bs \<Longrightarrow> encodes (xs @ ys) (as @ bs)"
  by (induction rule: encodes.induct) (auto intro: encodes.intros)

lemma encodes_Nil [enc, intro!]: "encodes [] []"
  by (rule encodes.none)

lemma encodes_put [enc]: "encodes [Put a bs] [Attr a bs]"
  by (auto intro: encodes.intros)

lemma encodes_Cons [enc]: "encodes [s] as \<Longrightarrow> encodes ss bs \<Longrightarrow> encodes (s # ss) (as @ bs)"
  using encodes_append [of "[s]" as ss bs] by simp

lemma encodes_nest [enc]: "encodes inner as \<Longrightarrow> encodes (Start n c # inner @ [End]) [Nest n as]"
  using encodes.nest [of inner as "[]" "[]"] by (auto intro: encodes.intros)

lemma encodes_concat:
  "(\<And>x. x \<in> set xs \<Longrightarrow> encodes (f x) (g x)) \<Longrightarrow> encodes (concat (map f xs)) (concat (map g xs))"
  by (induction xs) (auto intro: encodes_append)

abbreviation msg_add_all :: "nl_attr list \<Rightarrow> nl_msg \<Rightarrow> nl_msg" where
  "msg_add_all ts m \<equiv> fold msg_add ts m"

lemma fold_msg_add_open:
  "nm_open m = (n, as) # os \<Longrightarrow> msg_add_all ts m = m\<lparr>nm_open := (n, as @ ts) # os\<rparr>"
  by (induction ts arbitrary: m as) (auto simp: msg_add_def)

lemma fold_msg_add_top:
  "nm_open m = [] \<Longrightarrow> msg_add_all ts m = m\<lparr>nm_attrs := nm_attrs m @ ts\<rparr>"
  by (induction ts arbitrary: m) (auto simp: msg_add_def)

text \<open>A sequence that runs through has added its attributes, and goes on with the rest.\<close>

lemma assemble_encodes:
  assumes "encodes ss ts"
  shows "mMsg r = Some m \<Longrightarrow> assemble env (ss @ rest) nests (res0, r) = Inr (res, r') \<Longrightarrow>
    (\<And>s r1. assemble env rest nests (s, r1) = Inr (res, r') \<Longrightarrow> mMsg r1 = Some (msg_add_all ts m) \<Longrightarrow> P) \<Longrightarrow>
    0 \<le> res \<Longrightarrow> P"
  using assms
proof (induction arbitrary: r m rest nests res0 P rule: encodes.induct)
  case none
  then show ?case by simp
next
  case (put ss ts a bs)
  from put.prems(1,2,4) obtain s1 r1 where
    "assemble env (ss @ rest) nests (s1, r1) = Inr (res, r')" "mMsg r1 = Some (msg_add (Attr a bs) m)"
    by (auto simp: req_put_bytes_def Let_def split: if_splits prod.splits)
  with put.IH [OF _ this(1) _ put.prems(4)] put.prems(3) show ?case by auto
next
  case (nest inner as ss ts n c)
  have *: "(Start n c # inner @ End # ss) @ rest = Start n c # (inner @ (End # ss @ rest))" by simp
  let ?m = "m\<lparr>nm_open := (n, []) # nm_open m\<rparr>"
  show ?case
  proof (cases "req_put env m n 0 < 0")
    case True
    with nest.prems(1,2,4) have "assemble env (inner @ (End # ss @ rest)) (False # nests) (res0, r) = Inr (res, r')"
      unfolding * by (auto simp: wifi_codes split: if_splits)
    from nest.IH(1) [OF nest.prems(1) this _ nest.prems(4)] show ?thesis by auto
  next
    case False
    with nest.prems(1,2) have a: "assemble env (inner @ (End # ss @ rest)) (True # nests) (res0, attr_start n r) = Inr (res, r')"
      and m: "mMsg (attr_start n r) = Some ?m"
      unfolding * by (auto simp: attr_start_def)
    show ?thesis
    proof (rule nest.IH(1) [OF m a _ nest.prems(4)])
      fix s r1 assume "assemble env (End # ss @ rest) (True # nests) (s, r1) = Inr (res, r')"
        and r1: "mMsg r1 = Some (msg_add_all as ?m)"
      then have "assemble env (ss @ rest) nests (s, attr_end r1) = Inr (res, r')" by simp
      moreover have "mMsg (attr_end r1) = Some (msg_add (Nest n as) m)"
        using r1 by (simp add: attr_end_def fold_msg_add_open [of ?m n "[]"])
      ultimately show P using nest.IH(2) [of "attr_end r1" _ rest nests s, OF _ _ _ nest.prems(4)] nest.prems(3)
        by auto
    qed
  qed
qed

lemma create_vendor_message:
  assumes "req_create_vendor env vid subcmd r = (res, r')" "0 \<le> res"
  shows "\<exists>m. mMsg r' = Some m \<and> nm_family m = mFamily r \<and> nm_cmd m = NL80211_CMD_VENDOR \<and> nm_open m = [] \<and>
           nm_attrs m = [Attr NL80211_ATTR_VENDOR_ID (le_bytes 4 (unat vid)),
                         Attr NL80211_ATTR_VENDOR_SUBCMD (le_bytes 4 (unat subcmd))] @
             (if mIface r = -1 then []
              else [Attr NL80211_ATTR_IFINDEX_id (le_bytes 4 (unat (word_of_int (mIface r) :: u32)))])"
  using assms
  by (auto simp: req_create_vendor_def req_then_def req_create_def req_put_u32_def req_put_bytes_def
      msg_add_def Let_def wifi_codes split: if_splits option.splits)

abbreviation vendor_header :: "u32 \<Rightarrow> u32 \<Rightarrow> int \<Rightarrow> nl_attr list" where
  "vendor_header vid subcmd iface \<equiv>
     [Attr NL80211_ATTR_VENDOR_ID (le_bytes 4 (unat vid)),
      Attr NL80211_ATTR_VENDOR_SUBCMD (le_bytes 4 (unat subcmd))] @
     (if iface = -1 then [] else [Attr NL80211_ATTR_IFINDEX_id (le_bytes 4 (unat (word_of_int iface :: u32)))])"

lemma vendor_request_carries:
  assumes "encodes steps ts" "vendor_request env subcmd steps r = Inr (res, r')" "0 \<le> res"
  shows "\<exists>m. mMsg r' = Some m \<and> nm_family m = mFamily r \<and> nm_cmd m = NL80211_CMD_VENDOR \<and> nm_open m = [] \<and>
           nm_attrs m = vendor_header GOOGLE_OUI subcmd (mIface r) @ ts"
proof -
  obtain res1 r1 where c: "req_create_vendor env GOOGLE_OUI subcmd r = (res1, r1)" by force
  with assms(2,3) have a: "0 \<le> res1" "assemble env (steps @ []) [] (res1, r1) = Inr (res, r')"
    by (auto simp: vendor_request_def split: if_splits)
  from create_vendor_message [OF c a(1)] obtain m where m: "mMsg r1 = Some m" "nm_family m = mFamily r"
    "nm_cmd m = NL80211_CMD_VENDOR" "nm_open m = []" "nm_attrs m = vendor_header GOOGLE_OUI subcmd (mIface r)"
    by auto
  have "mMsg r' = Some (msg_add_all ts m)"
    by (rule assemble_encodes [OF assms(1) m(1) a(2) _ assms(3)]) simp
  with m show ?thesis by (simp add: fold_msg_add_top)
qed

text \<open>
  C10: whatever the order of calls, checks and nests a request is assembled with, when its assembly
  ends without error the message is a vendor command of the request's family that carries the
  vendor id, the subcommand, the interface index when there is an interface, and then exactly the
  attribute trees that the steps stand for, with every nest closed.
\<close>

theorem request_assembly_refines:
  assumes "encodes steps ts" "vendor_request env subcmd steps r = Inr (res, r')" "0 \<le> res"
  shows "\<exists>m. mMsg r' = Some m \<and> nm_family m = mFamily r \<and> nm_cmd m = NL80211_CMD_VENDOR \<and> nm_open m = [] \<and>
           nm_attrs m = vendor_header GOOGLE_OUI subcmd (mIface r) @ ts"
  by (rule vendor_request_carries [OF assms])

definition roomy :: req_env where
  "roomy = \<lparr>req_alloc = True, req_put = (\<lambda>_ _ _. 0)\<rparr>"

lemma roomy_create: "req_create_vendor roomy vid subcmd r = (res, r') \<Longrightarrow> res = 0 \<and> (\<exists>m. mMsg r' = Some m)"
  by (auto simp: req_create_vendor_def req_then_def req_create_def req_put_u32_def req_put_bytes_def
      roomy_def Let_def wifi_codes split: if_splits)

text \<open>Where nothing is refused, a sequence runs through.\<close>

lemma roomy_assemble:
  assumes "encodes ss ts"
  shows "mMsg r = Some m \<Longrightarrow> \<exists>r1. assemble roomy (ss @ rest) nests (0, r) = assemble roomy rest nests (0, r1) \<and>
           mMsg r1 = Some (msg_add_all ts m)"
  using assms
proof (induction arbitrary: r m rest nests rule: encodes.induct)
  case none
  then show ?case by auto
next
  case (put ss ts a bs)
  then show ?case by (auto simp: req_put_bytes_def roomy_def)
next
  case (nest inner as ss ts n c)
  let ?m = "m\<lparr>nm_open := (n, []) # nm_open m\<rparr>"
  from nest.prems have "mMsg (attr_start n r) = Some ?m" by (simp add: attr_start_def)
  from nest.IH(1) [OF this, of "End # ss @ rest" "True # nests"] obtain r1 where
    r1: "assemble roomy (inner @ End # ss @ rest) (True # nests) (0, attr_start n r) =
         assemble roomy (End # ss @ rest) (True # nests) (0, r1)" "mMsg r1 = Some (msg_add_all as ?m)" by auto
  then have "mMsg (attr_end r1) = Some (msg_add (Nest n as) m)"
    by (simp add: attr_end_def fold_msg_add_open [of ?m n "[]"])
  from nest.IH(2) [OF this, of rest nests] r1(1) nest.prems show ?case by (auto simp: roomy_def)
qed

lemma roomy_request:
  assumes "encodes steps ts"
  shows "\<exists>r'. vendor_request roomy subcmd steps r = Inr (0, r')"
proof -
  obtain res r1 where c: "req_create_vendor roomy GOOGLE_OUI subcmd r = (res, r1)" by force
  from roomy_create [OF c] obtain m where "res = 0" "mMsg r1 = Some m" by blast
  with c roomy_assemble [OF assms this(2), of "[]" "[]"] show ?thesis by (auto simp: vendor_request_def)
qed

theorem request_assembly_refines_witness:
  "\<exists>r' m. vendor_request roomy 6 [Start 197 False, Put 8 [80, 76, 0], End] (new_request 20 5) = Inr (0, r') \<and>
     mMsg r' = Some m \<and> drop 3 (nm_attrs m) = [Nest 197 [Attr 8 [80, 76, 0]]]"
proof -
  have e: "encodes ([Start 197 False, Put 8 [80, 76, 0], End]) [Nest 197 [Attr 8 [80, 76, 0]]]"
    using encodes_nest [OF encodes_put] by simp
  obtain r' where "vendor_request roomy 6 [Start 197 False, Put 8 [80, 76, 0], End] (new_request 20 5) = Inr (0, r')"
    using roomy_request [OF e] by blast
  with request_assembly_refines [OF e this] show ?thesis by (auto simp: new_request_def)
qed

section \<open>Safe assembly\<close>

text \<open>
  The one thing the code needs of libnl: a message that has no room for an empty attribute has no
  room for any other.
\<close>

definition nla_room :: "req_env \<Rightarrow> bool" where
  "nla_room env \<longleftrightarrow> (\<forall>m a b n. req_put env m a 0 < 0 \<longrightarrow> req_put env m b n < 0)"

lemma nla_room_roomy: "nla_room roomy"
  by (simp add: nla_room_def roomy_def)

text \<open>A null nest is noticed when the next call that can fail comes before its end.\<close>

fun notices :: "req_step list \<Rightarrow> bool" where
  "notices (Put a bs # ss) = True"
| "notices (Start n c # ss) = (c \<or> notices ss)"
| "notices _ = False"

fun guarded :: "req_step list \<Rightarrow> bool" where
  "guarded [] = True"
| "guarded (Start n c # ss) = ((c \<or> notices ss) \<and> guarded ss)"
| "guarded (Fault e # ss) = False"
| "guarded (s # ss) = guarded ss"

text \<open>The number of open nests after a sequence; \<open>None\<close> when it ends a nest too many or faults.\<close>

fun balance :: "req_step list \<Rightarrow> nat \<Rightarrow> nat option" where
  "balance [] d = Some d"
| "balance (Start n c # ss) d = balance ss (Suc d)"
| "balance (End # ss) d = (if d = 0 then None else balance ss (d - 1))"
| "balance (Fault e # ss) d = None"
| "balance (_ # ss) d = balance ss d"

lemma balance_append [simp]: "balance (xs @ ys) d = Option.bind (balance xs d) (balance ys)"
  by (induction xs d rule: balance.induct) auto

lemma balance_concat:
  "(\<And>x d. x \<in> set xs \<Longrightarrow> balance (f x) d = Some d) \<Longrightarrow> balance (concat (map f xs)) d = Some d"
  by (induction xs) auto

lemma balance_map_puts [simp]:
  "balance (map (\<lambda>(a, v). put_u32 a v) ps) d = Some d" "balance (map (put_addr a) as) d = Some d"
  by (induction ps) (auto simp: put_u32_def, induction as, auto simp: put_addr_def)

lemma notices_append: "notices xs \<Longrightarrow> notices (xs @ ys)"
  by (induction xs rule: notices.induct) auto

lemma guarded_append: "guarded xs \<Longrightarrow> guarded ys \<Longrightarrow> guarded (xs @ ys)"
  by (induction xs rule: guarded.induct) (auto intro: notices_append)

lemma guarded_concat: "(\<And>x. x \<in> set xs \<Longrightarrow> guarded (f x)) \<Longrightarrow> guarded (concat (map f xs))"
  by (induction xs) (auto intro: guarded_append)

text \<open>
  Where a message always has room for an empty attribute, or where every null nest is noticed, the
  assembly stays within the language.
\<close>

definition nests_ok :: "req_env \<Rightarrow> bool" where
  "nests_ok env \<longleftrightarrow> (\<forall>m n. 0 \<le> req_put env m n 0)"

lemma nests_ok_roomy: "nests_ok roomy"
  by (simp add: nests_ok_def roomy_def)

lemma refused_notices:
  assumes "nla_room env" "mMsg r = Some m" "req_put env m a 0 < 0"
  shows "notices ss \<Longrightarrow> \<exists>res r'. assemble env ss nests (result, r) = Inr (res, r')"
  using assms
  by (induction ss arbitrary: nests rule: notices.induct)
     (auto simp: nla_room_def req_put_bytes_def Let_def)

lemma assemble_total:
  "nests_ok env \<or> nla_room env \<and> guarded ss \<Longrightarrow> balance ss d \<noteq> None \<Longrightarrow> mMsg r \<noteq> None \<Longrightarrow>
    \<exists>res r'. assemble env ss (replicate d True) (result, r) = Inr (res, r')"
proof (induction ss arbitrary: d result r)
  case (Cons s ss)
  then obtain m where m: "mMsg r = Some m" by auto
  show ?case
  proof (cases s)
    case (Start n c)
    have s: "mMsg (attr_start n r) \<noteq> None" using m by (simp add: attr_start_def)
    show ?thesis
    proof (cases "req_put env m n 0 < 0")
      case True
      then have "\<not> nests_ok env" by (auto simp: nests_ok_def not_le)
      with Cons.prems(1) Start have "nla_room env" "c \<or> notices ss" by auto
      with True Start m refused_notices [of env r m n ss] show ?thesis by auto
    next
      case False
      with Cons.IH [of "Suc d" "attr_start n r" result] Cons.prems Start m s show ?thesis by auto
    qed
  next
    case End
    have "mMsg (attr_end r) \<noteq> None" using m by (simp add: attr_end_def)
    with Cons.IH [of "d - 1" "attr_end r" result] Cons.prems End show ?thesis by (cases d) auto
  next
    case (Put a bs)
    with Cons m show ?thesis by (auto simp: req_put_bytes_def Let_def)
  next
    case (Put_ignored a bs)
    with Cons m show ?thesis by (auto simp: req_put_bytes_def Let_def)
  qed (use Cons.prems in auto)
qed simp

lemma vendor_request_total:
  assumes "nests_ok env \<or> nla_room env \<and> guarded steps" "balance steps 0 \<noteq> None"
  shows "\<exists>res r'. vendor_request env subcmd steps r = Inr (res, r')"
proof (cases "req_create_vendor env GOOGLE_OUI subcmd r")
  case (Pair res1 r1)
  show ?thesis
  proof (cases "res1 < 0")
    case True
    with Pair show ?thesis by (simp add: vendor_request_def)
  next
    case False
    with create_vendor_message [OF Pair] have "mMsg r1 \<noteq> None" by auto
    from assemble_total [OF assms this, of res1] Pair False show ?thesis
      by (auto simp: vendor_request_def)
  qed
qed

lemma or_success_request_total:
  assumes "nests_ok env \<or> nla_room env \<and> guarded steps" "balance steps 0 \<noteq> None"
  shows "\<exists>res r'. or_success (vendor_request env subcmd steps r) = Inr (res, r')"
  using vendor_request_total [OF assms, of subcmd r] by (auto simp: or_success_def)

section \<open>Correctness of the reply loop\<close>

definition is_valid :: "'m nl_event \<Rightarrow> bool" where
  "is_valid e \<longleftrightarrow> (case e of Ev_valid _ \<Rightarrow> True | _ \<Rightarrow> False)"

text \<open>The replies among the callbacks of the first \<open>n\<close> calls, in order.\<close>

fun replies_of :: "'m nl_event list \<Rightarrow> 'm list" where
  "replies_of [] = []"
| "replies_of (Ev_valid m # es) = m # replies_of es"
| "replies_of (e # es) = replies_of es"

lemma replies_of_append [simp]: "replies_of (xs @ ys) = replies_of xs @ replies_of ys"
  by (induction xs rule: replies_of.induct) auto

lemma fold_valid:
  "list_all is_valid es \<Longrightarrow> fold (on_event h) es (err, s) = (err, fold h (replies_of es) s)"
proof (induction es arbitrary: s)
  case (Cons e es)
  then show ?case by (cases e) (auto simp: is_valid_def)
qed simp

lemma wait_reply_skip:
  assumes "0 < err" "\<forall>j < k. list_all is_valid (recv (n + j))"
  shows "wait_reply h recv n (err, s) =
         wait_reply h recv (n + k) (err, fold h (concat (map (\<lambda>j. replies_of (recv (n + j))) [0..<k])) s)"
  using assms(2)
proof (induction k)
  case (Suc k)
  then have "wait_reply h recv n (err, s) =
      wait_reply h recv (n + k) (err, fold h (concat (map (\<lambda>j. replies_of (recv (n + j))) [0..<k])) s)"
    by simp
  also have "\<dots> = wait_reply h recv (n + Suc k)
      (err, fold h (concat (map (\<lambda>j. replies_of (recv (n + j))) [0..<Suc k])) s)"
    using Suc.prems assms(1) by (subst wait_reply.simps) (simp add: fold_valid)
  finally show ?case .
qed simp

text \<open>
  An exchange that ends with \<open>res\<close> in call \<open>k\<close>: the request is sent, the earlier calls bring only
  replies (or nothing), and call \<open>k\<close> brings replies and then the end.
\<close>

fun ends_with :: "'m nl_event \<Rightarrow> int \<Rightarrow> bool" where
  "ends_with Ev_ack res \<longleftrightarrow> res = 0"
| "ends_with Ev_finish res \<longleftrightarrow> res = 0"
| "ends_with (Ev_error e) res \<longleftrightarrow> res = e \<and> e \<le> 0"
| "ends_with (Ev_valid m) res \<longleftrightarrow> False"

definition exchange_ends :: "'m cmd_net \<Rightarrow> nat \<Rightarrow> int \<Rightarrow> bool" where
  "exchange_ends net k res \<longleftrightarrow>
     nl_cb_alloc_ok net \<and> 0 \<le> nl_send_ret net \<and>
     list_all (\<lambda>j. list_all is_valid (nl_recv net j)) [0..<k] \<and>
     nl_recv net k \<noteq> [] \<and> list_all is_valid (butlast (nl_recv net k)) \<and> ends_with (last (nl_recv net k)) res"

definition net_replies :: "'m cmd_net \<Rightarrow> nat \<Rightarrow> 'm list" where
  "net_replies net k = concat (map (\<lambda>j. replies_of (nl_recv net j)) [0..<Suc k])"

lemma exchange_returns:
  assumes "exchange_ends net k res"
  shows "requestResponse net h s = Some (res, fold h (net_replies net k) s)"
proof -
  let ?s = "fold h (concat (map (\<lambda>j. replies_of (nl_recv net j)) [0..<k])) s"
  obtain es ev where ev: "nl_recv net k = es @ [ev]" "list_all is_valid es" "ends_with ev res"
    using assms unfolding exchange_ends_def by (metis append_butlast_last_id)
  have "requestResponse net h s = wait_reply h (nl_recv net) k (1, ?s)"
    using assms wait_reply_skip [of 1 k "nl_recv net" 0 h s]
    by (simp add: requestResponse_def exchange_ends_def list_all_iff)
  also have "\<dots> = Some (res, fold h (replies_of (nl_recv net k)) ?s)"
    using ev by (subst wait_reply.simps, subst wait_reply.simps, cases ev) (auto simp: fold_valid)
  finally show ?thesis by (simp add: net_replies_def)
qed

lemma create_exchange_returns:
  "exchange_ends net k res \<Longrightarrow> 0 \<le> fst created \<Longrightarrow>
   create_requestResponse net created h s = Some (res, fold h (net_replies net k) s)"
  by (simp add: create_requestResponse_def exchange_returns)

lemma skip_exchange_returns: "exchange_ends net k res \<Longrightarrow> skip_exchange net = ret res"
  by (simp add: skip_exchange_def ret_def exchange_returns)

lemma wait_reply_nonpos: "wait_reply h recv n st = Some r \<Longrightarrow> fst r \<le> 0"
  by (rule wait_reply.raw_induct [where P = "\<lambda>h recv n st r. fst r \<le> 0", rotated])
     (assumption, metis linorder_not_less option.inject)

lemma requestResponse_nonpos: "requestResponse net h s = Some (res, s') \<Longrightarrow> res \<le> 0"
  using wait_reply_nonpos [of h "nl_recv net" 0 "(1, s)" "(res, s')"]
  by (auto simp: requestResponse_def split: if_splits)

lemma skip_exchange_nonpos: "skip_exchange net = ret res \<Longrightarrow> res \<le> 0"
  by (auto simp: skip_exchange_def ret_def dest: requestResponse_nonpos)

lemma creation_Inr [simp]: "creation (Inr (res, r)) = ret res"
  by (simp add: creation_def ret_def)

lemma creation_eq_ret: "creation c = ret res \<longleftrightarrow> (\<exists>r. c = Inr (res, r))"
  by (auto simp: creation_def ret_def split: sum.splits)

lemma transact_nonpos: "transact net c = ret res \<Longrightarrow> res \<le> 0"
  by (auto simp: transact_def run_then_eq_ret dest: skip_exchange_nonpos split: if_splits)

lemma transact_returns:
  "exchange_ends net k e \<Longrightarrow> c = Inr (res, r) \<Longrightarrow> transact net c = ret (if res < 0 then res else e)"
  by (simp add: transact_def skip_exchange_returns)

lemma transact_ne_returns:
  "exchange_ends net k e \<Longrightarrow> c = Inr (res, r) \<Longrightarrow> transact_ne net c = ret (if res \<noteq> WIFI_SUCCESS then res else e)"
  by (simp add: transact_ne_def skip_exchange_returns)

lemma or_success_Inr: "or_success c = Inr (res, r) \<Longrightarrow> res \<le> 0"
  by (auto simp: or_success_def wifi_codes split: sum.splits)

lemma or_success_total: "c = Inr (res, r) \<Longrightarrow> \<exists>res'. or_success c = Inr (res', r)"
  by (simp add: or_success_def)

lemma transact_ne_nonpos: "transact_ne net (or_success c) = ret res \<Longrightarrow> res \<le> 0"
  by (auto simp: transact_ne_def run_then_eq_ret creation_eq_ret wifi_codes
      dest: skip_exchange_nonpos or_success_Inr split: if_splits)

text \<open>
  C21: when the kernel answers, \<open>requestResponse\<close> returns: after any number of calls that bring
  only replies (or nothing), a call that ends with an acknowledgement, an end-of-dump or an error
  \<open>e \<le> 0\<close> makes it return 0 or \<open>e\<close>, and the command has handled exactly the replies received, in
  order.
\<close>

theorem requestResponse_returns:
  assumes "nl_cb_alloc_ok net" "0 \<le> nl_send_ret net"
    and "\<forall>j < k. list_all is_valid (nl_recv net j)"
    and "nl_recv net k = es @ [last_ev]" "list_all is_valid es"
    and "last_ev \<in> {Ev_ack, Ev_finish, Ev_error e}" "e \<le> 0"
  shows "requestResponse net h s =
    Some (if last_ev = Ev_error e then e else 0,
          fold h (concat (map (\<lambda>j. replies_of (nl_recv net j)) [0..<Suc k])) s)"
  using exchange_returns [of net k "if last_ev = Ev_error e then e else 0" h s] assms
  by (auto simp: exchange_ends_def net_replies_def list_all_iff)

definition acking_net :: "nat cmd_net" where
  "acking_net = \<lparr>nl_cb_alloc_ok = True, nl_send_ret = 40,
     nl_recv = (\<lambda>n. if n = 0 then [Ev_valid 3, Ev_valid 4] else [Ev_valid 5, Ev_ack])\<rparr>"

theorem requestResponse_returns_witness:
  "requestResponse acking_net (\<lambda>m s. s @ [m]) [] = Some (0, [3, 4, 5])"
  using requestResponse_returns [of acking_net 1 "[Ev_valid 5]" Ev_ack 0 "\<lambda>m s. s @ [m]" "[]"]
  by (simp add: acking_net_def is_valid_def)

lemma wait_reply_diverges:
  fixes h :: "'m \<Rightarrow> 's \<Rightarrow> 's"
  assumes "wait_reply h recv n st = Some r"
  shows "(\<forall>j. list_all is_valid (recv j)) \<longrightarrow> fst st \<le> 0"
  using assms
proof (rule wait_reply.raw_induct [where P = "\<lambda>h recv n st r. (\<forall>j. list_all is_valid (recv j)) \<longrightarrow> fst st \<le> 0", rotated], intro impI)
  fix wr :: "('m \<Rightarrow> 's \<Rightarrow> 's) \<Rightarrow> (nat \<Rightarrow> 'm nl_event list) \<Rightarrow> nat \<Rightarrow> int \<times> 's \<Rightarrow> (int \<times> 's) option"
    and h recv n st r
  assume IH: "\<And>h recv n st r. wr h recv n st = Some r \<Longrightarrow> (\<forall>j. list_all is_valid (recv j)) \<longrightarrow> fst st \<le> 0"
    and step: "(if 0 < fst st then wr h recv (n + 1) (fold (on_event h) (recv n) st) else Some st) = Some r"
    and valid: "\<forall>j. list_all is_valid (recv j)"
  obtain err s where st: "st = (err, s)" by (cases st)
  show "fst st \<le> 0"
  proof (rule ccontr)
    assume pos: "\<not> fst st \<le> 0"
    with step st valid have "wr h recv (n + 1) (err, fold h (replies_of (recv n)) s) = Some r"
      by (simp add: fold_valid)
    with IH valid pos st show False by fastforce
  qed
qed

text \<open>
  Nothing else ends the loop. If no call of \<open>nl_recvmsgs\<close> ever brings an acknowledgement, an
  end or an error message, as when every call fails, \<open>requestResponse\<close> does not return.
\<close>

lemma requestResponse_spins:
  assumes "nl_cb_alloc_ok net" "0 \<le> nl_send_ret net" "\<forall>j. list_all is_valid (nl_recv net j)"
  shows "requestResponse net h s = None"
proof (cases "requestResponse net h s")
  case (Some r)
  with assms wait_reply_diverges [of h "nl_recv net" 0 "(1, s)" r] show ?thesis
    by (simp add: requestResponse_def)
qed

text \<open>A failed allocation is reported as success, although nothing was sent.\<close>

lemma requestResponse_no_memory: "\<not> nl_cb_alloc_ok net \<Longrightarrow> requestResponse net h s = Some (0, s)"
  by (simp add: requestResponse_def)

section \<open>Correctness of event requests\<close>

lemma handlers_unregister:
  "hal_inv info \<Longrightarrow> c \<noteq> NL80211_CMD_VENDOR \<Longrightarrow>
   handlers (wifi_unregister_handler c info) = remove_first (\<lambda>cb. nl_cmd cb = c) (handlers info)"
  by (simp add: wifi_unregister_handler_def remove_spec(4))

lemma handlers_unregister_vendor:
  "hal_inv info \<Longrightarrow>
   handlers (wifi_unregister_vendor_handler v s info) = remove_first (is_vendor_cb v s) (handlers info)"
  by (simp add: wifi_unregister_vendor_handler_def remove_spec(4))

text \<open>
  An event request leaves the handler table as it found it, on success and on every error,
  provided nobody else handles that vendor event; with a full table it returns the error and
  changes nothing.
\<close>

lemma requestVendorEvent_restores:
  assumes "hal_inv info" "find (is_vendor_cb vid subcmd) (handlers info) = None"
    and "requestVendorEvent cr sr wr vid subcmd func this info = (res, info')"
  shows "handlers info' = handlers info \<and> cmds info' = cmds info \<and>
         res = (if length (handlers info) < DEFAULT_EVENT_CB_SIZE then event_result cr sr wr
                else WIFI_ERROR_OUT_OF_MEMORY)"
proof -
  define cb where "cb = \<lparr>nl_cmd = NL80211_CMD_VENDOR, vendor_id = vid, vendor_subcmd = subcmd,
    cb_func = func, cb_arg = this\<rparr>"
  have isv: "is_vendor_cb vid subcmd cb" by (simp add: cb_def is_vendor_cb_def)
  show ?thesis
  proof (cases "length (handlers info) < DEFAULT_EVENT_CB_SIZE")
    case True
    with add_event_cb_spec [OF assms(1), of cb] obtain i1
      where i1: "add_event_cb cb info = (WIFI_SUCCESS, i1)" "hal_inv i1"
        "handlers i1 = handlers info @ [cb]" "cmds i1 = cmds info" by auto
    then have "handlers (wifi_unregister_vendor_handler vid subcmd i1) = handlers info"
      using isv assms(2) by (simp add: handlers_unregister_vendor remove_first_append find_None_iff)
    with i1 assms(3) True show ?thesis
      by (auto simp: requestVendorEvent_def wifi_register_vendor_handler_def cb_def wifi_codes
          wifi_unregister_vendor_handler_def)
  next
    case False
    with add_event_cb_spec [OF assms(1), of cb] assms(3) show ?thesis
      by (auto simp: requestVendorEvent_def wifi_register_vendor_handler_def cb_def wifi_codes)
  qed
qed

text \<open>
  Removal takes the first matching entry. When the event already has a handler, an event request
  removes that older handler at its end and leaves its own entry, which points to a command that
  is about to go away.
\<close>

lemma requestVendorEvent_removes_older:
  "requestVendorEvent 0 0 0 0x1A11 7 1 99 one_handler = (res, info') \<Longrightarrow>
   map cb_arg (handlers one_handler) = [77] \<and> map cb_arg (handlers info') = [99]"
proof -
  assume req: "requestVendorEvent 0 0 0 0x1A11 7 1 99 one_handler = (res, info')"
  obtain i1 where i1: "wifi_register_vendor_handler 0x1A11 7 1 99 one_handler = (WIFI_SUCCESS, i1)" "hal_inv i1"
    "handlers i1 = handlers one_handler @ [\<lparr>nl_cmd = NL80211_CMD_VENDOR, vendor_id = 0x1A11,
       vendor_subcmd = 7, cb_func = 1, cb_arg = 99\<rparr>]"
    using add_event_cb_spec [of one_handler "\<lparr>nl_cmd = NL80211_CMD_VENDOR, vendor_id = 0x1A11,
       vendor_subcmd = 7, cb_func = 1, cb_arg = 99\<rparr>"] one_handler_list
    by (auto simp: wifi_register_vendor_handler_def DEFAULT_EVENT_CB_SIZE_def)
  then show ?thesis
    using req one_handler_list handlers_unregister_vendor [OF i1(2), of "0x1A11" 7]
    by (auto simp: requestVendorEvent_def wifi_codes is_vendor_cb_def)
qed

section \<open>Correctness of the dispatch\<close>

lemma dispatch_spec:
  assumes "hal_inv (tabs st)"
  shows "internal_valid_message_handler call (Some e) st =
    (NL_OK, case find (ev_matches e) (handlers (tabs st)) of
              None \<Rightarrow> st
            | Some cb \<Rightarrow>
                (let c = cb_arg cb;
                     st1 = (if c \<noteq> NULL then st\<lparr>live := addRef c (live st)\<rparr> else st);
                     st2 = (if cb_func cb \<noteq> NULL then call (cb_func cb) c st1 else st1)
                 in if c \<noteq> NULL then st2\<lparr>live := releaseRef c (live st2)\<rparr> else st2))"
proof (cases "tab_find (ev_matches e) (event_cbs (tabs st)) 0")
  case None
  then show ?thesis
    using assms tab_find_abs(1) [of "event_cbs (tabs st)" "ev_matches e"]
    by (simp add: internal_valid_message_handler_def hal_inv_def)
next
  case (Some i)
  then show ?thesis
    using assms tab_find_abs(2) [of "event_cbs (tabs st)" "ev_matches e" i]
    by (simp add: internal_valid_message_handler_def hal_inv_def Let_def)
qed

text \<open>
  An event goes to the first registered handler that matches it and to no other; the command
  it is registered with holds one more reference while the callback runs than before, so that a
  callback that drops the registry's reference does not delete the command it runs in, and the
  extra reference is gone afterwards.
\<close>

lemma dispatch_first_handler:
  assumes "hal_inv (tabs st)" "find (ev_matches e) (handlers (tabs st)) = Some cb"
    and "cb_func cb \<noteq> NULL" "cb_arg cb \<noteq> NULL"
    and "st2 = call (cb_func cb) (cb_arg cb) (st\<lparr>live := addRef (cb_arg cb) (live st)\<rparr>)"
  shows "internal_valid_message_handler call (Some e) st =
           (NL_OK, st2\<lparr>live := releaseRef (cb_arg cb) (live st2)\<rparr>) \<and>
         addRef (cb_arg cb) (live st) (cb_arg cb) = live st (cb_arg cb) + 1 \<and>
         (live st2 (cb_arg cb) = live st (cb_arg cb) + 1 \<longrightarrow>
            live (snd (internal_valid_message_handler call (Some e) st)) (cb_arg cb) = live st (cb_arg cb))"
  using assms by (simp add: dispatch_spec addRef_def releaseRef_def Let_def)

end
