(* ===== verification/Hal_Events.thy ===== *)
theory Hal_Events
  imports Hal_Command
begin

text \<open>
  What the commands with events have in common (\<open>wifi_hal.cpp\<close>, \<open>gscan.cpp\<close>, \<open>rtt.cpp\<close>): they are
  registered under an id, started with one or more exchanges, register themselves for vendor events,
  and are cancelled by id. The locale \<open>event_command\<close> states what a class of commands promises about
  the handler table; what follows for the functions of the HAL is proved once inside it.
\<close>

section \<open>Registration of events\<close>

abbreviation event_cb :: "ptr \<Rightarrow> ptr \<Rightarrow> int \<Rightarrow> cb_info" where
  "event_cb func p e \<equiv> \<lparr>nl_cmd = NL80211_CMD_VENDOR, vendor_id = GOOGLE_OUI, vendor_subcmd = e,
     cb_func = func, cb_arg = p\<rparr>"

abbreviation handles :: "int \<Rightarrow> cb_info \<Rightarrow> bool" where
  "handles e cb \<equiv> is_vendor_cb GOOGLE_OUI e cb"

text \<open>
  A series of \<open>registerVendorHandler (GOOGLE_OUI, e)\<close>, whose results no command looks at, and of
  \<open>unregisterVendorHandler (GOOGLE_OUI, e)\<close>.
\<close>

definition register_events :: "int list \<Rightarrow> ptr \<Rightarrow> ptr \<Rightarrow> hal_tabs \<Rightarrow> hal_tabs" where
  "register_events es func p info =
     fold (\<lambda>e t. snd (wifi_register_vendor_handler GOOGLE_OUI e func p t)) es info"

definition unregister_events :: "int list \<Rightarrow> hal_tabs \<Rightarrow> hal_tabs" where
  "unregister_events es info = fold (wifi_unregister_vendor_handler GOOGLE_OUI) es info"

text \<open>
  The body of the functions that start a command: \<open>new\<close> gives the command \<open>p\<close> its first reference,
  the command is registered under its id and started; a failure of either is undone.
\<close>

definition start_registered ::
  "(hal_tabs \<Rightarrow> (int \<times> hal_tabs) run) \<Rightarrow> ptr \<Rightarrow> int \<Rightarrow> hal_state \<Rightarrow> (wifi_error \<times> hal_state) run" where
  "start_registered start p i st =
     (let st0 = st\<lparr>live := (live st)(p := 1)\<rparr>;
          (res, info) = wifi_register_cmd i p (tabs st0)
      in if res \<noteq> WIFI_SUCCESS then ret (res, st0\<lparr>tabs := info, live := releaseRef p (live st0)\<rparr>)
         else run_then (start info)
           (\<lambda>(res2, info2).
              if res2 \<noteq> WIFI_SUCCESS
              then ret (res2, st0\<lparr>tabs := snd (wifi_unregister_cmd i info2), live := releaseRef p (live st0)\<rparr>)
              else ret (res2, st0\<lparr>tabs := info2\<rparr>)))"

text \<open>A cancellation that works on the tables, as a step on the whole state.\<close>

definition on_tabs :: "(hal_tabs \<Rightarrow> (int \<times> hal_tabs) run) \<Rightarrow> hal_state \<Rightarrow> hal_state run" where
  "on_tabs cancel st = run_then (cancel (tabs st)) (\<lambda>(_, t). ret (st\<lparr>tabs := t\<rparr>))"

text \<open>
  Id -1 in the functions that stop a command: a temporary command \<open>q\<close> is created, cancelled and
  released.
\<close>

definition cancel_temporary ::
  "(hal_tabs \<Rightarrow> (int \<times> hal_tabs) run) \<Rightarrow> ptr \<Rightarrow> hal_state \<Rightarrow> (wifi_error \<times> hal_state) run" where
  "cancel_temporary cancel q st =
     run_then (on_tabs cancel (st\<lparr>live := (live st)(q := 1)\<rparr>))
       (\<lambda>st1. ret (WIFI_SUCCESS, st1\<lparr>live := releaseRef q (live st1)\<rparr>))"

section \<open>Facts about the handler table\<close>

lemma start_registered_runs:
  assumes "start_registered start p i st = ret (res, st')" "wifi_register_cmd i p (tabs st) = (WIFI_SUCCESS, i1)"
  shows "\<exists>i2. start i1 = ret (res, i2) \<and> tabs st' = (if res = 0 then i2 else snd (wifi_unregister_cmd i i2)) \<and>
           live st' = (live st)(p := (if res = 0 then 1 else 0))"
proof -
  define st0 where "st0 = st\<lparr>live := (live st)(p := 1)\<rparr>"
  have "tabs st0 = tabs st" "live st0 = (live st)(p := 1)" by (simp_all add: st0_def)
  moreover from this assms have "run_then (start i1) (\<lambda>(res2, info2).
      if res2 \<noteq> WIFI_SUCCESS
      then ret (res2, st0\<lparr>tabs := snd (wifi_unregister_cmd i info2), live := releaseRef p (live st0)\<rparr>)
      else ret (res2, st0\<lparr>tabs := info2\<rparr>)) = ret (res, st')"
    unfolding start_registered_def st0_def [symmetric] by simp
  then obtain a b where "start i1 = ret (a, b)"
    "(if a \<noteq> WIFI_SUCCESS
      then ret (a, st0\<lparr>tabs := snd (wifi_unregister_cmd i b), live := releaseRef p (live st0)\<rparr>)
      else ret (a, st0\<lparr>tabs := b\<rparr>)) = ret (res, st')"
    by (rule run_then_retE) (simp split: prod.splits)
  ultimately show ?thesis by (cases "a = WIFI_SUCCESS") (auto simp: wifi_codes releaseRef_def)
qed

lemma register_events_spec:
  assumes "hal_inv info"
  shows "hal_inv (register_events es func p info) \<and> cmds (register_events es func p info) = cmds info \<and>
     handlers (register_events es func p info) =
       handlers info @ take (DEFAULT_EVENT_CB_SIZE - length (handlers info)) (map (event_cb func p) es)"
  using assms
proof (induction es arbitrary: info)
  case (Cons e es)
  let ?i = "snd (add_event_cb (event_cb func p e) info)"
  have step: "register_events (e # es) func p info = register_events es func p ?i"
    by (simp add: register_events_def wifi_register_vendor_handler_def)
  show ?case
  proof (cases "length (handlers info) < DEFAULT_EVENT_CB_SIZE")
    case True
    with add_event_cb_spec [OF Cons.prems, of "event_cb func p e"] have i:
      "hal_inv ?i" "handlers ?i = handlers info @ [event_cb func p e]" "cmds ?i = cmds info" by auto
    from True have "take (DEFAULT_EVENT_CB_SIZE - length (handlers info)) (map (event_cb func p) (e # es)) =
        event_cb func p e # take (DEFAULT_EVENT_CB_SIZE - Suc (length (handlers info))) (map (event_cb func p) es)"
      by (simp add: Suc_diff_Suc take_Cons')
    with Cons.IH [OF i(1)] i step show ?thesis by simp
  next
    case False
    with add_event_cb_spec [OF Cons.prems, of "event_cb func p e"] have "?i = info" by auto
    with Cons.IH [OF Cons.prems] step False show ?thesis by simp
  qed
qed (simp add: register_events_def)

lemma unregister_events_spec:
  assumes "hal_inv info"
  shows "hal_inv (unregister_events es info) \<and> cmds (unregister_events es info) = cmds info \<and>
     handlers (unregister_events es info) = fold (\<lambda>e. remove_first (handles e)) es (handlers info)"
  using assms
proof (induction es arbitrary: info)
  case (Cons e es)
  have "hal_inv (wifi_unregister_vendor_handler GOOGLE_OUI e info)"
    using Cons.prems by (simp add: wifi_unregister_vendor_handler_def remove_spec)
  from Cons.IH [OF this] show ?case
    using Cons.prems handlers_unregister_vendor [OF Cons.prems, of GOOGLE_OUI e]
    by (simp add: unregister_events_def) (simp add: wifi_unregister_vendor_handler_def)
qed (simp add: unregister_events_def)

lemma remove_first_filter: "length (filter P xs) \<le> 1 \<Longrightarrow> remove_first P xs = filter (\<lambda>x. \<not> P x) xs"
  by (induction xs) (auto simp: filter_empty_conv remove_first_none)

lemma handles_iff: "handles e cb \<longleftrightarrow> nl_cmd cb = NL80211_CMD_VENDOR \<and> vendor_id cb = GOOGLE_OUI \<and> vendor_subcmd cb = e"
  by (auto simp: is_vendor_cb_def)

text \<open>With at most one handler per event, removal takes out exactly the handlers of the events.\<close>

lemma fold_remove_filter:
  "distinct es \<Longrightarrow> \<forall>e \<in> set es. length (filter (handles e) xs) \<le> 1 \<Longrightarrow>
   fold (\<lambda>e. remove_first (handles e)) es xs = filter (\<lambda>cb. \<forall>e \<in> set es. \<not> handles e cb) xs"
proof (induction es arbitrary: xs)
  case (Cons e es)
  let ?ys = "filter (\<lambda>cb. \<not> handles e cb) xs"
  have "length (filter (handles e') ?ys) \<le> 1" if "e' \<in> set es" for e'
  proof -
    have "filter (handles e') ?ys = filter (\<lambda>cb. \<not> handles e cb) (filter (handles e') xs)"
      by (simp add: conj_commute)
    then have "length (filter (handles e') ?ys) \<le> length (filter (handles e') xs)"
      using length_filter_le by metis
    with that Cons.prems(2) show ?thesis by fastforce
  qed
  then have "fold (\<lambda>e. remove_first (handles e)) es ?ys = filter (\<lambda>cb. \<forall>e \<in> set es. \<not> handles e cb) ?ys"
    using Cons by simp
  with Cons.prems(2) show ?case
    by (simp add: remove_first_filter filter_filter conj_commute)
qed simp

definition no_handler :: "int list \<Rightarrow> hal_tabs \<Rightarrow> bool" where
  "no_handler es info \<longleftrightarrow> (\<forall>cb \<in> set (handlers info). \<forall>e \<in> set es. \<not> handles e cb)"

lemma length_filter_handles_cbs:
  "distinct es \<Longrightarrow> length (filter (handles e) (take k (map (event_cb func p) es))) \<le> 1"
proof (induction es arbitrary: k)
  case (Cons a es)
  show ?case
  proof (cases k)
    case (Suc k')
    have "filter (handles a) (take k' (map (event_cb func p) es)) = []"
      using Cons.prems by (auto simp: filter_empty_conv handles_iff take_map dest: in_set_takeD)
    with Cons Suc show ?thesis by (auto simp: handles_iff)
  qed simp
qed simp

text \<open>Events that are registered and removed again, in any order, leave the handlers as they were.\<close>

lemma unregister_registered:
  assumes "hal_inv info" "no_handler es info" "distinct es" "distinct es'" "set es' = set es"
  shows "handlers (unregister_events es' (register_events es func p info)) = handlers info"
proof -
  let ?new = "take (DEFAULT_EVENT_CB_SIZE - length (handlers info)) (map (event_cb func p) es)"
  have base: "filter (handles e) (handlers info) = []" if "e \<in> set es" for e
    using that assms(2) by (auto simp: no_handler_def filter_empty_conv)
  then have "\<forall>e \<in> set es'. length (filter (handles e) (handlers info @ ?new)) \<le> 1"
    using length_filter_handles_cbs [OF assms(3)] assms(5) by simp
  moreover have "filter (\<lambda>cb. \<forall>e \<in> set es'. \<not> handles e cb) ?new = []"
    using assms(5) by (force simp: filter_empty_conv handles_iff dest: in_set_takeD)
  moreover have "filter (\<lambda>cb. \<forall>e \<in> set es'. \<not> handles e cb) (handlers info) = handlers info"
    using assms(2,5) by (auto simp: no_handler_def filter_id_conv)
  ultimately show ?thesis
    using register_events_spec [OF assms(1), of es func p] assms(4)
    by (simp add: unregister_events_spec fold_remove_filter)
qed

text \<open>Removing events nobody handles changes nothing.\<close>

lemma unregister_absent:
  assumes "hal_inv info" "no_handler es info"
  shows "handlers (unregister_events es info) = handlers info"
proof -
  have "fold (\<lambda>e. remove_first (handles e)) es xs = xs" if "\<forall>cb \<in> set xs. \<forall>e \<in> set es. \<not> handles e cb" for xs
    using that by (induction es) (auto simp: remove_first_none)
  with assms show ?thesis by (simp add: unregister_events_spec no_handler_def)
qed

lemma no_handler_cong: "set es = set es' \<Longrightarrow> handlers t = handlers t' \<Longrightarrow> no_handler es t = no_handler es' t'"
  by (simp add: no_handler_def)

section \<open>The contract of a class of commands\<close>

locale event_command =
  fixes start :: "ptr \<Rightarrow> hal_tabs \<Rightarrow> (int \<times> hal_tabs) run"
    and cancel :: "hal_tabs \<Rightarrow> (int \<times> hal_tabs) run"
    and events :: "int list"
    and func :: ptr
  assumes distinct_events: "distinct events"
    and start_law: "hal_inv info \<Longrightarrow> no_handler events info \<Longrightarrow> start p info = ret (res, info') \<Longrightarrow>
      res \<le> 0 \<and> (if res = 0 then info' = register_events events func p info
                 else hal_inv info' \<and> cmds info' = cmds info \<and> handlers info' = handlers info)"
    and cancel_law: "cancel info = ret (res, info') \<Longrightarrow>
      \<exists>es. distinct es \<and> set es = set events \<and> info' = unregister_events es info"
begin

lemma start_outcome:
  assumes "hal_inv (tabs st)" "find (\<lambda>ci. ci_id ci = i) (commands (tabs st)) = None" "no_handler events (tabs st)"
    and "start_registered (start p) p i st = ret (res, st')"
  shows "hal_inv (tabs st') \<and> live st' = (live st)(p := (if res = 0 then 1 else 0)) \<and>
    (if res = 0
     then commands (tabs st') = commands (tabs st) @ [\<lparr>ci_id = i, ci_cmd = p\<rparr>] \<and>
          handlers (tabs st') = handlers (tabs st) @
            take (DEFAULT_EVENT_CB_SIZE - length (handlers (tabs st))) (map (event_cb func p) events)
     else res < 0 \<and> commands (tabs st') = commands (tabs st) \<and> handlers (tabs st') = handlers (tabs st))"
proof (cases "length (commands (tabs st)) < DEFAULT_CMD_SIZE")
  case False
  with register_cmd_spec [OF assms(1), of i p] assms(1,4) show ?thesis
    by (auto simp: start_registered_def wifi_codes releaseRef_def)
next
  case True
  with register_cmd_spec [OF assms(1), of i p] obtain i1 where i1:
    "wifi_register_cmd i p (tabs st) = (WIFI_SUCCESS, i1)" "hal_inv i1"
    "commands i1 = commands (tabs st) @ [\<lparr>ci_id = i, ci_cmd = p\<rparr>]" "event_cbs i1 = event_cbs (tabs st)" by auto
  from start_registered_runs [OF assms(4) i1(1)] obtain i2 where s: "start p i1 = ret (res, i2)"
    and st': "tabs st' = (if res = 0 then i2 else snd (wifi_unregister_cmd i i2))"
      "live st' = (live st)(p := (if res = 0 then 1 else 0))" by blast
  have "no_handler events i1" using assms(3) i1(4) by (simp add: no_handler_def)
  note law = start_law [OF i1(2) this s]
  show ?thesis
  proof (cases "res = 0")
    case True
    with law st' i1 register_events_spec [OF i1(2), of events func p] show ?thesis by simp
  next
    case False
    with law have i2: "hal_inv i2" "cmds i2 = cmds i1" "handlers i2 = handlers (tabs st)" "res < 0"
      using i1(4) by auto
    have "remove_first (\<lambda>ci. ci_id ci = i) (commands i2) = commands (tabs st)"
      using i1 i2 assms(2) by (simp add: remove_first_append find_None_iff)
    with False st' i2 remove_spec(1,2) [OF i2(1), where P = "\<lambda>ci. ci_id ci = i"] show ?thesis
      by (simp add: unregister_cmd_tab)
  qed
qed

text \<open>A command that is started and then cancelled by its id leaves nothing behind.\<close>

lemma start_cancel:
  assumes "hal_inv (tabs st)" "find (\<lambda>ci. ci_id ci = i) (commands (tabs st)) = None" "no_handler events (tabs st)"
    and "p \<noteq> NULL" "start_registered (start p) p i st = ret (WIFI_SUCCESS, st1)"
    and "wifi_cancel_cmd (\<lambda>c. on_tabs cancel) i st1 = ret (res, st2)"
  shows "res = WIFI_SUCCESS \<and> hal_inv (tabs st2) \<and> live st2 = (live st)(p := 0) \<and>
         commands (tabs st2) = commands (tabs st) \<and> handlers (tabs st2) = handlers (tabs st)"
proof -
  let ?new = "take (DEFAULT_EVENT_CB_SIZE - length (handlers (tabs st))) (map (event_cb func p) events)"
  from start_outcome [OF assms(1-3,5)] have st1: "hal_inv (tabs st1)" "live st1 = (live st)(p := 1)"
    "commands (tabs st1) = commands (tabs st) @ [\<lparr>ci_id = i, ci_cmd = p\<rparr>]"
    "handlers (tabs st1) = handlers (tabs st) @ ?new" by (auto simp: wifi_codes)
  define t where "t = (tabs st1)\<lparr>cmds := tab_remove_first (\<lambda>ci. ci_id ci = i) (cmds (tabs st1))\<rparr>"
  have t: "hal_inv t" "commands t = commands (tabs st)" "handlers t = handlers (register_events events func p (tabs st))"
    using remove_spec(1,2) [OF st1(1), where P = "\<lambda>ci. ci_id ci = i"] st1 assms(2)
      register_events_spec [OF assms(1), of events func p]
    by (simp_all add: t_def remove_first_append find_None_iff)
  have "wifi_get_cmd i (tabs st1) = p" using st1 assms(2) by (simp add: get_cmd_spec find_append)
  with assms(4,6) obtain r info' where c: "cancel t = ret (r, info')" "res = WIFI_SUCCESS"
    "st2 = st1\<lparr>tabs := info', live := releaseRef p (live st1)\<rparr>"
    by (auto simp: wifi_cancel_cmd_def unregister_cmd_tab on_tabs_def run_then_eq_ret simp flip: t_def)
  from cancel_law [OF c(1)] obtain es where es: "distinct es" "set es = set events" "info' = unregister_events es t"
    by blast
  have "handlers info' = handlers (unregister_events es (register_events events func p (tabs st)))"
    using unregister_events_spec [OF t(1), of es] register_events_spec [OF assms(1), of events func p]
    by (simp add: es(3) t(3) unregister_events_spec)
  also have "\<dots> = handlers (tabs st)"
    by (rule unregister_registered [OF assms(1,3) distinct_events es(1,2)])
  finally show ?thesis
    using c es(3) t(2) st1(2) unregister_events_spec [OF t(1), of es] by (simp add: releaseRef_def)
qed

text \<open>Cancelling takes away the handlers of the class, however many there are of other classes.\<close>

lemma cancel_removes:
  assumes "cancel info = ret (res, info')" "hal_inv info"
    and "\<forall>e \<in> set events. length (filter (handles e) (handlers info)) \<le> 1"
  shows "hal_inv info' \<and> cmds info' = cmds info \<and>
         handlers info' = filter (\<lambda>cb. \<forall>e \<in> set events. \<not> handles e cb) (handlers info)"
  using cancel_law [OF assms(1)] assms(2,3) by (auto simp: unregister_events_spec fold_remove_filter)

end

end
