(* ===== verification/Gscan_Requests.thy ===== *)
theory Gscan_Requests
  imports Hal_Events
begin

text \<open>
  The requests of \<open>wifi_hal/gscan.cpp\<close>: scan configuration, feature switches, cached results,
  hotlist, significant change, ePNO and passpoint networks, each as the sequence of calls that
  assembles it. The functions that read a request back the way a driver looks attributes up by
  their type are the specification: what is put into a request is what comes out.

  Constants of the Android headers (bands, limits) are parameters, in \<open>hal_consts\<close>.
\<close>

section \<open>Attributes and commands\<close>

definition GSCAN_ATTRIBUTE_CAPABILITIES :: nat where "GSCAN_ATTRIBUTE_CAPABILITIES = 1"
definition GSCAN_ATTRIBUTE_NUM_BUCKETS :: nat where "GSCAN_ATTRIBUTE_NUM_BUCKETS = 10"
definition GSCAN_ATTRIBUTE_BASE_PERIOD :: nat where "GSCAN_ATTRIBUTE_BASE_PERIOD = 11"
definition GSCAN_ATTRIBUTE_BUCKETS_BAND :: nat where "GSCAN_ATTRIBUTE_BUCKETS_BAND = 12"
definition GSCAN_ATTRIBUTE_BUCKET_ID :: nat where "GSCAN_ATTRIBUTE_BUCKET_ID = 13"
definition GSCAN_ATTRIBUTE_BUCKET_PERIOD :: nat where "GSCAN_ATTRIBUTE_BUCKET_PERIOD = 14"
definition GSCAN_ATTRIBUTE_BUCKET_NUM_CHANNELS :: nat where "GSCAN_ATTRIBUTE_BUCKET_NUM_CHANNELS = 15"
definition GSCAN_ATTRIBUTE_BUCKET_CHANNELS :: nat where "GSCAN_ATTRIBUTE_BUCKET_CHANNELS = 16"
definition GSCAN_ATTRIBUTE_NUM_AP_PER_SCAN :: nat where "GSCAN_ATTRIBUTE_NUM_AP_PER_SCAN = 17"
definition GSCAN_ATTRIBUTE_REPORT_THRESHOLD :: nat where "GSCAN_ATTRIBUTE_REPORT_THRESHOLD = 18"
definition GSCAN_ATTRIBUTE_NUM_SCANS_TO_CACHE :: nat where "GSCAN_ATTRIBUTE_NUM_SCANS_TO_CACHE = 19"
definition GSCAN_ATTRIBUTE_ENABLE_FEATURE :: nat where "GSCAN_ATTRIBUTE_ENABLE_FEATURE = 20"
definition GSCAN_ATTRIBUTE_SCAN_RESULTS_COMPLETE :: nat where "GSCAN_ATTRIBUTE_SCAN_RESULTS_COMPLETE = 21"
definition GSCAN_ENABLE_FULL_SCAN_RESULTS :: nat where "GSCAN_ENABLE_FULL_SCAN_RESULTS = 23"
definition GSCAN_ATTRIBUTE_REPORT_EVENTS :: nat where "GSCAN_ATTRIBUTE_REPORT_EVENTS = 24"
definition GSCAN_ATTRIBUTE_BUCKET_STEP_COUNT :: nat where "GSCAN_ATTRIBUTE_BUCKET_STEP_COUNT = 25"
definition GSCAN_ATTRIBUTE_BUCKET_MAX_PERIOD :: nat where "GSCAN_ATTRIBUTE_BUCKET_MAX_PERIOD = 26"
definition GSCAN_ATTRIBUTE_NUM_OF_RESULTS :: nat where "GSCAN_ATTRIBUTE_NUM_OF_RESULTS = 30"
definition GSCAN_ATTRIBUTE_FLUSH_RESULTS :: nat where "GSCAN_ATTRIBUTE_FLUSH_RESULTS = 31"
definition GSCAN_ATTRIBUTE_SCAN_RESULTS :: nat where "GSCAN_ATTRIBUTE_SCAN_RESULTS = 32"
definition GSCAN_ATTRIBUTE_SCAN_ID :: nat where "GSCAN_ATTRIBUTE_SCAN_ID = 33"
definition GSCAN_ATTRIBUTE_SCAN_FLAGS :: nat where "GSCAN_ATTRIBUTE_SCAN_FLAGS = 34"
definition GSCAN_ATTRIBUTE_CH_BUCKET_BITMASK :: nat where "GSCAN_ATTRIBUTE_CH_BUCKET_BITMASK = 36"
definition GSCAN_ATTRIBUTE_SSID :: nat where "GSCAN_ATTRIBUTE_SSID = 40"
definition GSCAN_ATTRIBUTE_BSSID :: nat where "GSCAN_ATTRIBUTE_BSSID = 41"
definition GSCAN_ATTRIBUTE_CHANNEL :: nat where "GSCAN_ATTRIBUTE_CHANNEL = 42"
definition GSCAN_ATTRIBUTE_RSSI :: nat where "GSCAN_ATTRIBUTE_RSSI = 43"
definition GSCAN_ATTRIBUTE_TIMESTAMP :: nat where "GSCAN_ATTRIBUTE_TIMESTAMP = 44"
definition GSCAN_ATTRIBUTE_RTT :: nat where "GSCAN_ATTRIBUTE_RTT = 45"
definition GSCAN_ATTRIBUTE_RTTSD :: nat where "GSCAN_ATTRIBUTE_RTTSD = 46"
definition GSCAN_ATTRIBUTE_HOTLIST_BSSIDS :: nat where "GSCAN_ATTRIBUTE_HOTLIST_BSSIDS = 50"
definition GSCAN_ATTRIBUTE_RSSI_LOW :: nat where "GSCAN_ATTRIBUTE_RSSI_LOW = 51"
definition GSCAN_ATTRIBUTE_RSSI_HIGH :: nat where "GSCAN_ATTRIBUTE_RSSI_HIGH = 52"
definition GSCAN_ATTRIBUTE_HOTLIST_ELEM :: nat where "GSCAN_ATTRIBUTE_HOTLIST_ELEM = 53"
definition GSCAN_ATTRIBUTE_HOTLIST_FLUSH :: nat where "GSCAN_ATTRIBUTE_HOTLIST_FLUSH = 54"
definition GSCAN_ATTRIBUTE_RSSI_SAMPLE_SIZE :: nat where "GSCAN_ATTRIBUTE_RSSI_SAMPLE_SIZE = 60"
definition GSCAN_ATTRIBUTE_LOST_AP_SAMPLE_SIZE :: nat where "GSCAN_ATTRIBUTE_LOST_AP_SAMPLE_SIZE = 61"
definition GSCAN_ATTRIBUTE_MIN_BREACHING :: nat where "GSCAN_ATTRIBUTE_MIN_BREACHING = 62"
definition GSCAN_ATTRIBUTE_NUM_AP :: nat where "GSCAN_ATTRIBUTE_NUM_AP = 63"
definition GSCAN_ATTRIBUTE_SIGNIFICANT_CHANGE_BSSIDS :: nat where "GSCAN_ATTRIBUTE_SIGNIFICANT_CHANGE_BSSIDS = 64"
definition GSCAN_ATTRIBUTE_SIGNIFICANT_CHANGE_FLUSH :: nat where "GSCAN_ATTRIBUTE_SIGNIFICANT_CHANGE_FLUSH = 65"
definition GSCAN_ATTRIBUTE_EPNO_SSID_LIST :: nat where "GSCAN_ATTRIBUTE_EPNO_SSID_LIST = 70"
definition GSCAN_ATTRIBUTE_EPNO_SSID :: nat where "GSCAN_ATTRIBUTE_EPNO_SSID = 71"
definition GSCAN_ATTRIBUTE_EPNO_SSID_LEN :: nat where "GSCAN_ATTRIBUTE_EPNO_SSID_LEN = 72"
definition GSCAN_ATTRIBUTE_EPNO_FLAGS :: nat where "GSCAN_ATTRIBUTE_EPNO_FLAGS = 74"
definition GSCAN_ATTRIBUTE_EPNO_AUTH :: nat where "GSCAN_ATTRIBUTE_EPNO_AUTH = 75"
definition GSCAN_ATTRIBUTE_EPNO_SSID_NUM :: nat where "GSCAN_ATTRIBUTE_EPNO_SSID_NUM = 76"
definition GSCAN_ATTRIBUTE_EPNO_FLUSH :: nat where "GSCAN_ATTRIBUTE_EPNO_FLUSH = 77"
definition GSCAN_ATTRIBUTE_ANQPO_HS_LIST :: nat where "GSCAN_ATTRIBUTE_ANQPO_HS_LIST = 110"
definition GSCAN_ATTRIBUTE_ANQPO_HS_LIST_SIZE :: nat where "GSCAN_ATTRIBUTE_ANQPO_HS_LIST_SIZE = 111"
definition GSCAN_ATTRIBUTE_ANQPO_HS_NETWORK_ID :: nat where "GSCAN_ATTRIBUTE_ANQPO_HS_NETWORK_ID = 112"
definition GSCAN_ATTRIBUTE_ANQPO_HS_NAI_REALM :: nat where "GSCAN_ATTRIBUTE_ANQPO_HS_NAI_REALM = 113"
definition GSCAN_ATTRIBUTE_ANQPO_HS_ROAM_CONSORTIUM_ID :: nat where "GSCAN_ATTRIBUTE_ANQPO_HS_ROAM_CONSORTIUM_ID = 114"
definition GSCAN_ATTRIBUTE_ANQPO_HS_PLMN :: nat where "GSCAN_ATTRIBUTE_ANQPO_HS_PLMN = 115"
definition GSCAN_ATTRIBUTE_EPNO_5G_RSSI_THR :: nat where "GSCAN_ATTRIBUTE_EPNO_5G_RSSI_THR = 130"
definition GSCAN_ATTRIBUTE_EPNO_2G_RSSI_THR :: nat where "GSCAN_ATTRIBUTE_EPNO_2G_RSSI_THR = 131"
definition GSCAN_ATTRIBUTE_EPNO_INIT_SCORE_MAX :: nat where "GSCAN_ATTRIBUTE_EPNO_INIT_SCORE_MAX = 132"
definition GSCAN_ATTRIBUTE_EPNO_CUR_CONN_BONUS :: nat where "GSCAN_ATTRIBUTE_EPNO_CUR_CONN_BONUS = 133"
definition GSCAN_ATTRIBUTE_EPNO_SAME_NETWORK_BONUS :: nat where "GSCAN_ATTRIBUTE_EPNO_SAME_NETWORK_BONUS = 134"
definition GSCAN_ATTRIBUTE_EPNO_SECURE_BONUS :: nat where "GSCAN_ATTRIBUTE_EPNO_SECURE_BONUS = 135"
definition GSCAN_ATTRIBUTE_EPNO_5G_BONUS :: nat where "GSCAN_ATTRIBUTE_EPNO_5G_BONUS = 136"

lemmas gscan_attributes = GSCAN_ATTRIBUTE_CAPABILITIES_def GSCAN_ATTRIBUTE_NUM_BUCKETS_def
  GSCAN_ATTRIBUTE_BASE_PERIOD_def GSCAN_ATTRIBUTE_BUCKETS_BAND_def GSCAN_ATTRIBUTE_BUCKET_ID_def
  GSCAN_ATTRIBUTE_BUCKET_PERIOD_def GSCAN_ATTRIBUTE_BUCKET_NUM_CHANNELS_def
  GSCAN_ATTRIBUTE_BUCKET_CHANNELS_def GSCAN_ATTRIBUTE_NUM_AP_PER_SCAN_def
  GSCAN_ATTRIBUTE_REPORT_THRESHOLD_def GSCAN_ATTRIBUTE_NUM_SCANS_TO_CACHE_def
  GSCAN_ATTRIBUTE_ENABLE_FEATURE_def GSCAN_ATTRIBUTE_SCAN_RESULTS_COMPLETE_def
  GSCAN_ENABLE_FULL_SCAN_RESULTS_def GSCAN_ATTRIBUTE_REPORT_EVENTS_def GSCAN_ATTRIBUTE_BUCKET_STEP_COUNT_def
  GSCAN_ATTRIBUTE_BUCKET_MAX_PERIOD_def GSCAN_ATTRIBUTE_NUM_OF_RESULTS_def GSCAN_ATTRIBUTE_FLUSH_RESULTS_def
  GSCAN_ATTRIBUTE_SCAN_RESULTS_def GSCAN_ATTRIBUTE_SCAN_ID_def GSCAN_ATTRIBUTE_SCAN_FLAGS_def
  GSCAN_ATTRIBUTE_CH_BUCKET_BITMASK_def GSCAN_ATTRIBUTE_SSID_def GSCAN_ATTRIBUTE_BSSID_def
  GSCAN_ATTRIBUTE_CHANNEL_def GSCAN_ATTRIBUTE_RSSI_def GSCAN_ATTRIBUTE_TIMESTAMP_def GSCAN_ATTRIBUTE_RTT_def
  GSCAN_ATTRIBUTE_RTTSD_def GSCAN_ATTRIBUTE_HOTLIST_BSSIDS_def GSCAN_ATTRIBUTE_RSSI_LOW_def
  GSCAN_ATTRIBUTE_RSSI_HIGH_def GSCAN_ATTRIBUTE_HOTLIST_ELEM_def GSCAN_ATTRIBUTE_HOTLIST_FLUSH_def
  GSCAN_ATTRIBUTE_RSSI_SAMPLE_SIZE_def GSCAN_ATTRIBUTE_LOST_AP_SAMPLE_SIZE_def
  GSCAN_ATTRIBUTE_MIN_BREACHING_def GSCAN_ATTRIBUTE_NUM_AP_def GSCAN_ATTRIBUTE_SIGNIFICANT_CHANGE_BSSIDS_def
  GSCAN_ATTRIBUTE_SIGNIFICANT_CHANGE_FLUSH_def GSCAN_ATTRIBUTE_EPNO_SSID_LIST_def
  GSCAN_ATTRIBUTE_EPNO_SSID_def GSCAN_ATTRIBUTE_EPNO_SSID_LEN_def GSCAN_ATTRIBUTE_EPNO_FLAGS_def
  GSCAN_ATTRIBUTE_EPNO_AUTH_def GSCAN_ATTRIBUTE_EPNO_SSID_NUM_def GSCAN_ATTRIBUTE_EPNO_FLUSH_def
  GSCAN_ATTRIBUTE_ANQPO_HS_LIST_def GSCAN_ATTRIBUTE_ANQPO_HS_LIST_SIZE_def
  GSCAN_ATTRIBUTE_ANQPO_HS_NETWORK_ID_def GSCAN_ATTRIBUTE_ANQPO_HS_NAI_REALM_def
  GSCAN_ATTRIBUTE_ANQPO_HS_ROAM_CONSORTIUM_ID_def GSCAN_ATTRIBUTE_ANQPO_HS_PLMN_def
  GSCAN_ATTRIBUTE_EPNO_5G_RSSI_THR_def GSCAN_ATTRIBUTE_EPNO_2G_RSSI_THR_def
  GSCAN_ATTRIBUTE_EPNO_INIT_SCORE_MAX_def GSCAN_ATTRIBUTE_EPNO_CUR_CONN_BONUS_def
  GSCAN_ATTRIBUTE_EPNO_SAME_NETWORK_BONUS_def GSCAN_ATTRIBUTE_EPNO_SECURE_BONUS_def
  GSCAN_ATTRIBUTE_EPNO_5G_BONUS_def

definition WIFI_SUBCMD_GET_CHANNEL_LIST :: u32 where "WIFI_SUBCMD_GET_CHANNEL_LIST = 1"
definition GSCAN_SUBCMD_GET_CAPABILITIES :: u32 where "GSCAN_SUBCMD_GET_CAPABILITIES = 0x1000"
definition GSCAN_SUBCMD_SET_CONFIG :: u32 where "GSCAN_SUBCMD_SET_CONFIG = 0x1001"
definition GSCAN_SUBCMD_SET_SCAN_CONFIG :: u32 where "GSCAN_SUBCMD_SET_SCAN_CONFIG = 0x1002"
definition GSCAN_SUBCMD_ENABLE_GSCAN :: u32 where "GSCAN_SUBCMD_ENABLE_GSCAN = 0x1003"
definition GSCAN_SUBCMD_GET_SCAN_RESULTS :: u32 where "GSCAN_SUBCMD_GET_SCAN_RESULTS = 0x1004"
definition GSCAN_SUBCMD_SET_HOTLIST :: u32 where "GSCAN_SUBCMD_SET_HOTLIST = 0x1006"
definition GSCAN_SUBCMD_SET_SIGNIFICANT_CHANGE_CONFIG :: u32 where "GSCAN_SUBCMD_SET_SIGNIFICANT_CHANGE_CONFIG = 0x1007"
definition GSCAN_SUBCMD_ENABLE_FULL_SCAN_RESULTS :: u32 where "GSCAN_SUBCMD_ENABLE_FULL_SCAN_RESULTS = 0x1008"
definition GSCAN_SUBCMD_SET_EPNO_SSID :: u32 where "GSCAN_SUBCMD_SET_EPNO_SSID = 0x100F"
definition GSCAN_SUBCMD_ANQPO_CONFIG :: u32 where "GSCAN_SUBCMD_ANQPO_CONFIG = 0x1015"

text \<open>What the headers of the framework define.\<close>

record hal_consts =
  WIFI_BAND_UNSPECIFIED :: int
  WIFI_BAND_ABG :: int
  WIFI_BAND_ABG_WITH_DFS :: int
  MAX_AP_CACHE_PER_SCAN :: nat
  MAX_EPNO_NETWORKS :: nat
  sizeof_scan_result :: nat

section \<open>Scans\<close>

text \<open>A bucket; the number of channels is the length of their list.\<close>

record scan_bucket =
  bk_bucket :: u32
  bk_band :: int
  bk_period :: u32
  bk_report_events :: u32
  bk_max_period :: u32
  bk_step_count :: u32
  bk_channels :: "u32 list"

record scan_params =
  sp_base_period :: u32
  sp_max_ap_per_scan :: u32
  sp_report_threshold_percent :: int
  sp_report_threshold_num_scans :: u32
  sp_buckets :: "scan_bucket list"

definition valid_band :: "hal_consts \<Rightarrow> int \<Rightarrow> int" where
  "valid_band k b = (if b < WIFI_BAND_UNSPECIFIED k \<or> b > WIFI_BAND_ABG_WITH_DFS k then WIFI_BAND_ABG k else b)"

definition bucket_steps :: "hal_consts \<Rightarrow> nat \<times> scan_bucket \<Rightarrow> req_step list" where
  "bucket_steps k ib = (case ib of (i, b) \<Rightarrow>
     [Start i False,
      put_u32 GSCAN_ATTRIBUTE_BUCKET_ID (bk_bucket b),
      put_u32 GSCAN_ATTRIBUTE_BUCKET_PERIOD (bk_period b),
      put_u32 GSCAN_ATTRIBUTE_BUCKETS_BAND (word_of_int (valid_band k (bk_band b))),
      put_u32 GSCAN_ATTRIBUTE_BUCKET_STEP_COUNT (bk_step_count b),
      put_u32 GSCAN_ATTRIBUTE_BUCKET_MAX_PERIOD (bk_max_period b),
      put_u32 GSCAN_ATTRIBUTE_REPORT_EVENTS (bk_report_events b),
      put_u32 GSCAN_ATTRIBUTE_BUCKET_NUM_CHANNELS (word_of_nat (length (bk_channels b)))] @
     (if bk_channels b = [] then []
      else [Start GSCAN_ATTRIBUTE_BUCKET_CHANNELS False] @
           map (\<lambda>(j, c). put_u32 j c) (enumerate 0 (bk_channels b)) @ [End]) @
     [End])"

definition scan_setup_steps :: "hal_consts \<Rightarrow> scan_params \<Rightarrow> req_step list" where
  "scan_setup_steps k p =
     [Start NL80211_ATTR_VENDOR_DATA False,
      put_u32 GSCAN_ATTRIBUTE_BASE_PERIOD (sp_base_period p),
      put_u32 GSCAN_ATTRIBUTE_NUM_BUCKETS (word_of_nat (length (sp_buckets p)))] @
     concat (map (bucket_steps k) (enumerate 0 (sp_buckets p))) @
     [End]"

text \<open>\<open>ScanCommand::createSetupRequest\<close>\<close>

definition scan_createSetupRequest ::
  "hal_consts \<Rightarrow> req_env \<Rightarrow> scan_params \<Rightarrow> wifi_request \<Rightarrow> ub + int \<times> wifi_request" where
  "scan_createSetupRequest k env p r =
     or_success (vendor_request env GSCAN_SUBCMD_SET_CONFIG (scan_setup_steps k p) r)"

text \<open>\<open>ScanCommand::createScanConfigRequest\<close>\<close>

definition scan_config_steps :: "scan_params \<Rightarrow> req_step list" where
  "scan_config_steps p =
     (let percent = (if sp_report_threshold_percent p < 0 \<or> sp_report_threshold_percent p > 100 then 100
                     else sp_report_threshold_percent p)
      in [Start NL80211_ATTR_VENDOR_DATA False,
          put_u32 GSCAN_ATTRIBUTE_NUM_AP_PER_SCAN (sp_max_ap_per_scan p),
          put_u32 GSCAN_ATTRIBUTE_REPORT_THRESHOLD (word_of_int percent),
          put_u32 GSCAN_ATTRIBUTE_NUM_SCANS_TO_CACHE (sp_report_threshold_num_scans p),
          End])"

definition scan_createScanConfigRequest ::
  "req_env \<Rightarrow> scan_params \<Rightarrow> wifi_request \<Rightarrow> ub + int \<times> wifi_request" where
  "scan_createScanConfigRequest env p r =
     or_success (vendor_request env GSCAN_SUBCMD_SET_SCAN_CONFIG (scan_config_steps p) r)"

definition createFeatureRequest ::
  "req_env \<Rightarrow> u32 \<Rightarrow> u32 \<Rightarrow> wifi_request \<Rightarrow> ub + int \<times> wifi_request" where
  "createFeatureRequest env subcmd enable r =
     or_success (vendor_request env subcmd
       [Start NL80211_ATTR_VENDOR_DATA False, put_u32 GSCAN_ATTRIBUTE_ENABLE_FEATURE enable, End] r)"

text \<open>\<open>FullScanResultsCommand::createRequest\<close>\<close>

definition full_scan_createRequest ::
  "req_env \<Rightarrow> u32 \<Rightarrow> u32 \<Rightarrow> wifi_request \<Rightarrow> ub + int \<times> wifi_request" where
  "full_scan_createRequest env subcmd enable r =
     or_success (vendor_request env subcmd
       [Start NL80211_ATTR_VENDOR_DATA False, put_u32 GSCAN_ENABLE_FULL_SCAN_RESULTS enable, End] r)"

text \<open>\<open>GetScanResultsCommand::createRequest\<close> and \<open>GetChannelListCommand::create\<close>\<close>

definition scan_results_createRequest ::
  "req_env \<Rightarrow> u32 \<Rightarrow> u8 \<Rightarrow> wifi_request \<Rightarrow> ub + int \<times> wifi_request" where
  "scan_results_createRequest env num flush r =
     or_success (vendor_request env GSCAN_SUBCMD_GET_SCAN_RESULTS
       [Start NL80211_ATTR_VENDOR_DATA False, put_u32 GSCAN_ATTRIBUTE_NUM_OF_RESULTS num,
        put_u8 GSCAN_ATTRIBUTE_FLUSH_RESULTS flush, End] r)"

definition WIFI_ATTRIBUTE_BAND :: nat where "WIFI_ATTRIBUTE_BAND = 1"
definition WIFI_ATTRIBUTE_NUM_CHANNELS :: nat where "WIFI_ATTRIBUTE_NUM_CHANNELS = 2"
definition WIFI_ATTRIBUTE_CHANNEL_LIST :: nat where "WIFI_ATTRIBUTE_CHANNEL_LIST = 3"

definition channel_list_create :: "req_env \<Rightarrow> u32 \<Rightarrow> wifi_request \<Rightarrow> ub + int \<times> wifi_request" where
  "channel_list_create env band r =
     vendor_request env WIFI_SUBCMD_GET_CHANNEL_LIST
       [Start NL80211_ATTR_VENDOR_DATA False, put_u32 WIFI_ATTRIBUTE_BAND band, End] r"

section \<open>Access points to watch\<close>

record ap_threshold =
  ap_bssid :: mac
  ap_low :: u32
  ap_high :: u32

record hotlist_params =
  hl_lost_ap_sample_size :: u32
  hl_ap :: "ap_threshold list"

record significant_change_params =
  sc_rssi_sample_size :: u32
  sc_lost_ap_sample_size :: u32
  sc_min_breaching :: u32
  sc_ap :: "ap_threshold list"

definition ap_steps :: "nat \<Rightarrow> ap_threshold \<Rightarrow> req_step list" where
  "ap_steps elem ap =
     [Start elem True,
      put_addr GSCAN_ATTRIBUTE_BSSID (ap_bssid ap),
      put_u32 GSCAN_ATTRIBUTE_RSSI_HIGH (ap_high ap),
      put_u32 GSCAN_ATTRIBUTE_RSSI_LOW (ap_low ap),
      End]"

text \<open>\<open>BssidHotlistCommand::createSetupRequest\<close> and \<open>createTeardownRequest\<close>\<close>

definition hotlist_setup_steps :: "hotlist_params \<Rightarrow> req_step list" where
  "hotlist_setup_steps p =
     [Start NL80211_ATTR_VENDOR_DATA False,
      put_u8 GSCAN_ATTRIBUTE_HOTLIST_FLUSH 1,
      put_u32 GSCAN_ATTRIBUTE_LOST_AP_SAMPLE_SIZE (hl_lost_ap_sample_size p),
      put_u16 GSCAN_ATTRIBUTE_NUM_AP (word_of_nat (length (hl_ap p))),
      Start GSCAN_ATTRIBUTE_HOTLIST_BSSIDS False] @
     concat (map (ap_steps GSCAN_ATTRIBUTE_HOTLIST_ELEM) (hl_ap p)) @
     [End, End]"

definition hotlist_createSetupRequest ::
  "req_env \<Rightarrow> hotlist_params \<Rightarrow> wifi_request \<Rightarrow> ub + int \<times> wifi_request" where
  "hotlist_createSetupRequest env p r = vendor_request env GSCAN_SUBCMD_SET_HOTLIST (hotlist_setup_steps p) r"

definition hotlist_createTeardownRequest :: "req_env \<Rightarrow> wifi_request \<Rightarrow> ub + int \<times> wifi_request" where
  "hotlist_createTeardownRequest env r =
     vendor_request env GSCAN_SUBCMD_SET_HOTLIST
       [Start NL80211_ATTR_VENDOR_DATA False, put_u8 GSCAN_ATTRIBUTE_HOTLIST_FLUSH 1,
        Start GSCAN_ATTRIBUTE_HOTLIST_BSSIDS False, End, End] r"

text \<open>\<open>SignificantWifiChangeCommand::createSetupRequest\<close> and \<open>createTeardownRequest\<close>\<close>

definition significant_setup_steps :: "significant_change_params \<Rightarrow> req_step list" where
  "significant_setup_steps p =
     [Start NL80211_ATTR_VENDOR_DATA False,
      put_u8 GSCAN_ATTRIBUTE_SIGNIFICANT_CHANGE_FLUSH 1,
      put_u16 GSCAN_ATTRIBUTE_RSSI_SAMPLE_SIZE (ucast (sc_rssi_sample_size p)),
      put_u16 GSCAN_ATTRIBUTE_LOST_AP_SAMPLE_SIZE (ucast (sc_lost_ap_sample_size p)),
      put_u16 GSCAN_ATTRIBUTE_MIN_BREACHING (ucast (sc_min_breaching p)),
      put_u16 GSCAN_ATTRIBUTE_NUM_AP (word_of_nat (length (sc_ap p))),
      Start GSCAN_ATTRIBUTE_SIGNIFICANT_CHANGE_BSSIDS False] @
     concat (map (\<lambda>(i, ap). ap_steps i ap) (enumerate 0 (sc_ap p))) @
     [End, End]"

definition significant_createSetupRequest ::
  "req_env \<Rightarrow> significant_change_params \<Rightarrow> wifi_request \<Rightarrow> ub + int \<times> wifi_request" where
  "significant_createSetupRequest env p r =
     vendor_request env GSCAN_SUBCMD_SET_SIGNIFICANT_CHANGE_CONFIG (significant_setup_steps p) r"

definition significant_createTeardownRequest :: "req_env \<Rightarrow> wifi_request \<Rightarrow> ub + int \<times> wifi_request" where
  "significant_createTeardownRequest env r =
     vendor_request env GSCAN_SUBCMD_SET_SIGNIFICANT_CHANGE_CONFIG
       [Start NL80211_ATTR_VENDOR_DATA False, put_u16 GSCAN_ATTRIBUTE_SIGNIFICANT_CHANGE_FLUSH 1, End] r"

section \<open>Networks to look for\<close>

text \<open>A network of an ePNO list: the 33 bytes of its \<open>ssid\<close> array, flags and authentication.\<close>

record epno_network =
  en_ssid :: "u8 list"
  en_flags :: u8
  en_auth :: u8

record epno_params =
  ep_min5GHz_rssi :: u32
  ep_min24GHz_rssi :: u32
  ep_initial_score_max :: u32
  ep_current_connection_bonus :: u32
  ep_same_network_bonus :: u32
  ep_secure_bonus :: u32
  ep_band5GHz_bonus :: u32
  ep_networks :: "epno_network list"

definition c_strlen :: "u8 list \<Rightarrow> nat" where
  "c_strlen bs = length (takeWhile (\<lambda>b. b \<noteq> 0) bs)"

definition network_steps :: "nat \<times> epno_network \<Rightarrow> req_step list" where
  "network_steps ine = (case ine of (i, n) \<Rightarrow>
     [Start i True,
      Put GSCAN_ATTRIBUTE_EPNO_SSID (take 32 (en_ssid n)),
      put_u32 GSCAN_ATTRIBUTE_EPNO_SSID_LEN (word_of_nat (c_strlen (en_ssid n))),
      put_u32 GSCAN_ATTRIBUTE_EPNO_FLAGS (ucast (en_flags n)),
      put_u32 GSCAN_ATTRIBUTE_EPNO_AUTH (ucast (en_auth n)),
      End])"

definition epno_setup_steps :: "epno_params \<Rightarrow> req_step list" where
  "epno_setup_steps p =
     [Start NL80211_ATTR_VENDOR_DATA False,
      put_u8 GSCAN_ATTRIBUTE_EPNO_FLUSH 1,
      put_u8 GSCAN_ATTRIBUTE_EPNO_5G_RSSI_THR (ucast (ep_min5GHz_rssi p)),
      put_u8 GSCAN_ATTRIBUTE_EPNO_2G_RSSI_THR (ucast (ep_min24GHz_rssi p)),
      put_u16 GSCAN_ATTRIBUTE_EPNO_INIT_SCORE_MAX (ucast (ep_initial_score_max p)),
      put_u16 GSCAN_ATTRIBUTE_EPNO_CUR_CONN_BONUS (ucast (ep_current_connection_bonus p)),
      put_u16 GSCAN_ATTRIBUTE_EPNO_SAME_NETWORK_BONUS (ucast (ep_same_network_bonus p)),
      put_u16 GSCAN_ATTRIBUTE_EPNO_SECURE_BONUS (ucast (ep_secure_bonus p)),
      put_u16 GSCAN_ATTRIBUTE_EPNO_5G_BONUS (ucast (ep_band5GHz_bonus p)),
      put_u8 GSCAN_ATTRIBUTE_EPNO_SSID_NUM (word_of_nat (length (ep_networks p))),
      Start GSCAN_ATTRIBUTE_EPNO_SSID_LIST False] @
     concat (map network_steps (enumerate 0 (ep_networks p))) @
     [End, End]"

text \<open>\<open>ePNOCommand::createSetupRequest\<close> and \<open>createTeardownRequest\<close>\<close>

definition epno_createSetupRequest ::
  "hal_consts \<Rightarrow> req_env \<Rightarrow> epno_params \<Rightarrow> wifi_request \<Rightarrow> ub + int \<times> wifi_request" where
  "epno_createSetupRequest k env p r =
     (if length (ep_networks p) > MAX_EPNO_NETWORKS k then Inr (WIFI_ERROR_INVALID_ARGS, r)
      else vendor_request env GSCAN_SUBCMD_SET_EPNO_SSID (epno_setup_steps p) r)"

definition epno_createTeardownRequest :: "req_env \<Rightarrow> wifi_request \<Rightarrow> ub + int \<times> wifi_request" where
  "epno_createTeardownRequest env r =
     vendor_request env GSCAN_SUBCMD_SET_EPNO_SSID
       [Start NL80211_ATTR_VENDOR_DATA False, put_u8 GSCAN_ATTRIBUTE_EPNO_FLUSH 1, End] r"

text \<open>
  A passpoint network. \<open>AnqpoConfigureCommand::createRequest\<close> drops the result of \<open>create\<close>, does not
  use its argument \<open>val\<close>, and puts the size of the list outside of the vendor data.
\<close>

record passpoint_network =
  pn_id :: u32
  pn_realm :: "u8 list"
  pn_roamingConsortiumIds :: "u8 list"
  pn_plmn :: "u8 list"

definition passpoint_steps :: "nat \<times> passpoint_network \<Rightarrow> req_step list" where
  "passpoint_steps inn = (case inn of (i, n) \<Rightarrow>
     [Start i True,
      put_u32 GSCAN_ATTRIBUTE_ANQPO_HS_NETWORK_ID (pn_id n),
      Put GSCAN_ATTRIBUTE_ANQPO_HS_NAI_REALM (take 256 (pn_realm n)),
      Put GSCAN_ATTRIBUTE_ANQPO_HS_ROAM_CONSORTIUM_ID (take 128 (pn_roamingConsortiumIds n)),
      Put GSCAN_ATTRIBUTE_ANQPO_HS_PLMN (take 3 (pn_plmn n)),
      End])"

definition anqpo_steps :: "passpoint_network list \<Rightarrow> req_step list" where
  "anqpo_steps nets =
     [put_u32 GSCAN_ATTRIBUTE_ANQPO_HS_LIST_SIZE (word_of_nat (length nets)),
      Start NL80211_ATTR_VENDOR_DATA False,
      Start GSCAN_ATTRIBUTE_ANQPO_HS_LIST False] @
     concat (map passpoint_steps (enumerate 0 nets)) @
     [End, End]"

definition anqpo_createRequest ::
  "req_env \<Rightarrow> passpoint_network list \<Rightarrow> int \<Rightarrow> wifi_request \<Rightarrow> ub + int \<times> wifi_request" where
  "anqpo_createRequest env nets val r =
     or_success (assemble env (anqpo_steps nets) []
       (req_create_vendor env GOOGLE_OUI GSCAN_SUBCMD_ANQPO_CONFIG r))"

end
