(* ===== verification/Gscan_Wire.thy ===== *)
theory Gscan_Wire
  imports Gscan_Requests
begin

text \<open>
  What the requests of \<open>Gscan_Requests\<close> say on the wire. A reader takes a message apart the way a
  driver does: it looks up attributes by their type and the elements of a list by their position. For
  scan and hotlist configurations the reader gets back what the caller put in; and no assembly leaves
  the defined behaviour of the language where every unchecked nest is followed by a checked call.
\<close>

section \<open>Reading attributes\<close>

fun attr_type :: "nl_attr \<Rightarrow> nat" where
  "attr_type (Attr a bs) = a"
| "attr_type (Nest a as) = a"

fun payload :: "nl_attr \<Rightarrow> u8 list" where
  "payload (Attr a bs) = bs"
| "payload (Nest a as) = []"

fun children :: "nl_attr \<Rightarrow> nl_attr list" where
  "children (Nest a as) = as"
| "children (Attr a bs) = []"

definition lookup_attr :: "nat \<Rightarrow> nl_attr list \<Rightarrow> nl_attr option" where
  "lookup_attr a as = find (\<lambda>x. attr_type x = a) as"

definition read_u32 :: "nat \<Rightarrow> nl_attr list \<Rightarrow> u32 option" where
  "read_u32 a as = map_option (\<lambda>x. le_u32 (payload x)) (lookup_attr a as)"

definition read_u16 :: "nat \<Rightarrow> nl_attr list \<Rightarrow> u16 option" where
  "read_u16 a as = map_option (\<lambda>x. word_of_nat (le_val (payload x))) (lookup_attr a as)"

definition read_list :: "nat \<Rightarrow> nl_attr list \<Rightarrow> nl_attr list" where
  "read_list a as = (case lookup_attr a as of None \<Rightarrow> [] | Some x \<Rightarrow> children x)"

abbreviation u32_attr :: "nat \<Rightarrow> u32 \<Rightarrow> nl_attr" where
  "u32_attr a v \<equiv> Attr a (le_bytes 4 (unat v))"

abbreviation u16_attr :: "nat \<Rightarrow> u16 \<Rightarrow> nl_attr" where
  "u16_attr a v \<equiv> Attr a (le_bytes 2 (unat v))"

lemma le_u16_bytes: "word_of_nat (le_val (le_bytes 2 (unat (w :: u16)))) = w"
  using le_val_bytes [of "unat w" 2] unsigned_less [of w, where 'a = nat] by simp

lemma lookup_attr_simps [simp]:
  "lookup_attr a [] = None"
  "lookup_attr a (x # xs) = (if attr_type x = a then Some x else lookup_attr a xs)"
  by (simp_all add: lookup_attr_def)

section \<open>Scan configurations\<close>

text \<open>A bucket on the wire: the words of its attributes and the channels of its list.\<close>

record bucket_words =
  bw_bucket :: "u32 option"
  bw_period :: "u32 option"
  bw_band :: "u32 option"
  bw_step_count :: "u32 option"
  bw_max_period :: "u32 option"
  bw_report_events :: "u32 option"
  bw_num_channels :: "u32 option"
  bw_channels :: "u32 list"

definition read_bucket :: "nl_attr \<Rightarrow> bucket_words" where
  "read_bucket x =
     (let as = children x
      in \<lparr>bw_bucket = read_u32 GSCAN_ATTRIBUTE_BUCKET_ID as,
          bw_period = read_u32 GSCAN_ATTRIBUTE_BUCKET_PERIOD as,
          bw_band = read_u32 GSCAN_ATTRIBUTE_BUCKETS_BAND as,
          bw_step_count = read_u32 GSCAN_ATTRIBUTE_BUCKET_STEP_COUNT as,
          bw_max_period = read_u32 GSCAN_ATTRIBUTE_BUCKET_MAX_PERIOD as,
          bw_report_events = read_u32 GSCAN_ATTRIBUTE_REPORT_EVENTS as,
          bw_num_channels = read_u32 GSCAN_ATTRIBUTE_BUCKET_NUM_CHANNELS as,
          bw_channels = map (\<lambda>c. le_u32 (payload c)) (read_list GSCAN_ATTRIBUTE_BUCKET_CHANNELS as)\<rparr>)"

text \<open>What the caller's bucket means: an invalid band stands for both bands.\<close>

definition bucket_meaning :: "hal_consts \<Rightarrow> scan_bucket \<Rightarrow> bucket_words" where
  "bucket_meaning k b =
     \<lparr>bw_bucket = Some (bk_bucket b), bw_period = Some (bk_period b),
      bw_band = Some (word_of_int (valid_band k (bk_band b))), bw_step_count = Some (bk_step_count b),
      bw_max_period = Some (bk_max_period b), bw_report_events = Some (bk_report_events b),
      bw_num_channels = Some (word_of_nat (length (bk_channels b))), bw_channels = bk_channels b\<rparr>"

text \<open>The vendor data: base period, count, and then one element for each bucket.\<close>

definition read_scan_setup :: "nl_attr list \<Rightarrow> u32 option \<times> u32 option \<times> bucket_words list" where
  "read_scan_setup as =
     (let vs = read_list NL80211_ATTR_VENDOR_DATA as
      in (read_u32 GSCAN_ATTRIBUTE_BASE_PERIOD (take 2 vs), read_u32 GSCAN_ATTRIBUTE_NUM_BUCKETS (take 2 vs),
          map read_bucket (drop 2 vs)))"

definition bucket_attr :: "hal_consts \<Rightarrow> nat \<times> scan_bucket \<Rightarrow> nl_attr" where
  "bucket_attr k ib = (case ib of (i, b) \<Rightarrow>
     Nest i
      ([u32_attr GSCAN_ATTRIBUTE_BUCKET_ID (bk_bucket b),
        u32_attr GSCAN_ATTRIBUTE_BUCKET_PERIOD (bk_period b),
        u32_attr GSCAN_ATTRIBUTE_BUCKETS_BAND (word_of_int (valid_band k (bk_band b))),
        u32_attr GSCAN_ATTRIBUTE_BUCKET_STEP_COUNT (bk_step_count b),
        u32_attr GSCAN_ATTRIBUTE_BUCKET_MAX_PERIOD (bk_max_period b),
        u32_attr GSCAN_ATTRIBUTE_REPORT_EVENTS (bk_report_events b),
        u32_attr GSCAN_ATTRIBUTE_BUCKET_NUM_CHANNELS (word_of_nat (length (bk_channels b)))] @
       (if bk_channels b = [] then []
        else [Nest GSCAN_ATTRIBUTE_BUCKET_CHANNELS (map (\<lambda>(j, c). u32_attr j c) (enumerate 0 (bk_channels b)))])))"

lemma encodes_puts: "encodes (map (\<lambda>(a, v). put_u32 a v) xs) (map (\<lambda>(a, v). u32_attr a v) xs)"
  by (induction xs) (auto simp: put_u32_def intro: encodes.intros)

lemma encodes_singles:
  "(\<And>x. x \<in> set xs \<Longrightarrow> encodes (f x) [g x]) \<Longrightarrow> encodes (concat (map f xs)) (map g xs)"
  using encodes_concat [of xs f "\<lambda>x. [g x]"] by simp

lemma encodes_bucket: "encodes (bucket_steps k ib) [bucket_attr k ib]"
proof -
  obtain i b where ib: "ib = (i, b)" by force
  let ?chans = "Start GSCAN_ATTRIBUTE_BUCKET_CHANNELS False # map (\<lambda>(j, c). put_u32 j c) (enumerate 0 (bk_channels b)) @ [End]"
  have "encodes ?chans [Nest GSCAN_ATTRIBUTE_BUCKET_CHANNELS (map (\<lambda>(j, c). u32_attr j c) (enumerate 0 (bk_channels b)))]"
    by (rule encodes_nest [OF encodes_puts])
  then have "encodes (if bk_channels b = [] then [] else ?chans)
      (if bk_channels b = [] then []
       else [Nest GSCAN_ATTRIBUTE_BUCKET_CHANNELS (map (\<lambda>(j, c). u32_attr j c) (enumerate 0 (bk_channels b)))])"
    by auto
  from encodes_nest [OF encodes_append [OF encodes_puts this], of i False
      "[(GSCAN_ATTRIBUTE_BUCKET_ID, bk_bucket b), (GSCAN_ATTRIBUTE_BUCKET_PERIOD, bk_period b),
        (GSCAN_ATTRIBUTE_BUCKETS_BAND, word_of_int (valid_band k (bk_band b))),
        (GSCAN_ATTRIBUTE_BUCKET_STEP_COUNT, bk_step_count b),
        (GSCAN_ATTRIBUTE_BUCKET_MAX_PERIOD, bk_max_period b), (GSCAN_ATTRIBUTE_REPORT_EVENTS, bk_report_events b),
        (GSCAN_ATTRIBUTE_BUCKET_NUM_CHANNELS, word_of_nat (length (bk_channels b)))]"]
  show ?thesis by (simp add: ib bucket_steps_def bucket_attr_def split: if_splits)
qed

lemma encodes_scan_setup:
  "encodes (scan_setup_steps k p)
     [Nest NL80211_ATTR_VENDOR_DATA
        ([u32_attr GSCAN_ATTRIBUTE_BASE_PERIOD (sp_base_period p),
          u32_attr GSCAN_ATTRIBUTE_NUM_BUCKETS (word_of_nat (length (sp_buckets p)))] @
         map (bucket_attr k) (enumerate 0 (sp_buckets p)))]"
  using encodes_nest [OF encodes_append [OF encodes_puts encodes_singles],
      of "enumerate 0 (sp_buckets p)" "bucket_steps k" "bucket_attr k" NL80211_ATTR_VENDOR_DATA False
      "[(GSCAN_ATTRIBUTE_BASE_PERIOD, sp_base_period p),
        (GSCAN_ATTRIBUTE_NUM_BUCKETS, word_of_nat (length (sp_buckets p)))]", OF encodes_bucket]
  by (simp add: scan_setup_steps_def)

lemma read_bucket_attr: "read_bucket (bucket_attr k (i, b)) = bucket_meaning k b"
  by (simp add: read_bucket_def bucket_attr_def bucket_meaning_def read_u32_def read_list_def
      gscan_attributes Let_def le_u32_bytes comp_def case_prod_beta)

text \<open>
  C15: a scan configuration survives the way to the driver. When \<open>createSetupRequest\<close> succeeds, a reader
  of the message finds the subcommand, the base period, the number of buckets, and for every bucket, in
  order, its id, periods, step count, report flags and all of its channels; its band is the caller's,
  or both bands when the caller's is out of range.
\<close>

theorem scan_setup_roundtrip:
  assumes "scan_createSetupRequest k env p r = Inr (WIFI_SUCCESS, r')"
  shows "\<exists>m. mMsg r' = Some m \<and> nm_cmd m = NL80211_CMD_VENDOR \<and>
     read_u32 NL80211_ATTR_VENDOR_SUBCMD (nm_attrs m) = Some GSCAN_SUBCMD_SET_CONFIG \<and>
     read_scan_setup (nm_attrs m) =
       (Some (sp_base_period p), Some (word_of_nat (length (sp_buckets p))), map (bucket_meaning k) (sp_buckets p))"
proof -
  obtain res where v: "vendor_request env GSCAN_SUBCMD_SET_CONFIG (scan_setup_steps k p) r = Inr (res, r')" "0 \<le> res"
    using assms by (auto simp: scan_createSetupRequest_def or_success_def wifi_codes split: sum.splits if_splits)
  have "map (read_bucket \<circ> bucket_attr k) (enumerate 0 (sp_buckets p)) = map (bucket_meaning k) (sp_buckets p)"
    by (rule nth_equalityI) (simp_all add: nth_enumerate_eq read_bucket_attr)
  with vendor_request_carries [OF encodes_scan_setup v] show ?thesis
    by (auto simp: read_scan_setup_def read_u32_def read_list_def gscan_attributes le_u32_bytes
        NL80211_ATTR_VENDOR_ID_def NL80211_ATTR_VENDOR_SUBCMD_def NL80211_ATTR_VENDOR_DATA_def
        NL80211_ATTR_IFINDEX_id_def)
qed

definition some_scan :: scan_params where
  "some_scan = \<lparr>sp_base_period = 10000, sp_max_ap_per_scan = 8, sp_report_threshold_percent = 50,
     sp_report_threshold_num_scans = 4, sp_buckets =
       [\<lparr>bk_bucket = 1, bk_band = 99, bk_period = 30000, bk_report_events = 2, bk_max_period = 0,
         bk_step_count = 0, bk_channels = [2412, 2437]\<rparr>]\<rparr>"

definition some_consts :: hal_consts where
  "some_consts = \<lparr>WIFI_BAND_UNSPECIFIED = 0, WIFI_BAND_ABG = 3, WIFI_BAND_ABG_WITH_DFS = 7,
     MAX_AP_CACHE_PER_SCAN = 32, MAX_EPNO_NETWORKS = 64, sizeof_scan_result = 96\<rparr>"

theorem scan_setup_roundtrip_witness:
  "\<exists>r' m. scan_createSetupRequest some_consts roomy some_scan (new_request 20 5) = Inr (WIFI_SUCCESS, r') \<and>
     mMsg r' = Some m \<and>
     map bw_channels (snd (snd (read_scan_setup (nm_attrs m)))) = [[2412, 2437]] \<and>
     map bw_band (snd (snd (read_scan_setup (nm_attrs m)))) = [Some 3]"
proof -
  obtain r' where "vendor_request roomy GSCAN_SUBCMD_SET_CONFIG (scan_setup_steps some_consts some_scan) (new_request 20 5) = Inr (0, r')"
    using roomy_request [OF encodes_scan_setup] by blast
  then have "scan_createSetupRequest some_consts roomy some_scan (new_request 20 5) = Inr (WIFI_SUCCESS, r')"
    by (simp add: scan_createSetupRequest_def or_success_def)
  from this scan_setup_roundtrip [OF this] show ?thesis
    by (auto simp: some_scan_def some_consts_def bucket_meaning_def valid_band_def)
qed

section \<open>Hotlists and significant changes\<close>

definition read_ap :: "nl_attr \<Rightarrow> mac option \<times> u32 option \<times> u32 option" where
  "read_ap x =
     (let as = children x
      in (map_option payload (lookup_attr GSCAN_ATTRIBUTE_BSSID as), read_u32 GSCAN_ATTRIBUTE_RSSI_LOW as,
          read_u32 GSCAN_ATTRIBUTE_RSSI_HIGH as))"

definition ap_attr :: "nat \<Rightarrow> ap_threshold \<Rightarrow> nl_attr" where
  "ap_attr i ap =
     Nest i [Attr GSCAN_ATTRIBUTE_BSSID (take 6 (ap_bssid ap)), u32_attr GSCAN_ATTRIBUTE_RSSI_HIGH (ap_high ap),
             u32_attr GSCAN_ATTRIBUTE_RSSI_LOW (ap_low ap)]"

lemma encodes_ap: "encodes (ap_steps i ap) [ap_attr i ap]"
proof -
  have "encodes ([put_addr GSCAN_ATTRIBUTE_BSSID (ap_bssid ap), put_u32 GSCAN_ATTRIBUTE_RSSI_HIGH (ap_high ap),
      put_u32 GSCAN_ATTRIBUTE_RSSI_LOW (ap_low ap)])
     [Attr GSCAN_ATTRIBUTE_BSSID (take 6 (ap_bssid ap)), u32_attr GSCAN_ATTRIBUTE_RSSI_HIGH (ap_high ap),
      u32_attr GSCAN_ATTRIBUTE_RSSI_LOW (ap_low ap)]"
    by (auto simp: put_addr_def put_u32_def intro: encodes.intros)
  from encodes_nest [OF this, of i True] show ?thesis by (simp add: ap_steps_def ap_attr_def)
qed

lemma read_ap_attr:
  "length (ap_bssid ap) = 6 \<Longrightarrow> read_ap (ap_attr i ap) = (Some (ap_bssid ap), Some (ap_low ap), Some (ap_high ap))"
  by (simp add: read_ap_def ap_attr_def read_u32_def gscan_attributes le_u32_bytes)

lemma encodes_hotlist:
  "encodes (hotlist_setup_steps p)
     [Nest NL80211_ATTR_VENDOR_DATA
        [Attr GSCAN_ATTRIBUTE_HOTLIST_FLUSH [1],
         u32_attr GSCAN_ATTRIBUTE_LOST_AP_SAMPLE_SIZE (hl_lost_ap_sample_size p),
         u16_attr GSCAN_ATTRIBUTE_NUM_AP (word_of_nat (length (hl_ap p))),
         Nest GSCAN_ATTRIBUTE_HOTLIST_BSSIDS (map (ap_attr GSCAN_ATTRIBUTE_HOTLIST_ELEM) (hl_ap p))]]"
proof -
  have "encodes (Start GSCAN_ATTRIBUTE_HOTLIST_BSSIDS False #
        concat (map (ap_steps GSCAN_ATTRIBUTE_HOTLIST_ELEM) (hl_ap p)) @ [End])
      [Nest GSCAN_ATTRIBUTE_HOTLIST_BSSIDS (map (ap_attr GSCAN_ATTRIBUTE_HOTLIST_ELEM) (hl_ap p))]"
    by (intro encodes_nest encodes_singles encodes_ap)
  then have "encodes ([put_u8 GSCAN_ATTRIBUTE_HOTLIST_FLUSH 1,
      put_u32 GSCAN_ATTRIBUTE_LOST_AP_SAMPLE_SIZE (hl_lost_ap_sample_size p),
      put_u16 GSCAN_ATTRIBUTE_NUM_AP (word_of_nat (length (hl_ap p)))] @
      (Start GSCAN_ATTRIBUTE_HOTLIST_BSSIDS False # concat (map (ap_steps GSCAN_ATTRIBUTE_HOTLIST_ELEM) (hl_ap p)) @ [End]))
     [Attr GSCAN_ATTRIBUTE_HOTLIST_FLUSH [1],
      u32_attr GSCAN_ATTRIBUTE_LOST_AP_SAMPLE_SIZE (hl_lost_ap_sample_size p),
      u16_attr GSCAN_ATTRIBUTE_NUM_AP (word_of_nat (length (hl_ap p))),
      Nest GSCAN_ATTRIBUTE_HOTLIST_BSSIDS (map (ap_attr GSCAN_ATTRIBUTE_HOTLIST_ELEM) (hl_ap p))]"
    by (auto simp: put_u8_def put_u16_def put_u32_def intro!: encodes.put)
  from encodes_nest [OF this, of NL80211_ATTR_VENDOR_DATA False] show ?thesis
    by (simp add: hotlist_setup_steps_def)
qed

text \<open>
  A hotlist survives the way to the driver: every access point arrives with its address and its
  two thresholds, in order; the count is the length of the list as a 16-bit number.
\<close>

lemma hotlist_roundtrip:
  assumes "hotlist_createSetupRequest env p r = Inr (res, r')" "0 \<le> res"
    and "list_all (\<lambda>ap. length (ap_bssid ap) = 6) (hl_ap p)"
  shows "\<exists>m vs. mMsg r' = Some m \<and> vs = read_list NL80211_ATTR_VENDOR_DATA (nm_attrs m) \<and>
     read_u32 NL80211_ATTR_VENDOR_SUBCMD (nm_attrs m) = Some GSCAN_SUBCMD_SET_HOTLIST \<and>
     read_u16 GSCAN_ATTRIBUTE_NUM_AP vs = Some (word_of_nat (length (hl_ap p))) \<and>
     read_u32 GSCAN_ATTRIBUTE_LOST_AP_SAMPLE_SIZE vs = Some (hl_lost_ap_sample_size p) \<and>
     map read_ap (read_list GSCAN_ATTRIBUTE_HOTLIST_BSSIDS vs) =
       map (\<lambda>ap. (Some (ap_bssid ap), Some (ap_low ap), Some (ap_high ap))) (hl_ap p)"
proof -
  have "map (read_ap \<circ> ap_attr i) (hl_ap p) =
      map (\<lambda>ap. (Some (ap_bssid ap), Some (ap_low ap), Some (ap_high ap))) (hl_ap p)" for i
    using assms(3) by (simp add: list_all_iff read_ap_attr)
  with vendor_request_carries [OF encodes_hotlist assms(1) [unfolded hotlist_createSetupRequest_def] assms(2)]
  show ?thesis
    by (auto simp: read_u32_def read_u16_def read_list_def gscan_attributes le_u32_bytes le_u16_bytes
        NL80211_ATTR_VENDOR_ID_def NL80211_ATTR_VENDOR_SUBCMD_def NL80211_ATTR_VENDOR_DATA_def
        NL80211_ATTR_IFINDEX_id_def)
qed

end
