(* ===== verification/Gscan_Commands.thy ===== *)
theory Gscan_Commands
  imports Gscan_Requests
begin

text \<open>
  The commands of \<open>wifi_hal/gscan.cpp\<close> that stay registered and receive events: background scans, full
  scan results, the BSSID hotlist, ePNO lists, significant changes and passpoint networks. Each class
  has a \<open>start\<close> with up to three exchanges and a \<open>cancel\<close>; the functions of the HAL register, start and
  cancel them. Every class is an interpretation of the contract \<open>event_command\<close>.

  \<open>nets j\<close> is the behaviour of the kernel in the \<open>j\<close>-th exchange of a command. A request object that
  is used again is created anew, which drops the old message; \<open>r\<close> stands for its family and interface.
\<close>

section \<open>Events\<close>

definition GSCAN_EVENT_SIGNIFICANT_CHANGE_RESULTS :: int where "GSCAN_EVENT_SIGNIFICANT_CHANGE_RESULTS = 0"
definition GSCAN_EVENT_HOTLIST_RESULTS_FOUND :: int where "GSCAN_EVENT_HOTLIST_RESULTS_FOUND = 1"
definition GSCAN_EVENT_SCAN_RESULTS_AVAILABLE :: int where "GSCAN_EVENT_SCAN_RESULTS_AVAILABLE = 2"
definition GSCAN_EVENT_FULL_SCAN_RESULTS :: int where "GSCAN_EVENT_FULL_SCAN_RESULTS = 3"
definition RTT_EVENT_COMPLETE :: int where "RTT_EVENT_COMPLETE = 4"
definition GSCAN_EVENT_COMPLETE_SCAN :: int where "GSCAN_EVENT_COMPLETE_SCAN = 5"
definition GSCAN_EVENT_HOTLIST_RESULTS_LOST :: int where "GSCAN_EVENT_HOTLIST_RESULTS_LOST = 6"
definition GSCAN_EVENT_EPNO_EVENT :: int where "GSCAN_EVENT_EPNO_EVENT = 8"
definition GSCAN_EVENT_ANQPO_HOTSPOT_MATCH :: int where "GSCAN_EVENT_ANQPO_HOTSPOT_MATCH = 9"

lemmas gscan_events = GSCAN_EVENT_SIGNIFICANT_CHANGE_RESULTS_def GSCAN_EVENT_HOTLIST_RESULTS_FOUND_def
  GSCAN_EVENT_SCAN_RESULTS_AVAILABLE_def GSCAN_EVENT_FULL_SCAN_RESULTS_def RTT_EVENT_COMPLETE_def
  GSCAN_EVENT_COMPLETE_SCAN_def GSCAN_EVENT_HOTLIST_RESULTS_LOST_def GSCAN_EVENT_EPNO_EVENT_def
  GSCAN_EVENT_ANQPO_HOTSPOT_MATCH_def

text \<open>Which events a class registers for, in the order of its calls.\<close>

definition scan_events :: "int list" where
  "scan_events = [GSCAN_EVENT_SCAN_RESULTS_AVAILABLE, GSCAN_EVENT_COMPLETE_SCAN, GSCAN_EVENT_FULL_SCAN_RESULTS]"

definition scan_events_removed :: "int list" where
  "scan_events_removed = [GSCAN_EVENT_COMPLETE_SCAN, GSCAN_EVENT_SCAN_RESULTS_AVAILABLE, GSCAN_EVENT_FULL_SCAN_RESULTS]"

definition hotlist_events :: "int list" where
  "hotlist_events = [GSCAN_EVENT_HOTLIST_RESULTS_FOUND, GSCAN_EVENT_HOTLIST_RESULTS_LOST]"

section \<open>Patterns of the exchanges\<close>

text \<open>
  The last exchange of a start: the handlers are registered before the request is sent and removed
  again when it fails. Some classes compare the result with \<open>WIFI_SUCCESS\<close>, others ask whether it is
  negative; \<open>failed\<close> is that test.
\<close>

definition exchange_registered ::
  "(int \<Rightarrow> bool) \<Rightarrow> unit cmd_net \<Rightarrow> int list \<Rightarrow> int list \<Rightarrow> ptr \<Rightarrow> ptr \<Rightarrow> hal_tabs \<Rightarrow> (int \<times> hal_tabs) run" where
  "exchange_registered failed net es es' func this info =
     (let info1 = register_events es func this info
      in run_then (skip_exchange net)
           (\<lambda>result. if failed result then ret (result, unregister_events es' info1) else ret (result, info1)))"

text \<open>An earlier exchange: a failure ends the start, after \<open>undo\<close>.\<close>

definition step_or ::
  "(int \<Rightarrow> bool) \<Rightarrow> int run \<Rightarrow> (hal_tabs \<Rightarrow> hal_tabs) \<Rightarrow> (hal_tabs \<Rightarrow> (int \<times> hal_tabs) run) \<Rightarrow> hal_tabs
    \<Rightarrow> (int \<times> hal_tabs) run" where
  "step_or failed m undo cont info =
     run_then m (\<lambda>result. if failed result then ret (result, undo info) else cont info)"

text \<open>A cancellation that tells the driver first and logs a failure, and one that tells it last.\<close>

definition tell_unregister ::
  "unit cmd_net \<Rightarrow> ub + int \<times> wifi_request \<Rightarrow> int list \<Rightarrow> hal_tabs \<Rightarrow> (int \<times> hal_tabs) run" where
  "tell_unregister net c es info =
     run_then (transact_ne net c) (\<lambda>_. ret (WIFI_SUCCESS, unregister_events es info))"

definition unregister_tell ::
  "unit cmd_net \<Rightarrow> ub + int \<times> wifi_request \<Rightarrow> int list \<Rightarrow> hal_tabs \<Rightarrow> (int \<times> hal_tabs) run" where
  "unregister_tell net c es info =
     run_then (transact net c) (\<lambda>result. ret (result, unregister_events es info))"

section \<open>Scans\<close>

text \<open>\<open>ScanCommand::start\<close> and \<open>cancel\<close>\<close>

definition scan_start ::
  "hal_consts \<Rightarrow> req_env \<Rightarrow> (nat \<Rightarrow> unit cmd_net) \<Rightarrow> wifi_request \<Rightarrow> scan_params \<Rightarrow> ptr \<Rightarrow> ptr \<Rightarrow> hal_tabs
    \<Rightarrow> (int \<times> hal_tabs) run" where
  "scan_start k env nets r p func this =
     step_or (\<lambda>x. x \<noteq> WIFI_SUCCESS) (transact_ne (nets 0) (scan_createSetupRequest k env p r)) (\<lambda>t. t)
       (step_or (\<lambda>x. x \<noteq> WIFI_SUCCESS) (transact_ne (nets 1) (scan_createScanConfigRequest env p r)) (\<lambda>t. t)
         (step_or (\<lambda>x. x \<noteq> WIFI_SUCCESS) (creation (createFeatureRequest env GSCAN_SUBCMD_ENABLE_GSCAN 1 r)) (\<lambda>t. t)
           (exchange_registered (\<lambda>x. x \<noteq> WIFI_SUCCESS) (nets 2) scan_events scan_events_removed func this)))"

definition scan_cancel :: "req_env \<Rightarrow> unit cmd_net \<Rightarrow> wifi_request \<Rightarrow> hal_tabs \<Rightarrow> (int \<times> hal_tabs) run" where
  "scan_cancel env net r =
     tell_unregister net (createFeatureRequest env GSCAN_SUBCMD_ENABLE_GSCAN 0 r) scan_events_removed"

text \<open>\<open>FullScanResultsCommand::start\<close> and \<open>cancel\<close>\<close>

definition full_scan_start ::
  "req_env \<Rightarrow> unit cmd_net \<Rightarrow> wifi_request \<Rightarrow> ptr \<Rightarrow> ptr \<Rightarrow> hal_tabs \<Rightarrow> (int \<times> hal_tabs) run" where
  "full_scan_start env net r func this =
     step_or (\<lambda>x. x \<noteq> WIFI_SUCCESS)
       (creation (full_scan_createRequest env GSCAN_SUBCMD_ENABLE_FULL_SCAN_RESULTS 1 r)) (\<lambda>t. t)
       (exchange_registered (\<lambda>x. x \<noteq> WIFI_SUCCESS) net [GSCAN_EVENT_FULL_SCAN_RESULTS]
         [GSCAN_EVENT_FULL_SCAN_RESULTS] func this)"

definition full_scan_cancel :: "req_env \<Rightarrow> unit cmd_net \<Rightarrow> wifi_request \<Rightarrow> hal_tabs \<Rightarrow> (int \<times> hal_tabs) run" where
  "full_scan_cancel env net r =
     tell_unregister net (full_scan_createRequest env GSCAN_SUBCMD_ENABLE_FULL_SCAN_RESULTS 0 r)
       [GSCAN_EVENT_FULL_SCAN_RESULTS]"

section \<open>Access points, networks, significant changes\<close>

text \<open>
  \<open>BssidHotlistCommand::start\<close> and \<open>cancel\<close>. When the list is refused, the start removes handlers that it
  has not registered.
\<close>

definition hotlist_start ::
  "req_env \<Rightarrow> (nat \<Rightarrow> unit cmd_net) \<Rightarrow> wifi_request \<Rightarrow> hotlist_params \<Rightarrow> ptr \<Rightarrow> ptr \<Rightarrow> hal_tabs
    \<Rightarrow> (int \<times> hal_tabs) run" where
  "hotlist_start env nets r p func this =
     step_or (\<lambda>x. x < 0) (creation (hotlist_createSetupRequest env p r)) (\<lambda>t. t)
       (step_or (\<lambda>x. x < 0) (skip_exchange (nets 0)) (unregister_events hotlist_events)
         (step_or (\<lambda>x. x < 0) (creation (createFeatureRequest env GSCAN_SUBCMD_ENABLE_GSCAN 1 r)) (\<lambda>t. t)
           (exchange_registered (\<lambda>x. x < 0) (nets 1) hotlist_events hotlist_events func this)))"

definition hotlist_cancel :: "req_env \<Rightarrow> unit cmd_net \<Rightarrow> wifi_request \<Rightarrow> hal_tabs \<Rightarrow> (int \<times> hal_tabs) run" where
  "hotlist_cancel env net r = unregister_tell net (hotlist_createTeardownRequest env r) hotlist_events"

text \<open>\<open>ePNOCommand::start\<close> and \<open>cancel\<close>\<close>

definition epno_start ::
  "hal_consts \<Rightarrow> req_env \<Rightarrow> unit cmd_net \<Rightarrow> wifi_request \<Rightarrow> epno_params \<Rightarrow> ptr \<Rightarrow> ptr \<Rightarrow> hal_tabs
    \<Rightarrow> (int \<times> hal_tabs) run" where
  "epno_start k env net r p func this info =
     run_then (creation (epno_createSetupRequest k env p r))
       (\<lambda>result. if result < 0 then ret (result, info)
         else run_then (skip_exchange net)
           (\<lambda>result. if result < 0 then ret (result, unregister_events [GSCAN_EVENT_EPNO_EVENT] info)
                     else ret (result, register_events [GSCAN_EVENT_EPNO_EVENT] func this info)))"

definition epno_cancel :: "req_env \<Rightarrow> unit cmd_net \<Rightarrow> wifi_request \<Rightarrow> hal_tabs \<Rightarrow> (int \<times> hal_tabs) run" where
  "epno_cancel env net r = unregister_tell net (epno_createTeardownRequest env r) [GSCAN_EVENT_EPNO_EVENT]"

text \<open>\<open>SignificantWifiChangeCommand::start\<close> and \<open>cancel\<close>\<close>

definition significant_start ::
  "req_env \<Rightarrow> (nat \<Rightarrow> unit cmd_net) \<Rightarrow> wifi_request \<Rightarrow> significant_change_params \<Rightarrow> ptr \<Rightarrow> ptr \<Rightarrow> hal_tabs
    \<Rightarrow> (int \<times> hal_tabs) run" where
  "significant_start env nets r p func this =
     step_or (\<lambda>x. x < 0) (transact (nets 0) (significant_createSetupRequest env p r)) (\<lambda>t. t)
       (step_or (\<lambda>x. x < 0) (creation (createFeatureRequest env GSCAN_SUBCMD_ENABLE_GSCAN 1 r)) (\<lambda>t. t)
         (exchange_registered (\<lambda>x. x < 0) (nets 1) [GSCAN_EVENT_SIGNIFICANT_CHANGE_RESULTS]
           [GSCAN_EVENT_SIGNIFICANT_CHANGE_RESULTS] func this))"

definition significant_cancel :: "req_env \<Rightarrow> unit cmd_net \<Rightarrow> wifi_request \<Rightarrow> hal_tabs \<Rightarrow> (int \<times> hal_tabs) run" where
  "significant_cancel env net r =
     unregister_tell net (significant_createTeardownRequest env r) [GSCAN_EVENT_SIGNIFICANT_CHANGE_RESULTS]"

text \<open>\<open>AnqpoConfigureCommand::start\<close> and \<open>cancel\<close>\<close>

definition anqpo_start ::
  "req_env \<Rightarrow> unit cmd_net \<Rightarrow> wifi_request \<Rightarrow> passpoint_network list \<Rightarrow> ptr \<Rightarrow> ptr \<Rightarrow> hal_tabs
    \<Rightarrow> (int \<times> hal_tabs) run" where
  "anqpo_start env net r networks func this =
     step_or (\<lambda>x. x \<noteq> WIFI_SUCCESS) (creation (anqpo_createRequest env networks (int (length networks)) r)) (\<lambda>t. t)
       (exchange_registered (\<lambda>x. x \<noteq> WIFI_SUCCESS) net [GSCAN_EVENT_ANQPO_HOTSPOT_MATCH]
         [GSCAN_EVENT_ANQPO_HOTSPOT_MATCH] func this)"

definition anqpo_cancel ::
  "req_env \<Rightarrow> unit cmd_net \<Rightarrow> wifi_request \<Rightarrow> passpoint_network list \<Rightarrow> hal_tabs \<Rightarrow> (int \<times> hal_tabs) run" where
  "anqpo_cancel env net r networks =
     tell_unregister net (anqpo_createRequest env networks 0 r) [GSCAN_EVENT_ANQPO_HOTSPOT_MATCH]"

section \<open>Functions of the HAL\<close>

text \<open>\<open>p\<close> is the new command, \<open>q\<close> a temporary one, \<open>vcancel\<close> the virtual \<open>cancel\<close> method.\<close>

definition wifi_start_gscan ::
  "hal_consts \<Rightarrow> req_env \<Rightarrow> (nat \<Rightarrow> unit cmd_net) \<Rightarrow> wifi_request \<Rightarrow> scan_params \<Rightarrow> ptr \<Rightarrow> ptr \<Rightarrow> int \<Rightarrow> hal_state
    \<Rightarrow> (wifi_error \<times> hal_state) run" where
  "wifi_start_gscan k env nets r params func p i st =
     start_registered (scan_start k env nets r params func p) p i st"

definition wifi_stop_gscan ::
  "(ptr \<Rightarrow> hal_state \<Rightarrow> hal_state run) \<Rightarrow> req_env \<Rightarrow> unit cmd_net \<Rightarrow> wifi_request \<Rightarrow> ptr \<Rightarrow> int \<Rightarrow> hal_state
    \<Rightarrow> (wifi_error \<times> hal_state) run" where
  "wifi_stop_gscan vcancel env net r q i st =
     (if i = -1 then cancel_temporary (scan_cancel env net r) q st else wifi_cancel_cmd vcancel i st)"

definition wifi_enable_full_scan_results ::
  "req_env \<Rightarrow> unit cmd_net \<Rightarrow> wifi_request \<Rightarrow> ptr \<Rightarrow> ptr \<Rightarrow> int \<Rightarrow> hal_state \<Rightarrow> (wifi_error \<times> hal_state) run" where
  "wifi_enable_full_scan_results env net r func p i st =
     start_registered (full_scan_start env net r func p) p i st"

definition wifi_disable_full_scan_results ::
  "(ptr \<Rightarrow> hal_state \<Rightarrow> hal_state run) \<Rightarrow> req_env \<Rightarrow> unit cmd_net \<Rightarrow> wifi_request \<Rightarrow> ptr \<Rightarrow> int \<Rightarrow> hal_state
    \<Rightarrow> (wifi_error \<times> hal_state) run" where
  "wifi_disable_full_scan_results vcancel env net r q i st =
     (if i = -1 then cancel_temporary (full_scan_cancel env net r) q st else wifi_cancel_cmd vcancel i st)"

definition wifi_set_bssid_hotlist ::
  "req_env \<Rightarrow> (nat \<Rightarrow> unit cmd_net) \<Rightarrow> wifi_request \<Rightarrow> hotlist_params \<Rightarrow> ptr \<Rightarrow> ptr \<Rightarrow> int \<Rightarrow> hal_state
    \<Rightarrow> (wifi_error \<times> hal_state) run" where
  "wifi_set_bssid_hotlist env nets r params func p i st =
     start_registered (hotlist_start env nets r params func p) p i st"

definition wifi_reset_bssid_hotlist ::
  "(ptr \<Rightarrow> hal_state \<Rightarrow> hal_state run) \<Rightarrow> int \<Rightarrow> hal_state \<Rightarrow> (wifi_error \<times> hal_state) run" where
  "wifi_reset_bssid_hotlist vcancel i st = wifi_cancel_cmd vcancel i st"

definition wifi_set_significant_change_handler ::
  "req_env \<Rightarrow> (nat \<Rightarrow> unit cmd_net) \<Rightarrow> wifi_request \<Rightarrow> significant_change_params \<Rightarrow> ptr \<Rightarrow> ptr \<Rightarrow> int \<Rightarrow> hal_state
    \<Rightarrow> (wifi_error \<times> hal_state) run" where
  "wifi_set_significant_change_handler env nets r params func p i st =
     start_registered (significant_start env nets r params func p) p i st"

definition wifi_reset_significant_change_handler ::
  "(ptr \<Rightarrow> hal_state \<Rightarrow> hal_state run) \<Rightarrow> int \<Rightarrow> hal_state \<Rightarrow> (wifi_error \<times> hal_state) run" where
  "wifi_reset_significant_change_handler vcancel i st = wifi_cancel_cmd vcancel i st"

text \<open>A null parameter block is a block of zeros, without networks.\<close>

definition no_epno_params :: epno_params where
  "no_epno_params = \<lparr>ep_min5GHz_rssi = 0, ep_min24GHz_rssi = 0, ep_initial_score_max = 0,
     ep_current_connection_bonus = 0, ep_same_network_bonus = 0, ep_secure_bonus = 0,
     ep_band5GHz_bonus = 0, ep_networks = []\<rparr>"

definition wifi_set_epno_list ::
  "hal_consts \<Rightarrow> req_env \<Rightarrow> unit cmd_net \<Rightarrow> wifi_request \<Rightarrow> epno_params option \<Rightarrow> ptr \<Rightarrow> ptr \<Rightarrow> int \<Rightarrow> hal_state
    \<Rightarrow> (wifi_error \<times> hal_state) run" where
  "wifi_set_epno_list k env net r params func p i st =
     start_registered
       (epno_start k env net r (case params of None \<Rightarrow> no_epno_params | Some e \<Rightarrow> e) func p) p i st"

definition wifi_reset_epno_list ::
  "(ptr \<Rightarrow> hal_state \<Rightarrow> hal_state run) \<Rightarrow> req_env \<Rightarrow> unit cmd_net \<Rightarrow> wifi_request \<Rightarrow> ptr \<Rightarrow> int \<Rightarrow> hal_state
    \<Rightarrow> (wifi_error \<times> hal_state) run" where
  "wifi_reset_epno_list vcancel env net r q i st =
     (if i = -1 then cancel_temporary (epno_cancel env net r) q st else wifi_cancel_cmd vcancel i st)"

definition wifi_set_passpoint_list ::
  "req_env \<Rightarrow> unit cmd_net \<Rightarrow> wifi_request \<Rightarrow> passpoint_network list \<Rightarrow> ptr \<Rightarrow> ptr \<Rightarrow> int \<Rightarrow> hal_state
    \<Rightarrow> (wifi_error \<times> hal_state) run" where
  "wifi_set_passpoint_list env net r networks func p i st =
     start_registered (anqpo_start env net r networks func p) p i st"

definition wifi_reset_passpoint_list ::
  "(ptr \<Rightarrow> hal_state \<Rightarrow> hal_state run) \<Rightarrow> int \<Rightarrow> hal_state \<Rightarrow> (wifi_error \<times> hal_state) run" where
  "wifi_reset_passpoint_list vcancel i st = wifi_cancel_cmd vcancel i st"

section \<open>The classes keep the contract\<close>

lemma distinct_gscan_events [simp]:
  "distinct scan_events" "distinct scan_events_removed" "distinct hotlist_events"
  "set scan_events_removed = set scan_events"
  by (auto simp: scan_events_def scan_events_removed_def hotlist_events_def gscan_events)

text \<open>The outcome of a start that the contract asks for.\<close>

definition start_keeps :: "int list \<Rightarrow> ptr \<Rightarrow> ptr \<Rightarrow> hal_tabs \<Rightarrow> (int \<times> hal_tabs) run \<Rightarrow> bool" where
  "start_keeps es func p info m \<longleftrightarrow> (\<forall>res info'. m = ret (res, info') \<longrightarrow>
     res \<le> 0 \<and> (if res = 0 then info' = register_events es func p info
                else hal_inv info' \<and> cmds info' = cmds info \<and> handlers info' = handlers info))"

lemma exchange_registered_keeps:
  assumes "hal_inv info" "no_handler es info" "distinct es" "distinct es'" "set es' = set es"
    and "\<And>x. x \<le> 0 \<Longrightarrow> failed x \<longleftrightarrow> x \<noteq> 0"
  shows "start_keeps es func p info (exchange_registered failed net es es' func p info)"
proof -
  let ?i = "register_events es func p info"
  have u: "hal_inv (unregister_events es' ?i) \<and> cmds (unregister_events es' ?i) = cmds info \<and>
      handlers (unregister_events es' ?i) = handlers info"
    using unregister_registered [OF assms(1-5), of func p] register_events_spec [OF assms(1), of es func p]
      unregister_events_spec [of ?i es'] by simp
  show ?thesis unfolding start_keeps_def
  proof (intro allI impI)
    fix res info' assume "exchange_registered failed net es es' func p info = ret (res, info')"
    then have "skip_exchange net = ret res" "info' = (if failed res then unregister_events es' ?i else ?i)"
      by (auto simp: exchange_registered_def Let_def run_then_eq_ret split: if_splits)
    with skip_exchange_nonpos [of net res] assms(6) [of res] u show "res \<le> 0 \<and> (if res = 0 then info' = ?i
        else hal_inv info' \<and> cmds info' = cmds info \<and> handlers info' = handlers info)" by simp
  qed
qed

lemma step_or_keeps:
  assumes "hal_inv info" "\<And>x. m = ret x \<Longrightarrow> failed x \<Longrightarrow> x < 0"
    and "hal_inv (undo info)" "cmds (undo info) = cmds info" "handlers (undo info) = handlers info"
    and "start_keeps es func p info (cont info)"
  shows "start_keeps es func p info (step_or failed m undo cont info)"
  using assms by (fastforce simp: start_keeps_def step_or_def run_then_eq_ret split: if_splits)

lemma creation_nonpos: "creation (or_success c) = ret x \<Longrightarrow> x \<le> 0"
  by (auto simp: creation_eq_ret dest: or_success_Inr)

lemma feature_creation_nonpos:
  "creation (createFeatureRequest env sub en r) = ret x \<Longrightarrow> x \<le> 0"
  "creation (full_scan_createRequest env sub en r) = ret x \<Longrightarrow> x \<le> 0"
  "creation (anqpo_createRequest env networks v r) = ret x \<Longrightarrow> x \<le> 0"
  by (simp_all add: createFeatureRequest_def full_scan_createRequest_def anqpo_createRequest_def creation_nonpos)

lemma scan_transact_nonpos:
  "transact_ne net (scan_createSetupRequest k env p r) = ret x \<Longrightarrow> x \<le> 0"
  "transact_ne net (scan_createScanConfigRequest env p r) = ret x \<Longrightarrow> x \<le> 0"
  by (simp_all add: scan_createSetupRequest_def scan_createScanConfigRequest_def transact_ne_nonpos)

lemmas start_nonpos = feature_creation_nonpos scan_transact_nonpos

lemma not_success: "x \<le> 0 \<Longrightarrow> x \<noteq> WIFI_SUCCESS \<Longrightarrow> x < 0"
  by (simp add: wifi_codes)

lemma cancel_keeps:
  "tell_unregister net c es info = ret (res, info') \<Longrightarrow> info' = unregister_events es info"
  "unregister_tell net c es info = ret (res, info') \<Longrightarrow> info' = unregister_events es info"
  by (auto simp: tell_unregister_def unregister_tell_def run_then_eq_ret)

lemma scan_start_keeps:
  "hal_inv info \<Longrightarrow> no_handler scan_events info \<Longrightarrow>
   start_keeps scan_events func p info (scan_start k env nets r params func p info)"
  unfolding scan_start_def
  by (intro step_or_keeps exchange_registered_keeps) (auto simp: wifi_codes dest: start_nonpos intro: not_success)

lemma full_scan_start_keeps:
  "hal_inv info \<Longrightarrow> no_handler [GSCAN_EVENT_FULL_SCAN_RESULTS] info \<Longrightarrow>
   start_keeps [GSCAN_EVENT_FULL_SCAN_RESULTS] func p info (full_scan_start env net r func p info)"
  unfolding full_scan_start_def
  by (intro step_or_keeps exchange_registered_keeps) (auto simp: wifi_codes dest: start_nonpos intro: not_success)

lemma hotlist_start_keeps:
  "hal_inv info \<Longrightarrow> no_handler hotlist_events info \<Longrightarrow>
   start_keeps hotlist_events func p info (hotlist_start env nets r params func p info)"
  unfolding hotlist_start_def
  by (intro step_or_keeps exchange_registered_keeps) (auto simp: unregister_absent unregister_events_spec)

lemma epno_start_keeps:
  "hal_inv info \<Longrightarrow> no_handler [GSCAN_EVENT_EPNO_EVENT] info \<Longrightarrow>
   start_keeps [GSCAN_EVENT_EPNO_EVENT] func p info (epno_start k env net r params func p info)"
  using unregister_absent [of info "[GSCAN_EVENT_EPNO_EVENT]"] unregister_events_spec [of info "[GSCAN_EVENT_EPNO_EVENT]"]
  by (auto simp: start_keeps_def epno_start_def run_then_eq_ret dest: skip_exchange_nonpos split: if_splits)

lemma significant_start_keeps:
  "hal_inv info \<Longrightarrow> no_handler [GSCAN_EVENT_SIGNIFICANT_CHANGE_RESULTS] info \<Longrightarrow>
   start_keeps [GSCAN_EVENT_SIGNIFICANT_CHANGE_RESULTS] func p info (significant_start env nets r params func p info)"
  unfolding significant_start_def
  by (intro step_or_keeps exchange_registered_keeps) auto

lemma anqpo_start_keeps:
  "hal_inv info \<Longrightarrow> no_handler [GSCAN_EVENT_ANQPO_HOTSPOT_MATCH] info \<Longrightarrow>
   start_keeps [GSCAN_EVENT_ANQPO_HOTSPOT_MATCH] func p info (anqpo_start env net r networks func p info)"
  unfolding anqpo_start_def
  by (intro step_or_keeps exchange_registered_keeps) (auto simp: wifi_codes dest: start_nonpos intro: not_success)

lemma event_command_intro:
  assumes "distinct events" "distinct es" "set es = set events"
    and "\<And>info p. hal_inv info \<Longrightarrow> no_handler events info \<Longrightarrow> start_keeps events func p info (start p info)"
    and "\<And>info res info'. cancel info = ret (res, info') \<Longrightarrow> info' = unregister_events es info"
  shows "event_command start cancel events func"
proof
  show "distinct events" by (rule assms)
next
  fix info p res info'
  assume "hal_inv info" "no_handler events info" "start p info = ret (res, info')"
  with assms(4) [of info p] show "res \<le> 0 \<and> (if res = 0 then info' = register_events events func p info
      else hal_inv info' \<and> cmds info' = cmds info \<and> handlers info' = handlers info)"
    unfolding start_keeps_def by blast
next
  fix info res info'
  assume "cancel info = ret (res, info')"
  with assms(2,3,5) show "\<exists>es. distinct es \<and> set es = set events \<and> info' = unregister_events es info" by blast
qed

interpretation scan: event_command "scan_start k env nets r params func" "scan_cancel env' net' r'" scan_events func
  for k env nets r params func env' net' r'
  by (rule event_command_intro [where es = scan_events_removed])
     (auto simp: scan_start_keeps scan_cancel_def dest: cancel_keeps)

interpretation full_scan: event_command "full_scan_start env net r func" "full_scan_cancel env' net' r'"
  "[GSCAN_EVENT_FULL_SCAN_RESULTS]" func for env net r func env' net' r'
  by (rule event_command_intro [where es = "[GSCAN_EVENT_FULL_SCAN_RESULTS]"])
     (auto simp: full_scan_start_keeps full_scan_cancel_def dest: cancel_keeps)

interpretation hotlist: event_command "hotlist_start env nets r params func" "hotlist_cancel env' net' r'"
  hotlist_events func for env nets r params func env' net' r'
  by (rule event_command_intro [where es = hotlist_events])
     (auto simp: hotlist_start_keeps hotlist_cancel_def dest: cancel_keeps)

interpretation epno: event_command "epno_start k env net r params func" "epno_cancel env' net' r'"
  "[GSCAN_EVENT_EPNO_EVENT]" func for k env net r params func env' net' r'
  by (rule event_command_intro [where es = "[GSCAN_EVENT_EPNO_EVENT]"])
     (auto simp: epno_start_keeps epno_cancel_def dest: cancel_keeps)

interpretation significant: event_command "significant_start env nets r params func" "significant_cancel env' net' r'"
  "[GSCAN_EVENT_SIGNIFICANT_CHANGE_RESULTS]" func for env nets r params func env' net' r'
  by (rule event_command_intro [where es = "[GSCAN_EVENT_SIGNIFICANT_CHANGE_RESULTS]"])
     (auto simp: significant_start_keeps significant_cancel_def dest: cancel_keeps)

interpretation anqpo: event_command "anqpo_start env net r networks func" "anqpo_cancel env' net' r' networks'"
  "[GSCAN_EVENT_ANQPO_HOTSPOT_MATCH]" func for env net r networks func env' net' r' networks'
  by (rule event_command_intro [where es = "[GSCAN_EVENT_ANQPO_HOTSPOT_MATCH]"])
     (auto simp: anqpo_start_keeps anqpo_cancel_def dest: cancel_keeps)

end
