(* ===== verification/Wifi_Event.thy ===== *)
theory Wifi_Event
  imports Hal_Command
begin

text \<open>
  Received messages (\<open>wifi_hal/cpp_bindings.h\<close>, \<open>cpp_bindings.cpp\<close>): the class \<open>WifiEvent\<close> with its parser
  and its getters, the class \<open>nl_iterator\<close> that walks over nested attributes, and the callbacks that turn
  a message into a call of \<open>handleResponse\<close> or \<open>handleEvent\<close>. The functions of libnl they are made of are
  parameters, collected in the record \<open>libnl\<close>; the locale \<open>libnl_format\<close> states the documented format of
  netlink attributes that these functions follow.
\<close>

section \<open>Bytes\<close>

definition field :: "nat \<Rightarrow> nat \<Rightarrow> u8 list \<Rightarrow> u8 list" where
  "field off n bs = take n (drop off bs)"

definition le_field :: "nat \<Rightarrow> nat \<Rightarrow> u8 list \<Rightarrow> nat" where
  "le_field off n bs = le_val (field off n bs)"

text \<open>An attribute in memory, \<open>struct nlattr\<close>: two bytes of length, two of type, and then its data.\<close>

definition inner_len :: "u8 list \<Rightarrow> nat" where "inner_len bs = le_field 0 2 bs"
definition inner_type :: "u8 list \<Rightarrow> nat" where "inner_type bs = le_field 2 2 bs"
definition inner_data :: "u8 list \<Rightarrow> u8 list" where "inner_data bs = drop 4 bs"

definition inner_attr :: "nat \<Rightarrow> nat \<Rightarrow> u8 list \<Rightarrow> u8 list" where
  "inner_attr ty n bs = le_bytes 2 n @ le_bytes 2 ty @ bs"

section \<open>libnl\<close>

text \<open>
  The functions of libnl, on the memory that starts at an attribute. \<open>nla_next\<close> gives the memory at the
  next attribute and the number of bytes that remain; \<open>nla_parse mx\<close> gives its result and the array of
  the \<open>mx + 1\<close> attributes it finds, here their payloads.
\<close>

record libnl =
  nla_ok :: "u8 list \<Rightarrow> int \<Rightarrow> bool"
  nla_next :: "u8 list \<Rightarrow> int \<Rightarrow> u8 list \<times> int"
  nla_len :: "u8 list \<Rightarrow> int"
  nla_data :: "u8 list \<Rightarrow> u8 list"
  nla_parse :: "nat \<Rightarrow> u8 list \<Rightarrow> int \<times> u8 list option list"

section \<open>The iterator\<close>

record nl_iterator =
  it_pos :: "u8 list"
  it_rem :: int

definition new_iterator :: "libnl \<Rightarrow> u8 list \<Rightarrow> nl_iterator" where
  "new_iterator lib attr = \<lparr>it_pos = nla_data lib attr, it_rem = nla_len lib attr\<rparr>"

definition has_next :: "libnl \<Rightarrow> nl_iterator \<Rightarrow> bool" where
  "has_next lib it = nla_ok lib (it_pos it) (it_rem it)"

definition iterator_next :: "libnl \<Rightarrow> nl_iterator \<Rightarrow> nl_iterator" where
  "iterator_next lib it = (let (pos, rem) = nla_next lib (it_pos it) (it_rem it) in \<lparr>it_pos = pos, it_rem = rem\<rparr>)"

definition iterator_type :: "nl_iterator \<Rightarrow> nat" where
  "iterator_type it = inner_type (it_pos it)"

definition iterator_payload :: "libnl \<Rightarrow> nl_iterator \<Rightarrow> u8 list" where
  "iterator_payload lib it = take (nat (nla_len lib (it_pos it))) (nla_data lib (it_pos it))"

text \<open>
  What a loop \<open>for (nl_iterator it (attr); it.has_next (); it.next ())\<close> visits: the type and the payload
  of each attribute. \<open>None\<close> is a loop that does not end.
\<close>

partial_function (option) nl_visit :: "libnl \<Rightarrow> nl_iterator \<Rightarrow> (nat \<times> u8 list) list option" where
  "nl_visit lib it =
     (if has_next lib it
      then Option.bind (nl_visit lib (iterator_next lib it))
             (\<lambda>as. Some ((iterator_type it, iterator_payload lib it) # as))
      else Some [])"

text \<open>The same for the payload \<open>bs\<close> of an attribute; below, such loops are shown to end.\<close>

definition visits :: "libnl \<Rightarrow> u8 list \<Rightarrow> (nat \<times> u8 list) list" where
  "visits lib bs = the (nl_visit lib \<lparr>it_pos = bs, it_rem = int (length bs)\<rparr>)"

section \<open>Events\<close>

text \<open>A message of generic netlink as libnl hands it over: the command of its header, and its attributes.\<close>

record recv_msg =
  rm_cmd :: int
  rm_attrs :: "u8 list"

definition NL80211_ATTR_MAX_INTERNAL :: nat where "NL80211_ATTR_MAX_INTERNAL = 256"

record wifi_event =
  we_msg :: recv_msg
  we_header :: "int option"
  we_attributes :: "u8 list option list"

definition new_event :: "recv_msg \<Rightarrow> wifi_event" where
  "new_event msg = \<lparr>we_msg = msg, we_header = None, we_attributes = replicate (NL80211_ATTR_MAX_INTERNAL + 1) None\<rparr>"

definition event_parse :: "libnl \<Rightarrow> wifi_event \<Rightarrow> int \<times> wifi_event" where
  "event_parse lib ev =
     (if we_header ev \<noteq> None then (WIFI_SUCCESS, ev)
      else (let (result, tb) = nla_parse lib NL80211_ATTR_MAX_INTERNAL (rm_attrs (we_msg ev))
            in (result, ev\<lparr>we_header := Some (rm_cmd (we_msg ev)), we_attributes := tb\<rparr>)))"

text \<open>The getters: 0 or null for an attribute that is not there.\<close>

definition get_cmd :: "wifi_event \<Rightarrow> ub + int" where
  "get_cmd ev = (case we_header ev of None \<Rightarrow> Inl Null_deref | Some c \<Rightarrow> Inr c)"

definition get_attribute :: "nat \<Rightarrow> wifi_event \<Rightarrow> ub + u8 list option" where
  "get_attribute a ev = (if a < length (we_attributes ev) then Inr (we_attributes ev ! a) else Inl Out_of_bounds)"

definition get_word :: "nat \<Rightarrow> nat \<Rightarrow> wifi_event \<Rightarrow> ub + nat" where
  "get_word n a ev =
     (case get_attribute a ev of
        Inl e \<Rightarrow> Inl e
      | Inr None \<Rightarrow> Inr 0
      | Inr (Some pl) \<Rightarrow> if length pl < n then Inl Out_of_bounds else Inr (le_val (take n pl)))"

definition get_u8 :: "nat \<Rightarrow> wifi_event \<Rightarrow> ub + u8" where
  "get_u8 a ev = map_sum (\<lambda>e. e) word_of_nat (get_word 1 a ev)"

definition get_u16 :: "nat \<Rightarrow> wifi_event \<Rightarrow> ub + u16" where
  "get_u16 a ev = map_sum (\<lambda>e. e) word_of_nat (get_word 2 a ev)"

definition get_u32 :: "nat \<Rightarrow> wifi_event \<Rightarrow> ub + u32" where
  "get_u32 a ev = map_sum (\<lambda>e. e) word_of_nat (get_word 4 a ev)"

definition get_u64 :: "nat \<Rightarrow> wifi_event \<Rightarrow> ub + u64" where
  "get_u64 a ev = map_sum (\<lambda>e. e) word_of_nat (get_word 8 a ev)"

definition get_vendor_data :: "wifi_event \<Rightarrow> ub + u8 list option" where
  "get_vendor_data ev = get_attribute NL80211_ATTR_VENDOR_DATA ev"

section \<open>Callbacks\<close>

text \<open>What \<open>internal_valid_message_handler\<close> reads of the event before it looks at the handlers.\<close>

definition event_of :: "wifi_event \<Rightarrow> ub + hal_event" where
  "event_of ev =
     (case get_cmd ev of
        Inl e \<Rightarrow> Inl e
      | Inr c \<Rightarrow>
          if c = NL80211_CMD_VENDOR then
            (case (get_u32 NL80211_ATTR_VENDOR_ID ev, get_u32 NL80211_ATTR_VENDOR_SUBCMD ev) of
               (Inr vid, Inr sub) \<Rightarrow> Inr \<lparr>ev_cmd = c, ev_vendor_id = vid, ev_vendor_subcmd = sint sub\<rparr>
             | (Inl e, _) \<Rightarrow> Inl e
             | (_, Inl e) \<Rightarrow> Inl e)
          else Inr \<lparr>ev_cmd = c, ev_vendor_id = 0, ev_vendor_subcmd = 0\<rparr>)"

text \<open>\<open>internal_valid_message_handler\<close> on a message.\<close>

definition dispatch_message ::
  "libnl \<Rightarrow> (ptr \<Rightarrow> ptr \<Rightarrow> hal_state \<Rightarrow> hal_state) \<Rightarrow> recv_msg \<Rightarrow> hal_state \<Rightarrow> ub + int \<times> hal_state" where
  "dispatch_message lib call msg st =
     (let (res, ev) = event_parse lib (new_event msg)
      in if res < 0 then Inr (internal_valid_message_handler call None st)
         else (case event_of ev of
                 Inl e \<Rightarrow> Inl e
               | Inr e \<Rightarrow> Inr (internal_valid_message_handler call (Some e) st)))"

text \<open>
  \<open>WifiCommand::response_handler\<close> and \<open>event_handler\<close>, with the virtual method as \<open>h\<close>; the waiters that
  \<open>event_handler\<close> wakes up are not part of the state.
\<close>

definition response_handler ::
  "libnl \<Rightarrow> (wifi_event \<Rightarrow> 's \<Rightarrow> ub + int \<times> 's) \<Rightarrow> recv_msg \<Rightarrow> 's \<Rightarrow> ub + int \<times> 's" where
  "response_handler lib h msg s =
     (let (res, ev) = event_parse lib (new_event msg)
      in if res < 0 then Inr (NL_SKIP, s) else h ev s)"

text \<open>The vendor data of a reply, the form in which the handlers of the commands take it.\<close>

definition reply_of :: "wifi_event \<Rightarrow> ub + int \<times> u8 list option" where
  "reply_of ev =
     (case (get_cmd ev, get_vendor_data ev) of
        (Inr c, Inr vd) \<Rightarrow> Inr (c, vd)
      | (Inl e, _) \<Rightarrow> Inl e
      | (_, Inl e) \<Rightarrow> Inl e)"

section \<open>Fields\<close>

lemma field_skip [simp]: "length xs \<le> off \<Longrightarrow> field off n (xs @ ys) = field (off - length xs) n ys"
  by (simp add: field_def)

lemma field_skip_Cons [simp]: "0 < off \<Longrightarrow> field off n (x # ys) = field (off - 1) n ys"
  by (cases off) (simp_all add: field_def)

lemma field_here [simp]: "length xs = n \<Longrightarrow> field 0 n (xs @ ys) = xs" "length xs = n \<Longrightarrow> field 0 n xs = xs"
  by (simp_all add: field_def)

lemma length_field: "off + n \<le> length bs \<Longrightarrow> length (field off n bs) = n"
  by (simp add: field_def)

lemma length_concat_eq: "list_all (\<lambda>e. length e = s) es \<Longrightarrow> length (concat es) = s * length es"
  by (induction es) auto

lemma unat_le_val: "unat (w :: 'a::len word) < 256 ^ n \<Longrightarrow> word_of_nat (le_val (le_bytes n (unat w))) = w"
  by (simp add: le_val_bytes)

lemma le_word_bytes [simp]:
  "word_of_nat (le_val (le_bytes 8 (unat (a :: u64)))) = a"
  "word_of_nat (le_val (le_bytes 4 (unat (b :: u32)))) = b"
  "word_of_nat (le_val (le_bytes 2 (unat (c :: u16)))) = c"
  using unsigned_less [of a, where 'a = nat] unsigned_less [of b, where 'a = nat] unsigned_less [of c, where 'a = nat]
  by (auto intro!: unat_le_val)

lemma inner_attr_simps [simp]:
  "inner_data (inner_attr ty n bs) = bs" "length (inner_attr ty n bs) = length bs + 4"
  "ty < 65536 \<Longrightarrow> inner_type (inner_attr ty n bs) = ty" "n < 65536 \<Longrightarrow> inner_len (inner_attr ty n bs) = n"
  by (simp_all add: inner_attr_def inner_data_def inner_type_def inner_len_def le_field_def le_val_bytes)

lemma inner_attr_ne [simp]: "inner_attr ty n bs \<noteq> []"
  by (simp add: inner_attr_def numeral_2_eq_2)

lemma inner_attr_append: "inner_attr ty n bs @ cs = inner_attr ty n (bs @ cs)"
  by (simp add: inner_attr_def)

section \<open>The format of attributes\<close>

text \<open>
  A sequence of attributes as bytes: each starts at a multiple of four, and its length counts the
  header and the payload, but not the padding.
\<close>

definition nla_align :: "nat \<Rightarrow> nat" where
  "nla_align n = (n + 3) div 4 * 4"

definition attr_bytes :: "nat \<times> u8 list \<Rightarrow> u8 list" where
  "attr_bytes a = (case a of (ty, pl) \<Rightarrow>
     inner_attr ty (length pl + 4) (pl @ replicate (nla_align (length pl) - length pl) 0))"

definition nl_bytes :: "(nat \<times> u8 list) list \<Rightarrow> u8 list" where
  "nl_bytes as = concat (map attr_bytes as)"

text \<open>Type and length have 16 bits; the two top bits of the type are flags.\<close>

definition wf_attr :: "nat \<times> u8 list \<Rightarrow> bool" where
  "wf_attr a \<longleftrightarrow> fst a < 2 ^ 14 \<and> length (snd a) + 4 < 2 ^ 16"

locale libnl_attributes =
  fixes lib :: libnl
  assumes ok: "nla_ok lib bs rem \<longleftrightarrow> 4 \<le> rem \<and> 4 \<le> inner_len bs \<and> int (inner_len bs) \<le> rem"
    and next_attr: "nla_next lib bs rem = (drop (nla_align (inner_len bs)) bs, rem - int (nla_align (inner_len bs)))"
    and len: "nla_len lib bs = int (inner_len bs) - 4"
    and data: "nla_data lib bs = inner_data bs"
begin

text \<open>Every loop over an iterator ends, whatever the bytes are.\<close>

lemma visit_ends: "\<exists>as. nl_visit lib it = Some as"
proof (induction "nat (it_rem it)" arbitrary: it rule: less_induct)
  case less
  show ?case
  proof (cases "has_next lib it")
    case True
    then have "nat (it_rem (iterator_next lib it)) < nat (it_rem it)"
      by (auto simp: has_next_def ok iterator_next_def next_attr nla_align_def)
    then obtain as where "nl_visit lib (iterator_next lib it) = Some as" using less by blast
    then show ?thesis by (subst nl_visit.simps) simp
  qed (subst nl_visit.simps, simp)
qed

lemma visit_bytes:
  "list_all wf_attr as \<Longrightarrow> nl_visit lib \<lparr>it_pos = nl_bytes as @ rest, it_rem = int (length (nl_bytes as))\<rparr> = Some as"
proof (induction as)
  case Nil
  show ?case by (subst nl_visit.simps) (simp add: has_next_def ok nl_bytes_def)
next
  case (Cons a as)
  obtain ty pl where a: "a = (ty, pl)" by (cases a)
  let ?pad = "replicate (nla_align (length pl) - length pl) 0" and ?r = "nl_bytes as @ rest"
  have split: "nl_bytes (a # as) = inner_attr ty (length pl + 4) (pl @ ?pad) @ nl_bytes as"
    by (simp add: nl_bytes_def attr_bytes_def a)
  have pos: "nl_bytes (a # as) @ rest = inner_attr ty (length pl + 4) (pl @ ?pad @ ?r)"
    unfolding split append_assoc inner_attr_append ..
  have wf: "ty < 65536" "length pl + 4 < 65536" using Cons.prems by (auto simp: wf_attr_def a)
  have al: "length pl \<le> nla_align (length pl)" "nla_align (length pl + 4) = nla_align (length pl) + 4"
    unfolding nla_align_def by presburger+
  have "drop (nla_align (length pl + 4)) (inner_attr ty (length pl + 4) (pl @ ?pad @ ?r)) = ?r"
    using al by (simp add: inner_attr_def)
  moreover have "length (nl_bytes ((ty, pl) # as)) = nla_align (length pl) + 4 + length (nl_bytes as)"
    using al by (simp add: split [unfolded a])
  ultimately show ?case using Cons.IH Cons.prems al wf
    unfolding pos
    by (subst nl_visit.simps)
       (simp add: has_next_def ok iterator_next_def next_attr iterator_type_def iterator_payload_def len data a)
qed

lemma visits_bytes: "list_all wf_attr as \<Longrightarrow> visits lib (nl_bytes as) = as"
  using visit_bytes [of as "[]"] by (simp add: visits_def)

lemma visit_attr:
  assumes "list_all wf_attr as" "length (nl_bytes as) + 4 < 2 ^ 16"
  shows "nl_visit lib (new_iterator lib (inner_attr ty (length (nl_bytes as) + 4) (nl_bytes as @ rest))) = Some as"
  using visit_bytes [OF assms(1)] assms(2) by (simp add: new_iterator_def len data)

end

text \<open>\<open>nla_parse\<close> stores each attribute at the index of its type, a later one over an earlier one.\<close>

locale libnl_format = libnl_attributes +
  assumes parse: "list_all wf_attr as \<Longrightarrow> nla_parse lib mx (nl_bytes as) = (0, map (map_of (rev as)) [0..<mx + 1])"
begin

lemma parsed:
  assumes "list_all wf_attr as" "rm_attrs msg = nl_bytes as"
  shows "event_parse lib (new_event msg) =
    (0, \<lparr>we_msg = msg, we_header = Some (rm_cmd msg), we_attributes = map (map_of (rev as)) [0..<NL80211_ATTR_MAX_INTERNAL + 1]\<rparr>)"
  using assms by (simp add: event_parse_def new_event_def parse del: upt_Suc)

lemma parsed_attribute:
  assumes "list_all wf_attr as" "rm_attrs msg = nl_bytes as" "event_parse lib (new_event msg) = (res, ev)" "a \<le> NL80211_ATTR_MAX_INTERNAL"
  shows "res = 0" "get_cmd ev = Inr (rm_cmd msg)" "get_attribute a ev = Inr (map_of (rev as) a)"
  using assms(3,4) parsed [OF assms(1,2)]
  by (auto simp: get_cmd_def get_attribute_def simp del: upt_Suc)

end

text \<open>The format as functions: a library that follows it.\<close>

definition tlv_attributes :: libnl where
  "tlv_attributes = \<lparr>nla_ok = \<lambda>bs rem. 4 \<le> rem \<and> 4 \<le> inner_len bs \<and> int (inner_len bs) \<le> rem,
     nla_next = \<lambda>bs rem. (drop (nla_align (inner_len bs)) bs, rem - int (nla_align (inner_len bs))),
     nla_len = \<lambda>bs. int (inner_len bs) - 4, nla_data = inner_data, nla_parse = \<lambda>mx bs. (0, [])\<rparr>"

interpretation tlv_attributes: libnl_attributes tlv_attributes
  by unfold_locales (simp_all add: tlv_attributes_def)

definition tlv_lib :: libnl where
  "tlv_lib = tlv_attributes\<lparr>nla_parse := \<lambda>mx bs.
     (0, map (map_of (rev (visits tlv_attributes bs))) [0..<mx + 1])\<rparr>"

interpretation tlv: libnl_format tlv_lib
proof
  fix as mx assume "list_all wf_attr as"
  then show "nla_parse tlv_lib mx (nl_bytes as) = (0, map (map_of (rev as)) [0..<mx + 1])"
    by (simp add: tlv_lib_def tlv_attributes.visits_bytes)
qed (simp_all add: tlv_lib_def tlv_attributes_def)

section \<open>Correctness\<close>

text \<open>
  C23: a loop over nested attributes always ends, whatever bytes a message holds, and it sees what was
  sent: on the attributes of a well-formed message it visits each of them once, in order, with its type
  and exactly its payload.
\<close>

theorem nl_iterator_visits:
  assumes "libnl_attributes lib"
  shows "(\<exists>as. nl_visit lib (new_iterator lib attr) = Some as) \<and>
    (list_all wf_attr as \<longrightarrow> length (nl_bytes as) + 4 < 2 ^ 16 \<longrightarrow>
       nl_visit lib (new_iterator lib (inner_attr ty (length (nl_bytes as) + 4) (nl_bytes as @ rest))) = Some as)"
  using libnl_attributes.visit_ends [OF assms] libnl_attributes.visit_attr [OF assms] by blast

theorem nl_iterator_visits_witness:
  "nl_visit tlv_attributes (new_iterator tlv_attributes
     (inner_attr 197 (length (nl_bytes [(2, le_bytes 4 3), (3, [1, 2, 3])]) + 4) (nl_bytes [(2, le_bytes 4 3), (3, [1, 2, 3])] @ [9])))
   = Some [(2, le_bytes 4 3), (3, [1, 2, 3])]"
  using nl_iterator_visits [OF tlv_attributes.libnl_attributes_axioms, of "[]" "[(2, le_bytes 4 3), (3, [1, 2, 3])]" 197 "[9]"]
  by (simp add: wf_attr_def nl_bytes_def attr_bytes_def nla_align_def)


definition rssi_message :: recv_msg where
  "rssi_message = \<lparr>rm_cmd = NL80211_CMD_VENDOR,
     rm_attrs = nl_bytes [(NL80211_ATTR_VENDOR_ID, le_bytes 4 (unat GOOGLE_OUI)), (NL80211_ATTR_VENDOR_SUBCMD, le_bytes 4 (unat (7 :: u32))),
       (NL80211_ATTR_VENDOR_DATA, [1, 0xC4])]\<rparr>"


end
