(* ===== verification/Gscan_Results.thy ===== *)
theory Gscan_Results
  imports Gscan_Wire Gscan_Commands Wifi_Event
begin

text \<open>
  What \<open>wifi_hal/gscan.cpp\<close> does with the replies of the driver: capabilities, channel lists and
  cached scan results; the events are in \<open>Gscan_Events\<close>. The data of the driver is a list of bytes and
  its structures are read at their offsets; a read or write outside of a buffer is \<open>Out_of_bounds\<close>.

  \<open>iter\<close> gives the attributes (type and payload) that a loop over an \<open>nl_iterator\<close> visits in the payload
  of an attribute; it is \<open>visits lib\<close> for the functions \<open>lib\<close> of libnl. The sizes of the structures of the Android headers are in \<open>hal_consts\<close>.
\<close>

section \<open>Structures of the driver\<close>

text \<open>The first \<open>n\<close> structures of \<open>s\<close> bytes.\<close>

definition chunks :: "nat \<Rightarrow> nat \<Rightarrow> u8 list \<Rightarrow> u8 list list" where
  "chunks s n bs = map (\<lambda>i. field (s * i) s bs) [0..<n]"

definition DOT11_MAX_SSID_LEN :: nat where "DOT11_MAX_SSID_LEN = 32"
definition MAX_PROBE_RESP_IE_LEN :: nat where "MAX_PROBE_RESP_IE_LEN = 2048"

text \<open>
  \<open>wifi_gscan_result_t\<close> has 88 bytes: \<open>ts\<close> at 0, \<open>ssid\<close> at 8, \<open>bssid\<close> at 41, \<open>channel\<close> at 48, \<open>rssi\<close>
  at 52, \<open>rtt\<close> at 56, \<open>rtt_sd\<close> at 64, \<open>beacon_period\<close> at 72, \<open>capability\<close> at 74, \<open>ie_length\<close> at 76.
  \<open>wifi_gscan_full_result_t\<close> continues with \<open>scan_ch_bucket\<close> at 88, \<open>ie_length\<close> at 92 and \<open>ie_data\<close> at
  96; its size is 104.
\<close>

definition sizeof_gscan_result :: nat where "sizeof_gscan_result = 88"
definition sizeof_gscan_full_result :: nat where "sizeof_gscan_full_result = 104"
definition offset_ie_data :: nat where "offset_ie_data = 96"

lemmas gscan_sizes = sizeof_gscan_result_def sizeof_gscan_full_result_def offset_ie_data_def

text \<open>The result the HAL passes on.\<close>

record scan_result =
  sr_ts :: u64
  sr_ssid :: "u8 list"
  sr_bssid :: mac
  sr_channel :: u32
  sr_rssi :: int
  sr_rtt :: u64
  sr_rtt_sd :: u64
  sr_beacon_period :: u16
  sr_capability :: u16
  sr_ie_length :: u32

definition convert_to_hal_result :: "u8 list \<Rightarrow> u32 \<Rightarrow> scan_result" where
  "convert_to_hal_result from ie_len =
     \<lparr>sr_ts = word_of_nat (le_field 0 8 from),
      sr_ssid = field 8 (DOT11_MAX_SSID_LEN + 1) from,
      sr_bssid = field 41 6 from,
      sr_channel = word_of_nat (le_field 48 4 from),
      sr_rssi = sint (word_of_nat (le_field 52 4 from) :: u32),
      sr_rtt = word_of_nat (le_field 56 8 from),
      sr_rtt_sd = word_of_nat (le_field 64 8 from),
      sr_beacon_period = word_of_nat (le_field 72 2 from),
      sr_capability = word_of_nat (le_field 74 2 from),
      sr_ie_length = ie_len\<rparr>"

text \<open>Several handlers take the vendor data itself for an attribute, with its own header.\<close>

section \<open>Capabilities and channels\<close>

definition NL_STOP :: int where "NL_STOP = 2"

text \<open>
  \<open>GetCapabilitiesCommand::handleResponse\<close>. The reply is its command and its vendor data; \<open>caps\<close> are the
  bytes of the caller's structure. Whether three of the limits are zero is a question to the layout of
  the Android structure, \<open>no_gscan\<close>.
\<close>

definition capabilities_handleResponse ::
  "(u8 list \<Rightarrow> bool) \<Rightarrow> int \<times> u8 list option \<Rightarrow> u8 list \<Rightarrow> ub + int \<times> u8 list" where
  "capabilities_handleResponse no_gscan reply caps =
     (if fst reply \<noteq> NL80211_CMD_VENDOR then Inr (NL_SKIP, caps)
      else case snd reply of
        None \<Rightarrow> Inl Null_deref
      | Some bs \<Rightarrow>
          if length bs < 4 then Inl Out_of_bounds
          else (let caps' = (if inner_type bs = GSCAN_ATTRIBUTE_CAPABILITIES
                             then copy_over (take (min (length bs - 4) (length caps)) (inner_data bs)) caps
                             else caps)
                in Inr (if no_gscan caps' then NL_STOP else NL_OK, caps')))"

text \<open>
  The loop of \<open>GetChannelListCommand::handleResponse\<close>; \<open>chans\<close> is the caller's array of \<open>mMaxChannels\<close>
  entries, \<open>out\<close> the caller's count.
\<close>

fun channel_loop ::
  "int \<Rightarrow> (nat \<times> u8 list) list \<Rightarrow> int \<Rightarrow> int \<times> u32 list \<Rightarrow> ub + int \<times> u32 list" where
  "channel_loop mx [] num (out, chans) = Inr (out, chans)"
| "channel_loop mx ((ty, pl) # as) num (out, chans) =
     (if ty = WIFI_ATTRIBUTE_NUM_CHANNELS then
        (if length pl < 4 then Inl Out_of_bounds
         else (let n = sint (le_u32 pl); n' = (if n > mx then mx else n)
               in channel_loop mx as n' (n', chans)))
      else if ty = WIFI_ATTRIBUTE_CHANNEL_LIST \<and> num \<noteq> 0 then
        (if num < 0 \<or> int (length chans) < num \<or> int (length pl) < 4 * num then Inl Out_of_bounds
         else channel_loop mx as num
                (out, copy_over (map (\<lambda>i. word_of_nat (le_field (4 * i) 4 pl)) [0..<nat num]) chans))
      else channel_loop mx as num (out, chans))"

text \<open>The first two channels are logged at the end.\<close>

definition channel_list_handleResponse ::
  "(u8 list \<Rightarrow> (nat \<times> u8 list) list) \<Rightarrow> int \<Rightarrow> int \<times> u8 list option \<Rightarrow> int \<times> u32 list
    \<Rightarrow> ub + int \<times> int \<times> u32 list" where
  "channel_list_handleResponse iter mx reply st =
     (if fst reply \<noteq> NL80211_CMD_VENDOR then Inr (NL_SKIP, st)
      else case snd reply of
        None \<Rightarrow> Inr (NL_SKIP, st)
      | Some bs \<Rightarrow>
          if bs = [] then Inr (NL_SKIP, st)
          else (case channel_loop mx (iter bs) 0 st of
                  Inl e \<Rightarrow> Inl e
                | Inr st' \<Rightarrow> if length (snd st') < 2 then Inl Out_of_bounds else Inr (NL_OK, st')))"

text \<open>A handler as a step of the exchange: undefined behaviour is kept to the end.\<close>

definition keep_ub :: "('m \<Rightarrow> 's \<Rightarrow> ub + int \<times> 's) \<Rightarrow> 'm \<Rightarrow> ub + 's \<Rightarrow> ub + 's" where
  "keep_ub h m st = (case st of Inl e \<Rightarrow> Inl e | Inr s \<Rightarrow> (case h m s of Inl e \<Rightarrow> Inl e | Inr (_, s') \<Rightarrow> Inr s'))"

definition run_of :: "(int \<times> (ub + 's)) option \<Rightarrow> (wifi_error \<times> 's) run" where
  "run_of x = (case x of None \<Rightarrow> None | Some (res, Inl e) \<Rightarrow> Some (Inl e) | Some (res, Inr s) \<Rightarrow> ret (res, s))"

text \<open>The constructors of both commands clear the caller's buffer.\<close>

definition wifi_get_gscan_capabilities ::
  "(u8 list \<Rightarrow> bool) \<Rightarrow> req_env \<Rightarrow> (int \<times> u8 list option) cmd_net \<Rightarrow> wifi_request \<Rightarrow> u8 list
    \<Rightarrow> (wifi_error \<times> u8 list) run" where
  "wifi_get_gscan_capabilities no_gscan env net r caps =
     run_of (create_requestResponse net (req_create_vendor env GOOGLE_OUI GSCAN_SUBCMD_GET_CAPABILITIES r)
       (keep_ub (capabilities_handleResponse no_gscan)) (Inr (replicate (length caps) 0)))"

definition wifi_get_valid_channels ::
  "(u8 list \<Rightarrow> (nat \<times> u8 list) list) \<Rightarrow> req_env \<Rightarrow> (int \<times> u8 list option) cmd_net \<Rightarrow> wifi_request \<Rightarrow> u32
    \<Rightarrow> int \<times> u32 list \<Rightarrow> (wifi_error \<times> int \<times> u32 list) run" where
  "wifi_get_valid_channels iter env net r band st =
     (case channel_list_create env band r of
        Inl e \<Rightarrow> Some (Inl e)
      | Inr created \<Rightarrow>
          run_of (create_requestResponse net created
            (keep_ub (channel_list_handleResponse iter (int (length (snd st)))))
            (Inr (fst st, replicate (length (snd st)) 0))))"

section \<open>Cached scan results\<close>

record cached_scan =
  cs_scan_id :: u32
  cs_flags :: u8
  cs_num_results :: int
  cs_buckets_scanned :: u32
  cs_results :: "scan_result list"

text \<open>The members of \<open>GetScanResultsCommand\<close> that change, and the variables of one scan.\<close>

record scans_state =
  gs_scans :: "cached_scan list"
  gs_retrieved :: int
  gs_completed :: u8

record scan_vars =
  v_scan_id :: u32
  v_flags :: u8
  v_num :: int
  v_mask :: u32

definition results_of :: "u8 list \<Rightarrow> nat \<Rightarrow> scan_result list" where
  "results_of pl n =
     map (\<lambda>i. convert_to_hal_result (drop (sizeof_gscan_result * i) pl)
                (word_of_nat (le_field (sizeof_gscan_result * i + 76) 4 pl))) [0..<n]"

definition clip_num :: "hal_consts \<Rightarrow> int \<Rightarrow> u8 list \<Rightarrow> int" where
  "clip_num k num pl =
     min (min num (int (length pl div sizeof_scan_result k))) (int (MAX_AP_CACHE_PER_SCAN k))"

text \<open>The results of one scan are stored in the next entry of the caller.\<close>

definition store_scan ::
  "hal_consts \<Rightarrow> u8 list \<Rightarrow> scan_vars \<Rightarrow> scans_state \<Rightarrow> ub + scan_vars \<times> scans_state" where
  "store_scan k pl v st =
     (let num = clip_num k (v_num v) pl; n = nat num; i = nat (gs_retrieved st)
      in if length pl < sizeof_gscan_result * n \<or> length (gs_scans st) \<le> i
            \<or> length (cs_results (gs_scans st ! i)) < n then Inl Out_of_bounds
         else Inr (v\<lparr>v_num := num\<rparr>,
           st\<lparr>gs_scans := (gs_scans st)[i :=
                \<lparr>cs_scan_id = v_scan_id v, cs_flags = v_flags v, cs_num_results = num,
                 cs_buckets_scanned = v_mask v,
                 cs_results = copy_over (results_of pl n) (cs_results (gs_scans st ! i))\<rparr>],
              gs_retrieved := gs_retrieved st + 1\<rparr>))"

text \<open>The inner loop of \<open>handleResponse\<close>, over the attributes of one scan.\<close>

fun scan_loop ::
  "hal_consts \<Rightarrow> int \<Rightarrow> (nat \<times> u8 list) list \<Rightarrow> scan_vars \<Rightarrow> scans_state \<Rightarrow> ub + scans_state" where
  "scan_loop k mx [] v st = Inr st"
| "scan_loop k mx ((ty, pl) # as) v st =
     (if ty = GSCAN_ATTRIBUTE_SCAN_ID then
        (if length pl < 4 then Inl Out_of_bounds else scan_loop k mx as (v\<lparr>v_scan_id := le_u32 pl\<rparr>) st)
      else if ty = GSCAN_ATTRIBUTE_SCAN_FLAGS then
        (if pl = [] then Inl Out_of_bounds else scan_loop k mx as (v\<lparr>v_flags := hd pl\<rparr>) st)
      else if ty = GSCAN_ATTRIBUTE_NUM_OF_RESULTS then
        (if length pl < 4 then Inl Out_of_bounds else scan_loop k mx as (v\<lparr>v_num := sint (le_u32 pl)\<rparr>) st)
      else if ty = GSCAN_ATTRIBUTE_CH_BUCKET_BITMASK then
        (if length pl < 4 then Inl Out_of_bounds else scan_loop k mx as (v\<lparr>v_mask := le_u32 pl\<rparr>) st)
      else if ty = GSCAN_ATTRIBUTE_SCAN_RESULTS \<and> v_num v \<noteq> 0 then
        (if gs_retrieved st \<ge> mx then Inr st
         else (case store_scan k pl v st of
                 Inl e \<Rightarrow> Inl e
               | Inr (v', st') \<Rightarrow> scan_loop k mx as v' st'))
      else scan_loop k mx as v st)"

text \<open>The outer loop, over the attributes of the reply.\<close>

fun scans_loop ::
  "hal_consts \<Rightarrow> (u8 list \<Rightarrow> (nat \<times> u8 list) list) \<Rightarrow> int \<Rightarrow> (nat \<times> u8 list) list \<Rightarrow> scans_state \<Rightarrow> ub + scans_state" where
  "scans_loop k iter mx [] st = Inr st"
| "scans_loop k iter mx ((ty, pl) # as) st =
     (if ty = GSCAN_ATTRIBUTE_SCAN_RESULTS_COMPLETE then
        (if pl = [] then Inl Out_of_bounds else scans_loop k iter mx as (st\<lparr>gs_completed := hd pl\<rparr>))
      else if GSCAN_ATTRIBUTE_NUM_OF_RESULTS \<le> ty \<and> ty \<le> GSCAN_ATTRIBUTE_CH_BUCKET_BITMASK then
        (case scan_loop k mx (iter pl) \<lparr>v_scan_id = 0, v_flags = 0, v_num = 0, v_mask = 0\<rparr> st of
           Inl e \<Rightarrow> Inl e
         | Inr st' \<Rightarrow> scans_loop k iter mx as st')
      else scans_loop k iter mx as st)"

text \<open>
  \<open>GetScanResultsCommand::handleResponse\<close>: the iterator runs over the inner attribute with the length
  that its header states.
\<close>

definition scan_results_handleResponse ::
  "hal_consts \<Rightarrow> (u8 list \<Rightarrow> (nat \<times> u8 list) list) \<Rightarrow> int \<Rightarrow> int \<times> u8 list option \<Rightarrow> scans_state
    \<Rightarrow> ub + int \<times> scans_state" where
  "scan_results_handleResponse k iter mx reply st =
     (if fst reply \<noteq> NL80211_CMD_VENDOR then Inr (NL_SKIP, st)
      else case snd reply of
        None \<Rightarrow> Inr (NL_SKIP, st)
      | Some bs \<Rightarrow>
          if bs = [] then Inr (NL_SKIP, st)
          else if length bs < 4 \<or> length bs < inner_len bs then Inl Out_of_bounds
          else (case scans_loop k iter mx (iter (take (inner_len bs - 4) (inner_data bs))) st of
                  Inl e \<Rightarrow> Inl e
                | Inr st' \<Rightarrow> Inr (NL_OK, st')))"

text \<open>
  The loop of \<open>execute\<close>, with the number of rounds that are left; \<open>nets j\<close> answers the request of round
  \<open>j\<close>. The result is that of \<open>execute\<close> with the final state, and \<open>None\<close> for \<open>*mNum\<close> that is not written.
\<close>

fun execute_loop ::
  "hal_consts \<Rightarrow> (u8 list \<Rightarrow> (nat \<times> u8 list) list) \<Rightarrow> req_env \<Rightarrow> (nat \<Rightarrow> (int \<times> u8 list option) cmd_net)
    \<Rightarrow> wifi_request \<Rightarrow> u8 \<Rightarrow> int \<Rightarrow> nat \<Rightarrow> scans_state \<Rightarrow> (wifi_error \<times> int option \<times> scans_state) run" where
  "execute_loop k iter env nets r flush mx 0 st = ret (WIFI_SUCCESS, Some (gs_retrieved st), st)"
| "execute_loop k iter env nets r flush mx (Suc left) st =
     (if gs_retrieved st < mx then
        run_then (creation (scan_results_createRequest env (word_of_int (mx - gs_retrieved st)) flush r))
          (\<lambda>result. if result < 0 then ret (result, None, st)
            else run_then
              (run_of (requestResponse (nets (9 - left)) (keep_ub (scan_results_handleResponse k iter mx)) (Inr st)))
              (\<lambda>(result, st'). if result \<noteq> WIFI_SUCCESS then ret (result, None, st')
                else if gs_retrieved st' = gs_retrieved st \<or> gs_completed st' \<noteq> 0
                then ret (WIFI_SUCCESS, Some (gs_retrieved st'), st')
                else execute_loop k iter env nets r flush mx left st'))
      else ret (WIFI_SUCCESS, Some (gs_retrieved st), st))"

definition wifi_get_cached_gscan_results ::
  "hal_consts \<Rightarrow> (u8 list \<Rightarrow> (nat \<times> u8 list) list) \<Rightarrow> req_env \<Rightarrow> (nat \<Rightarrow> (int \<times> u8 list option) cmd_net)
    \<Rightarrow> wifi_request \<Rightarrow> u8 \<Rightarrow> int \<Rightarrow> cached_scan list \<Rightarrow> (wifi_error \<times> int option \<times> scans_state) run" where
  "wifi_get_cached_gscan_results k iter env nets r flush mx scans =
     execute_loop k iter env nets r flush mx 10 \<lparr>gs_scans = scans, gs_retrieved = 0, gs_completed = 0\<rparr>"

section \<open>Structures as bytes\<close>

lemma sint_word_of_int_u32: "-(2 ^ 31) \<le> i \<Longrightarrow> i < 2 ^ 31 \<Longrightarrow> sint (word_of_int i :: u32) = i"
  by (simp add: signed_take_bit_int_eq_self_iff sint_sbintrunc')

lemma chunks_concat:
  assumes "list_all (\<lambda>e. length e = s) es"
  shows "chunks s (length es) (concat es @ rest) = es"
  using assms
proof (induction es)
  case (Cons e es)
  have "chunks s (length (e # es)) (concat (e # es) @ rest) =
      field 0 s (e @ concat es @ rest) # map (\<lambda>i. field (s * Suc i) s (e @ concat es @ rest)) [0..<length es]"
    by (simp add: chunks_def upt_conv_Cons map_Suc_upt [symmetric] del: upt_Suc)
  also have "\<dots> = e # chunks s (length es) (concat es @ rest)"
    using Cons.prems by (simp add: chunks_def)
  finally show ?case using Cons by simp
qed (simp add: chunks_def)

lemma chunks_take:
  assumes "list_all (\<lambda>e. length e = s) es" "m \<le> length es"
  shows "chunks s m (concat es) = take m es"
proof -
  have "list_all (\<lambda>e. length e = s) (take m es)" using assms(1) by (auto simp: list_all_iff dest: in_set_takeD)
  from chunks_concat [OF this, of "concat (drop m es)"] assms(2) show ?thesis
    by (simp flip: concat_append)
qed

section \<open>Correctness of the queries\<close>

lemma channel_words:
  assumes "m \<le> length vs"
  shows "map (\<lambda>i. word_of_nat (le_field (4 * i) 4 (concat (map (\<lambda>v. le_bytes 4 (unat v)) vs)))) [0..<m] = take m (vs :: u32 list)"
proof -
  let ?es = "map (\<lambda>v :: u32. le_bytes 4 (unat v)) vs"
  have "map (\<lambda>i. word_of_nat (le_field (4 * i) 4 (concat ?es))) [0..<m] =
      map (\<lambda>e. word_of_nat (le_val e)) (chunks 4 m (concat ?es))"
    by (simp add: chunks_def le_field_def)
  also have "\<dots> = take m vs"
    using assms by (simp add: chunks_take list_all_iff take_map comp_def)
  finally show ?thesis .
qed

lemma channel_loop_answer:
  assumes "4 \<le> length npl" "m = min (sint (le_u32 npl)) mx" "0 \<le> m" "m \<le> int (length chans)" "4 * m \<le> int (length pl)"
  shows "channel_loop mx [(WIFI_ATTRIBUTE_NUM_CHANNELS, npl), (WIFI_ATTRIBUTE_CHANNEL_LIST, pl)] num (out, chans) =
     Inr (m, copy_over (map (\<lambda>i. word_of_nat (le_field (4 * i) 4 pl)) [0..<nat m]) chans)"
proof -
  have "(if sint (le_u32 npl) > mx then mx else sint (le_u32 npl)) = m" using assms(2) by simp
  with assms(1,3-5) show ?thesis
    by (simp add: WIFI_ATTRIBUTE_NUM_CHANNELS_def WIFI_ATTRIBUTE_CHANNEL_LIST_def copy_over_def Let_def)
qed

lemma valid_channels_iter:
  assumes "channel_list_create env band r = Inr (res0, r1)" "0 \<le> res0" "exchange_ends net j res"
    and "net_replies net j = [(NL80211_CMD_VENDOR, Some bs)]" "bs \<noteq> []"
    and "iter bs = [(WIFI_ATTRIBUTE_NUM_CHANNELS, le_bytes 4 (length vs)),
                    (WIFI_ATTRIBUTE_CHANNEL_LIST, concat (map (\<lambda>v. le_bytes 4 (unat v)) vs))]"
    and "length vs < 2 ^ 31" "2 \<le> length chans"
  shows "wifi_get_valid_channels iter env net r band (out, chans) =
     ret (res, int (min (length vs) (length chans)),
          copy_over (take (length chans) vs) (replicate (length chans) 0))"
proof -
  let ?m = "min (length vs) (length chans)" and ?pl = "concat (map (\<lambda>v :: u32. le_bytes 4 (unat v)) vs)"
  have "sint (le_u32 (le_bytes 4 (length vs))) = int (length vs)"
    using sint_word_of_int_u32 [of "int (length vs)"] assms(7) by (simp add: le_u32_def le_val_bytes)
  then have m: "int ?m = min (sint (le_u32 (le_bytes 4 (length vs)))) (int (length chans))" by simp
  have pl: "4 * int ?m \<le> int (length ?pl)"
    using length_concat_eq [of 4 "map (\<lambda>v :: u32. le_bytes 4 (unat v)) vs"] by (simp add: list_all_iff)
  have "channel_loop (int (length chans)) (iter bs) 0 (out, replicate (length chans) 0) =
      Inr (int ?m, copy_over (map (\<lambda>i. word_of_nat (le_field (4 * i) 4 ?pl)) [0..<nat (int ?m)]) (replicate (length chans) 0))"
    unfolding assms(6) by (rule channel_loop_answer [OF _ m _ _ pl]) simp_all
  also have "map (\<lambda>i. word_of_nat (le_field (4 * i) 4 ?pl)) [0..<nat (int ?m)] = take (length chans) vs"
    using channel_words [of ?m vs] by (simp add: min_def)
  finally have "channel_loop (int (length chans)) (iter bs) 0 (out, replicate (length chans) 0) =
      Inr (int ?m, copy_over (take (length chans) vs) (replicate (length chans) 0))" .
  then show ?thesis
    using assms(1-5,8)
    by (simp add: wifi_get_valid_channels_def create_requestResponse_def exchange_returns [OF assms(3)]
        keep_ub_def run_of_def channel_list_handleResponse_def)
qed

text \<open>The attributes of such an answer.\<close>

definition channel_attrs :: "u32 list \<Rightarrow> (nat \<times> u8 list) list" where
  "channel_attrs vs = [(WIFI_ATTRIBUTE_NUM_CHANNELS, le_bytes 4 (length vs)),
     (WIFI_ATTRIBUTE_CHANNEL_LIST, concat (map (\<lambda>v. le_bytes 4 (unat v)) vs))]"

lemma wf_channel_attrs: "4 * length vs + 4 < 2 ^ 16 \<Longrightarrow> list_all wf_attr (channel_attrs vs)"
  using length_concat_eq [of 4 "map (\<lambda>v :: u32. le_bytes 4 (unat v)) vs"]
  by (simp add: channel_attrs_def wf_attr_def WIFI_ATTRIBUTE_NUM_CHANNELS_def WIFI_ATTRIBUTE_CHANNEL_LIST_def list_all_iff)

text \<open>
  A driver that reports \<open>n\<close> channels and then lists them, as two nested attributes, has the first of
  them, as many as the caller's array holds, stored there in order; the rest of the array is zero and
  the reported number is the number stored.
\<close>

lemma valid_channels_answer:
  assumes "libnl_attributes lib" "channel_list_create env band r = Inr (res0, r1)" "0 \<le> res0" "exchange_ends net j res"
    and "net_replies net j = [(NL80211_CMD_VENDOR, Some (nl_bytes (channel_attrs vs)))]"
    and "4 * length vs + 4 < 2 ^ 16" "2 \<le> length chans"
  shows "wifi_get_valid_channels (visits lib) env net r band (out, chans) =
     ret (res, int (min (length vs) (length chans)),
          copy_over (take (length chans) vs) (replicate (length chans) 0))"
proof (rule valid_channels_iter [OF assms(2-5)])
  show "visits lib (nl_bytes (channel_attrs vs)) = [(WIFI_ATTRIBUTE_NUM_CHANNELS, le_bytes 4 (length vs)),
      (WIFI_ATTRIBUTE_CHANNEL_LIST, concat (map (\<lambda>v. le_bytes 4 (unat v)) vs))]"
    using libnl_attributes.visits_bytes [OF assms(1) wf_channel_attrs [OF assms(6)]] by (simp add: channel_attrs_def)
  show "nl_bytes (channel_attrs vs) \<noteq> []" by (simp add: nl_bytes_def channel_attrs_def attr_bytes_def)
qed (use assms(6,7) in auto)

text \<open>A negative count is not refused.\<close>

lemma negative_channel_count:
  "channel_loop 4 [(2, le_bytes 4 0xFFFFFFFF), (3, replicate 16 0)] 0 (0, [0, 0, 0, 0]) = Inl Out_of_bounds"
proof -
  have "sint (le_u32 (le_bytes 4 0xFFFFFFFF)) = -1" by (simp add: le_u32_def le_val_bytes)
  then show ?thesis by (simp add: WIFI_ATTRIBUTE_NUM_CHANNELS_def WIFI_ATTRIBUTE_CHANNEL_LIST_def Let_def)
qed

text \<open>A capability reply without vendor data is dereferenced all the same.\<close>

lemma capabilities_null_data:
  "capabilities_handleResponse no_gscan (NL80211_CMD_VENDOR, None) caps = Inl Null_deref"
  by (simp add: capabilities_handleResponse_def)

section \<open>Correctness of the cached results\<close>

text \<open>Replies whose attributes are as long as what is read of them.\<close>

definition wf_scan_attr :: "nat \<times> u8 list \<Rightarrow> bool" where
  "wf_scan_attr a = (case a of (ty, pl) \<Rightarrow>
     (ty \<in> {GSCAN_ATTRIBUTE_SCAN_ID, GSCAN_ATTRIBUTE_NUM_OF_RESULTS, GSCAN_ATTRIBUTE_CH_BUCKET_BITMASK} \<longrightarrow> 4 \<le> length pl) \<and>
     (ty = GSCAN_ATTRIBUTE_SCAN_FLAGS \<longrightarrow> pl \<noteq> []))"

definition wf_outer_attr :: "(u8 list \<Rightarrow> (nat \<times> u8 list) list) \<Rightarrow> nat \<times> u8 list \<Rightarrow> bool" where
  "wf_outer_attr iter a = (case a of (ty, pl) \<Rightarrow>
     (ty = GSCAN_ATTRIBUTE_SCAN_RESULTS_COMPLETE \<longrightarrow> pl \<noteq> []) \<and> list_all wf_scan_attr (iter pl))"

definition wf_scan_reply :: "(u8 list \<Rightarrow> (nat \<times> u8 list) list) \<Rightarrow> int \<times> u8 list option \<Rightarrow> bool" where
  "wf_scan_reply iter reply = (case snd reply of
     None \<Rightarrow> True
   | Some bs \<Rightarrow> bs = [] \<or> 4 \<le> length bs \<and> inner_len bs \<le> length bs \<and>
       list_all (wf_outer_attr iter) (iter (take (inner_len bs - 4) (inner_data bs))))"

text \<open>What holds of the state all along: \<open>n\<close> is the number of the caller's entries.\<close>

definition scans_ok :: "hal_consts \<Rightarrow> nat \<Rightarrow> int \<Rightarrow> scans_state \<Rightarrow> bool" where
  "scans_ok k n mx st \<longleftrightarrow> length (gs_scans st) = n \<and>
     list_all (\<lambda>s. length (cs_results s) = MAX_AP_CACHE_PER_SCAN k) (gs_scans st) \<and>
     0 \<le> gs_retrieved st \<and> gs_retrieved st \<le> max 0 mx \<and>
     list_all (\<lambda>s. cs_num_results s \<le> int (MAX_AP_CACHE_PER_SCAN k)) (take (nat (gs_retrieved st)) (gs_scans st))"

lemma scans_ok_store:
  assumes "scans_ok k n mx st" "gs_retrieved st < mx" "mx \<le> int n" "i = nat (gs_retrieved st)"
    and "length (cs_results s) = MAX_AP_CACHE_PER_SCAN k" "cs_num_results s \<le> int (MAX_AP_CACHE_PER_SCAN k)"
  shows "scans_ok k n mx (st\<lparr>gs_scans := (gs_scans st)[i := s], gs_retrieved := gs_retrieved st + 1\<rparr>)"
proof -
  have i: "i < length (gs_scans st)" "nat (gs_retrieved st + 1) = Suc i"
    using assms(1-4) by (auto simp: scans_ok_def nat_add_distrib)
  have "set ((gs_scans st)[i := s]) \<subseteq> insert s (set (gs_scans st))" by (rule set_update_subset_insert)
  with i assms show ?thesis
    by (auto simp: scans_ok_def list_all_iff take_Suc_conv_app_nth)
qed

lemma clip_num_bounds:
  assumes "88 \<le> sizeof_scan_result k"
  shows "88 * nat (clip_num k num pl) \<le> length pl" "clip_num k num pl \<le> int (MAX_AP_CACHE_PER_SCAN k)"
    "nat (clip_num k num pl) \<le> MAX_AP_CACHE_PER_SCAN k"
proof -
  have "88 * nat (clip_num k num pl) \<le> sizeof_scan_result k * (length pl div sizeof_scan_result k)"
    using assms by (intro mult_le_mono) (auto simp: clip_num_def)
  also have "\<dots> \<le> length pl" by simp
  finally show "88 * nat (clip_num k num pl) \<le> length pl" .
qed (auto simp: clip_num_def)

lemma store_scan_ok:
  assumes "88 \<le> sizeof_scan_result k" "mx \<le> int n" "scans_ok k n mx st" "gs_retrieved st < mx"
  shows "\<exists>v' st'. store_scan k pl v st = Inr (v', st') \<and> scans_ok k n mx st'"
proof -
  let ?num = "clip_num k (v_num v) pl" and ?i = "nat (gs_retrieved st)"
  have i: "?i < length (gs_scans st)" "length (cs_results (gs_scans st ! ?i)) = MAX_AP_CACHE_PER_SCAN k"
    using assms(2-4) by (auto simp: scans_ok_def list_all_length)
  note clip = clip_num_bounds [OF assms(1), of "v_num v" pl]
  from i clip have "length (copy_over (results_of pl (nat ?num)) (cs_results (gs_scans st ! ?i))) = MAX_AP_CACHE_PER_SCAN k"
    by (simp add: results_of_def)
  then have "scans_ok k n mx (st\<lparr>gs_scans := (gs_scans st)[?i :=
      \<lparr>cs_scan_id = v_scan_id v, cs_flags = v_flags v, cs_num_results = ?num, cs_buckets_scanned = v_mask v,
       cs_results = copy_over (results_of pl (nat ?num)) (cs_results (gs_scans st ! ?i))\<rparr>],
     gs_retrieved := gs_retrieved st + 1\<rparr>)"
    using clip by (intro scans_ok_store [OF assms(3,4,2) refl]) simp_all
  moreover have "\<not> (length pl < 88 * nat ?num \<or> length (gs_scans st) \<le> ?i \<or>
      length (cs_results (gs_scans st ! ?i)) < nat ?num)" using i clip by simp
  ultimately show ?thesis by (simp add: store_scan_def gscan_sizes Let_def)
qed

lemma scan_loop_ok:
  assumes "88 \<le> sizeof_scan_result k" "mx \<le> int n"
  shows "scans_ok k n mx st \<Longrightarrow> list_all wf_scan_attr as \<Longrightarrow>
    \<exists>st'. scan_loop k mx as v st = Inr st' \<and> scans_ok k n mx st'"
proof (induction as arbitrary: v st)
  case (Cons a as)
  obtain ty pl where a: "a = (ty, pl)" by force
  show ?case
  proof (cases "ty = GSCAN_ATTRIBUTE_SCAN_RESULTS \<and> v_num v \<noteq> 0 \<and> gs_retrieved st < mx")
    case True
    with store_scan_ok [OF assms Cons.prems(1), of pl v] obtain v' st' where
      "store_scan k pl v st = Inr (v', st')" "scans_ok k n mx st'" by blast
    with Cons a True show ?thesis by (auto simp: gscan_attributes)
  next
    case False
    have "list_all wf_scan_attr as" using Cons.prems(2) by simp
    with Cons.IH [OF Cons.prems(1)] obtain f where "\<And>v. scan_loop k mx as v st = Inr (f v) \<and> scans_ok k n mx (f v)"
      by metis
    with False Cons.prems a show ?thesis by (auto simp: wf_scan_attr_def gscan_attributes)
  qed
qed simp

lemma scans_loop_ok:
  assumes "88 \<le> sizeof_scan_result k" "mx \<le> int n"
  shows "scans_ok k n mx st \<Longrightarrow> list_all (wf_outer_attr iter) as \<Longrightarrow>
    \<exists>st'. scans_loop k iter mx as st = Inr st' \<and> scans_ok k n mx st'"
proof (induction as arbitrary: st)
  case (Cons a as)
  obtain ty pl where a: "a = (ty, pl)" by force
  show ?case
  proof (cases "ty = GSCAN_ATTRIBUTE_SCAN_RESULTS_COMPLETE")
    case True
    with Cons a show ?thesis by (auto simp: wf_outer_attr_def scans_ok_def)
  next
    case False
    from Cons.prems a obtain st' where
      "scan_loop k mx (iter pl) \<lparr>v_scan_id = 0, v_flags = 0, v_num = 0, v_mask = 0\<rparr> st = Inr st'" "scans_ok k n mx st'"
      using scan_loop_ok [OF assms, of st "iter pl"] by (auto simp: wf_outer_attr_def)
    with Cons a False show ?thesis by auto
  qed
qed simp

lemma scan_results_fold_ok:
  assumes "88 \<le> sizeof_scan_result k" "mx \<le> int n"
  shows "scans_ok k n mx st \<Longrightarrow> list_all (wf_scan_reply iter) rs \<Longrightarrow>
    \<exists>st'. fold (keep_ub (scan_results_handleResponse k iter mx)) rs (Inr st) = Inr st' \<and> scans_ok k n mx st'"
proof (induction rs arbitrary: st)
  case (Cons rp rs)
  have "\<exists>c st'. scan_results_handleResponse k iter mx rp st = Inr (c, st') \<and> scans_ok k n mx st'"
    using Cons.prems scans_loop_ok [OF assms, of st iter]
    by (fastforce simp: scan_results_handleResponse_def wf_scan_reply_def split: option.splits)
  with Cons show ?case by (auto simp: keep_ub_def)
qed simp

lemma results_request_total:
  "nests_ok env \<or> nla_room env \<Longrightarrow> \<exists>res r'. scan_results_createRequest env num flush r = Inr (res, r')"
  unfolding scan_results_createRequest_def
  by (rule or_success_request_total) (auto simp: put_u32_def put_u8_def)

lemma execute_loop_ok:
  assumes "88 \<le> sizeof_scan_result k" "mx \<le> int n" "nests_ok env \<or> nla_room env"
    and "\<And>j. j < 10 \<Longrightarrow> \<exists>l res. exchange_ends (nets j) l res \<and> list_all (wf_scan_reply iter) (net_replies (nets j) l)"
  shows "left \<le> 10 \<Longrightarrow> scans_ok k n mx st \<Longrightarrow>
    \<exists>res out st'. execute_loop k iter env nets r flush mx left st = ret (res, out, st') \<and> scans_ok k n mx st' \<and>
      out = (if res = WIFI_SUCCESS then Some (gs_retrieved st') else None)"
proof (induction left arbitrary: st)
  case (Suc left)
  show ?case
  proof (cases "gs_retrieved st < mx")
    case True
    obtain res0 r' where c: "scan_results_createRequest env (word_of_int (mx - gs_retrieved st)) flush r = Inr (res0, r')"
      using results_request_total [OF assms(3)] by blast
    obtain l res where ex: "exchange_ends (nets (9 - left)) l res"
      "list_all (wf_scan_reply iter) (net_replies (nets (9 - left)) l)"
      using assms(4) [of "9 - left"] by force
    from scan_results_fold_ok [OF assms(1,2) Suc.prems(2) ex(2)] obtain st' where
      "fold (keep_ub (scan_results_handleResponse k iter mx)) (net_replies (nets (9 - left)) l) (Inr st) = Inr st'"
      and st': "scans_ok k n mx st'" by blast
    then have x: "run_of (requestResponse (nets (9 - left)) (keep_ub (scan_results_handleResponse k iter mx)) (Inr st)) =
        ret (res, st')" by (simp add: run_of_def exchange_returns [OF ex(1)])
    show ?thesis
    proof (cases "0 \<le> res0 \<and> res = WIFI_SUCCESS \<and> gs_retrieved st' \<noteq> gs_retrieved st \<and> gs_completed st' = 0")
      case True
      with Suc.IH [OF _ st'] Suc.prems(1) c x \<open>gs_retrieved st < mx\<close> show ?thesis by simp
    next
      case False
      with c x st' Suc.prems(2) \<open>gs_retrieved st < mx\<close> show ?thesis
        by (cases "res0 < 0"; cases "res = WIFI_SUCCESS") (simp_all add: wifi_codes)
    qed
  next
    case False
    with Suc.prems show ?thesis by simp
  qed
qed simp


definition acking_bytes :: "(int \<times> u8 list option) cmd_net" where
  "acking_bytes = \<lparr>nl_cb_alloc_ok = True, nl_send_ret = 40, nl_recv = (\<lambda>_. [Ev_ack])\<rparr>"

lemma acking_bytes_ends: "exchange_ends acking_bytes 0 0" "net_replies acking_bytes 0 = []"
  by (simp_all add: exchange_ends_def acking_bytes_def net_replies_def)


end
