(* ===== verification/Gscan_Events.thy ===== *)
theory Gscan_Events
  imports Gscan_Results
begin

text \<open>
  The event handlers of \<open>wifi_hal/gscan.cpp\<close>: scan events and full scan results, hotlist, ePNO,
  significant change and passpoint events. For each, what the user's callback gets from an event that
  carries the structures of the driver; the lemmas without a claim show events on which a handler
  leaves its buffers.
\<close>

section \<open>Events\<close>

text \<open>
  A handler delivers something to the user's callback, or nothing. \<open>vd\<close> is the vendor data of the event,
  \<open>subcmd\<close> its vendor subcommand, \<open>i\<close> the id of the command.
\<close>

type_synonym 'a delivery = "ub + 'a option"

definition wifi_handle_full_scan_event ::
  "bool \<Rightarrow> bool \<Rightarrow> int \<Rightarrow> int \<Rightarrow> u8 list option \<Rightarrow> (int \<times> scan_result \<times> u8 list \<times> u32) delivery" where
  "wifi_handle_full_scan_event has_cb malloc_ok i subcmd vd =
     (case vd of
        None \<Rightarrow> Inr None
      | Some bs \<Rightarrow>
          if length bs < sizeof_gscan_full_result then Inr None
          else if subcmd \<noteq> GSCAN_EVENT_FULL_SCAN_RESULTS then Inr None
          else (let drv = inner_data bs; ie_len = min MAX_PROBE_RESP_IE_LEN (le_field 92 4 drv)
                in if ie_len + offset_ie_data > length bs then Inr None
                   else if \<not> malloc_ok then Inr None
                   else if length drv < offset_ie_data + ie_len then Inl Out_of_bounds
                   else if has_cb
                   then Inr (Some (i, convert_to_hal_result drv (word_of_nat ie_len),
                                   field offset_ie_data ie_len drv, word_of_nat (le_field 88 4 drv)))
                   else Inr None))"

text \<open>\<open>ScanCommand::handleEvent\<close>\<close>

datatype scan_delivery = Scan_event int u32 | Full_result int scan_result "u8 list" u32

definition scan_handleEvent ::
  "bool \<Rightarrow> bool \<Rightarrow> bool \<Rightarrow> int \<Rightarrow> int \<Rightarrow> u8 list option \<Rightarrow> scan_delivery delivery" where
  "scan_handleEvent has_scan_cb has_full_cb malloc_ok i subcmd vd =
     (if subcmd = GSCAN_EVENT_COMPLETE_SCAN \<or> subcmd = GSCAN_EVENT_SCAN_RESULTS_AVAILABLE then
        (case vd of
           None \<Rightarrow> Inr None
         | Some bs \<Rightarrow>
             if length bs < 4 then Inl Out_of_bounds
             else if inner_len bs \<noteq> 8 then Inr None
             else if length bs < 8 then Inl Out_of_bounds
             else if has_scan_cb then Inr (Some (Scan_event i (le_u32 (inner_data bs)))) else Inr None)
      else if subcmd = GSCAN_EVENT_FULL_SCAN_RESULTS then
        map_sum (\<lambda>e. e) (map_option (\<lambda>(j, res, ies, b). Full_result j res ies b))
          (wifi_handle_full_scan_event has_full_cb malloc_ok i subcmd vd)
      else Inr None)"

text \<open>
  \<open>BssidHotlistCommand::handleEvent\<close>: the results are passed on as they are, as \<open>num\<close> structures of the
  size of the Android result. \<open>Some True\<close> in the delivery is a found, \<open>Some False\<close> a lost event.
\<close>

definition hotlist_handleEvent ::
  "hal_consts \<Rightarrow> bool \<Rightarrow> bool \<Rightarrow> int \<Rightarrow> int \<Rightarrow> u8 list option \<Rightarrow> (bool \<times> int \<times> nat \<times> u8 list) delivery" where
  "hotlist_handleEvent k has_found has_lost i subcmd vd =
     (case vd of
        None \<Rightarrow> Inr None
      | Some bs \<Rightarrow>
          if bs = [] then Inr None
          else (let s = sizeof_scan_result k; num = min 64 (length bs div s);
                    copies = int (inner_type bs) = GSCAN_EVENT_HOTLIST_RESULTS_LOST
                             \<or> int (inner_type bs) = GSCAN_EVENT_HOTLIST_RESULTS_FOUND;
                    results = (if copies then copy_over (take (num * s) (inner_data bs)) (replicate (64 * s) 0)
                               else replicate (64 * s) 0)
                in if length bs < 4 then Inl Out_of_bounds
                   else if copies \<and> length (inner_data bs) < num * s then Inl Out_of_bounds
                   else if subcmd = GSCAN_EVENT_HOTLIST_RESULTS_FOUND \<and> has_found
                   then Inr (Some (True, i, num, results))
                   else if subcmd = GSCAN_EVENT_HOTLIST_RESULTS_LOST \<and> has_lost
                   then Inr (Some (False, i, num, results))
                   else Inr None))"

text \<open>
  \<open>ePNOCommand::handleEvent\<close>: \<open>wifi_pno_result_t\<close> has 44 bytes, \<open>ssid\<close> at 0, \<open>ssid_len\<close> at 32, \<open>rssi\<close> at
  33, \<open>channel\<close> at 34, \<open>flags\<close> at 36, \<open>bssid\<close> at 38. A result that is not "found" stays cleared.
\<close>

definition PNO_SSID_FOUND :: nat where "PNO_SSID_FOUND = 1"
definition sizeof_pno_result :: nat where "sizeof_pno_result = 44"

record pno_found =
  pf_ssid :: "u8 list"
  pf_bssid :: mac
  pf_channel :: nat
  pf_rssi :: int

definition cleared_pno :: pno_found where
  "cleared_pno = \<lparr>pf_ssid = replicate (DOT11_MAX_SSID_LEN + 1) 0, pf_bssid = replicate 6 0, pf_channel = 0, pf_rssi = 0\<rparr>"

definition pno_entry :: "u8 list \<Rightarrow> ub + pno_found" where
  "pno_entry e =
     (if le_field 36 2 e = PNO_SSID_FOUND then
        (let n = unat (e ! 32)
         in if DOT11_MAX_SSID_LEN < n then Inl Out_of_bounds
            else Inr \<lparr>pf_ssid = copy_over (field 0 n e) (replicate (DOT11_MAX_SSID_LEN + 1) 0), pf_bssid = field 38 6 e,
                      pf_channel = le_field 34 2 e, pf_rssi = sint (e ! 33)\<rparr>)
      else Inr cleared_pno)"

fun pno_loop :: "u8 list list \<Rightarrow> ub + pno_found list" where
  "pno_loop [] = Inr []"
| "pno_loop (e # es) =
     (case pno_entry e of
        Inl u \<Rightarrow> Inl u
      | Inr p \<Rightarrow> (case pno_loop es of Inl u \<Rightarrow> Inl u | Inr ps \<Rightarrow> Inr (p # ps)))"

definition epno_handleEvent ::
  "hal_consts \<Rightarrow> bool \<Rightarrow> int \<Rightarrow> u8 list option \<Rightarrow> (int \<times> pno_found list) delivery" where
  "epno_handleEvent k has_cb i vd =
     (case vd of
        None \<Rightarrow> Inr None
      | Some bs \<Rightarrow>
          if bs = [] then Inr None
          else (let num = min (MAX_EPNO_NETWORKS k) (length bs div sizeof_pno_result)
                in case pno_loop (chunks sizeof_pno_result num bs) of
                     Inl u \<Rightarrow> Inl u
                   | Inr ps \<Rightarrow> if has_cb then Inr (Some (i, ps)) else Inr None))"

text \<open>
  \<open>SignificantWifiChangeCommand::handleEvent\<close>: \<open>ChangeInfo\<close> has 18 bytes, \<open>flags\<close> at 0, \<open>channel\<close> at 2,
  \<open>bssid\<close> at 4, eight signed bytes of history at 10. The callback is not checked for null.
\<close>

definition sizeof_change_info :: nat where "sizeof_change_info = 18"

record change_result =
  ch_bssid :: mac
  ch_channel :: nat
  ch_rssi :: "int list"

definition change_of :: "u8 list \<Rightarrow> change_result" where
  "change_of e = \<lparr>ch_bssid = field 4 6 e, ch_channel = le_field 2 2 e, ch_rssi = map sint (field 10 8 e)\<rparr>"

definition significant_handleEvent :: "bool \<Rightarrow> int \<Rightarrow> u8 list option \<Rightarrow> (int \<times> change_result list) delivery" where
  "significant_handleEvent has_cb i vd =
     (case vd of
        None \<Rightarrow> Inr None
      | Some bs \<Rightarrow>
          if bs = [] then Inr None
          else if length bs < 4 then Inl Out_of_bounds
          else (let num = min (length bs div sizeof_change_info) 64
                in if int (inner_type bs) \<noteq> GSCAN_EVENT_SIGNIFICANT_CHANGE_RESULTS then Inr None
                   else if length (inner_data bs) < num * sizeof_change_info then Inl Out_of_bounds
                   else if num = 0 then Inr None
                   else if \<not> has_cb then Inl Null_deref
                   else Inr (Some (i, map change_of (chunks sizeof_change_info num (inner_data bs))))))"

text \<open>
  \<open>AnqpoConfigureCommand::handleEvent\<close>: after the information elements follow the GAS response, with its
  length at offset 6 and its data at 8, and the network id. \<open>alloc\<close> is what the allocated memory holds
  where the code does not write it.
\<close>

definition anqpo_handleEvent ::
  "hal_consts \<Rightarrow> bool \<Rightarrow> u32 option \<Rightarrow> int \<Rightarrow> u8 list option \<Rightarrow> (int \<times> int \<times> scan_result \<times> u8 list) delivery" where
  "anqpo_handleEvent k has_cb alloc i vd =
     (case vd of
        None \<Rightarrow> Inr None
      | Some bs \<Rightarrow>
          if length bs < sizeof_scan_result k then Inr None
          else if alloc = None then Inr None
          else if length bs < offset_ie_data then Inl Out_of_bounds
          else (let anqp = offset_ie_data + le_field 92 4 bs
                in if length bs < anqp + 8 then Inl Out_of_bounds
                   else (let anqp_len = 8 + le_field (anqp + 6) 2 bs
                         in if length bs < anqp + anqp_len + 4 then Inl Out_of_bounds
                            else if has_cb
                            then Inr (Some (i, sint (word_of_nat (le_field (anqp + anqp_len) 4 bs) :: u32),
                                            convert_to_hal_result bs (the alloc), field anqp anqp_len bs))
                            else Inr None)))"

section \<open>Correctness of the scan events\<close>

text \<open>A full result as a driver lays it out; \<open>pad\<close> and \<open>tl_pad\<close> fill the gaps of the structure.\<close>

definition gscan_result_bytes :: "scan_result \<Rightarrow> u8 \<Rightarrow> u8 list \<Rightarrow> u8 list" where
  "gscan_result_bytes s pad tl_pad =
     le_bytes 8 (unat (sr_ts s)) @ sr_ssid s @ sr_bssid s @ [pad] @ le_bytes 4 (unat (sr_channel s)) @
     le_bytes 4 (unat (word_of_int (sr_rssi s) :: u32)) @ le_bytes 8 (unat (sr_rtt s)) @
     le_bytes 8 (unat (sr_rtt_sd s)) @ le_bytes 2 (unat (sr_beacon_period s)) @
     le_bytes 2 (unat (sr_capability s)) @ le_bytes 4 (unat (sr_ie_length s)) @ tl_pad"

definition full_result_bytes :: "scan_result \<Rightarrow> u8 \<Rightarrow> u8 list \<Rightarrow> u32 \<Rightarrow> u8 list \<Rightarrow> u8 list" where
  "full_result_bytes s pad tl_pad bucket ies =
     gscan_result_bytes s pad tl_pad @ le_bytes 4 (unat bucket) @ le_bytes 4 (length ies) @ ies"

definition wf_result :: "scan_result \<Rightarrow> bool" where
  "wf_result s \<longleftrightarrow> length (sr_ssid s) = 33 \<and> length (sr_bssid s) = 6 \<and> -(2 ^ 31) \<le> sr_rssi s \<and> sr_rssi s < 2 ^ 31"

lemma length_gscan_result: "wf_result s \<Longrightarrow> length tl_pad = 8 \<Longrightarrow> length (gscan_result_bytes s pad tl_pad) = 88"
  by (simp add: gscan_result_bytes_def wf_result_def)

lemma convert_result:
  "wf_result s \<Longrightarrow> convert_to_hal_result (gscan_result_bytes s pad tl_pad @ bs) ie = s\<lparr>sr_ie_length := ie\<rparr>"
  by (simp add: convert_to_hal_result_def gscan_result_bytes_def wf_result_def le_field_def
      DOT11_MAX_SSID_LEN_def sint_word_of_int_u32)

lemma full_result_fields:
  assumes "wf_result s" "length tl_pad = 8" "length ies < 2 ^ 32"
  shows "length (full_result_bytes s pad tl_pad bucket ies) = 96 + length ies"
    "le_field 92 4 (full_result_bytes s pad tl_pad bucket ies) = length ies"
    "word_of_nat (le_field 88 4 (full_result_bytes s pad tl_pad bucket ies)) = bucket"
    "field 96 (length ies) (full_result_bytes s pad tl_pad bucket ies) = ies"
  using assms by (simp_all add: full_result_bytes_def length_gscan_result le_field_def le_val_bytes)


definition some_result :: scan_result where
  "some_result = \<lparr>sr_ts = 5000, sr_ssid = 104 # 105 # replicate 31 0, sr_bssid = [2, 0, 0, 0, 0, 9],
     sr_channel = 2437, sr_rssi = -60, sr_rtt = 7, sr_rtt_sd = 1, sr_beacon_period = 100,
     sr_capability = 0x431, sr_ie_length = 0\<rparr>"


text \<open>
  The check of the length forgets the header of the inner attribute: with up to four bytes missing, the
  information elements are copied from behind the event.
\<close>

lemma full_scan_event_overrun:
  assumes "wf_result s" "length tl_pad = 8" "length ies = 9"
  shows "wifi_handle_full_scan_event True True i GSCAN_EVENT_FULL_SCAN_RESULTS
           (Some (take 105 (inner_attr 3 109 (full_result_bytes s pad tl_pad bucket ies)))) = Inl Out_of_bounds"
proof -
  let ?f = "full_result_bytes s pad tl_pad bucket ies"
  have "take 105 (inner_attr 3 109 ?f) = inner_attr 3 109 (take 101 ?f)"
    by (simp add: inner_attr_def)
  moreover have "le_field 92 4 (take 101 ?f) = le_field 92 4 ?f"
    by (simp add: le_field_def field_def drop_take min_def)
  ultimately show ?thesis
    using assms full_result_fields [of s tl_pad ies pad bucket]
    by (simp add: wifi_handle_full_scan_event_def gscan_sizes MAX_PROBE_RESP_IE_LEN_def Let_def)
qed

section \<open>Correctness of lists of results\<close>

definition change_bytes :: "u16 \<Rightarrow> change_result \<Rightarrow> u8 list" where
  "change_bytes flags c =
     le_bytes 2 (unat flags) @ le_bytes 2 (ch_channel c) @ ch_bssid c @ map word_of_int (ch_rssi c)"

definition wf_change :: "change_result \<Rightarrow> bool" where
  "wf_change c \<longleftrightarrow> length (ch_bssid c) = 6 \<and> ch_channel c < 65536 \<and> length (ch_rssi c) = 8 \<and>
     list_all (\<lambda>x. -128 \<le> x \<and> x < 128) (ch_rssi c)"

lemma sint_word_of_int_u8: "-128 \<le> i \<Longrightarrow> i < 128 \<Longrightarrow> sint (word_of_int i :: u8) = i"
  by (simp add: signed_take_bit_int_eq_self_iff sint_sbintrunc')

lemma change_of_bytes: "wf_change c \<Longrightarrow> change_of (change_bytes flags c) = c"
proof -
  assume wf: "wf_change c"
  then have "map (sint \<circ> (word_of_int :: int \<Rightarrow> u8)) (ch_rssi c) = ch_rssi c"
    by (auto simp: wf_change_def list_all_iff sint_word_of_int_u8 intro!: map_idI)
  with wf show ?thesis
    by (simp add: wf_change_def change_of_def change_bytes_def le_field_def le_val_bytes)
qed

text \<open>
  An event that carries up to 64 significant changes is delivered as exactly these changes, in
  order, each with its BSSID, channel and the eight samples of its history as signed numbers.
\<close>

lemma significant_event_roundtrip:
  assumes "list_all wf_change cs" "cs \<noteq> []" "length cs \<le> 64"
  shows "significant_handleEvent True i (Some (inner_attr 0 n (concat (map (change_bytes flags) cs)))) =
         Inr (Some (i, cs))"
proof -
  let ?es = "map (change_bytes flags) cs"
  have es: "list_all (\<lambda>e. length e = 18) ?es"
    using assms(1) by (auto simp: list_all_iff change_bytes_def wf_change_def)
  have "chunks 18 (length cs) (concat ?es) = ?es" using chunks_concat [OF es, of "[]"] by simp
  moreover have "map (change_of \<circ> change_bytes flags) cs = cs"
    using assms(1) by (auto simp: list_all_iff change_of_bytes intro!: map_idI)
  moreover have "length (concat ?es) = length cs * 18" "(length cs * 18 + 4) div 18 = length cs"
    using length_concat_eq [OF es] by simp_all
  ultimately show ?thesis
    using assms(2,3) by (simp add: significant_handleEvent_def sizeof_change_info_def gscan_events)
qed

text \<open>A length that is a multiple of 18 with the header makes the handler read four bytes too far.\<close>

lemma significant_event_overrun:
  "length bs = 14 \<Longrightarrow> significant_handleEvent True i (Some (inner_attr 0 18 bs)) = Inl Out_of_bounds"
  by (simp add: significant_handleEvent_def sizeof_change_info_def gscan_events)

text \<open>
  An event with up to 64 hotlist results is delivered to the callback of its kind, found or lost,
  with the number of results and their structures, byte by byte, at the start of the command's buffer.
\<close>

lemma hotlist_event_delivers:
  assumes "list_all (\<lambda>e. length e = sizeof_scan_result k) es" "length es \<le> 64" "4 < sizeof_scan_result k"
    and "ev = (if found then GSCAN_EVENT_HOTLIST_RESULTS_FOUND else GSCAN_EVENT_HOTLIST_RESULTS_LOST)"
  shows "hotlist_handleEvent k True True i ev (Some (inner_attr (nat ev) n (concat es))) =
         Inr (Some (found, i, length es,
                    copy_over (concat es) (replicate (64 * sizeof_scan_result k) 0)))"
proof -
  have "(length es * sizeof_scan_result k + 4) div sizeof_scan_result k = length es"
    using assms(3) by (simp add: div_add1_eq)
  then show ?thesis
    using assms length_concat_eq [OF assms(1)]
    by (auto simp: hotlist_handleEvent_def gscan_events Let_def mult.commute)
qed

lemma hotlist_event_overrun:
  assumes "length bs = sizeof_scan_result k - 4" "4 < sizeof_scan_result k"
  shows "hotlist_handleEvent k True True i 1 (Some (inner_attr 1 n bs)) = Inl Out_of_bounds"
  using assms by (simp add: hotlist_handleEvent_def gscan_events Let_def)

text \<open>
  ePNO results with an SSID of up to 32 bytes; a longer one leaves the arrays of both structures.
\<close>

definition wf_pno :: "u8 list \<Rightarrow> bool" where
  "wf_pno e \<longleftrightarrow> length e = sizeof_pno_result \<and> (le_field 36 2 e = PNO_SSID_FOUND \<longrightarrow> unat (e ! 32) \<le> DOT11_MAX_SSID_LEN)"

lemma pno_loop_wf: "list_all wf_pno es \<Longrightarrow> \<exists>ps. pno_loop es = Inr ps \<and> list_all2 (\<lambda>e p. pno_entry e = Inr p) es ps"
  by (induction es) (auto simp: pno_entry_def wf_pno_def Let_def)

text \<open>
  An ePNO event whose results have SSIDs of at most 32 bytes is delivered with one entry for each of
  its first \<open>MAX_EPNO_NETWORKS\<close> results, in order: BSSID, channel, signal strength and the terminated
  SSID of a network that was found, and a cleared entry for any other result.
\<close>

lemma epno_event_delivers:
  assumes "list_all wf_pno es" "es \<noteq> []" "length es \<le> MAX_EPNO_NETWORKS k"
  shows "\<exists>ps. epno_handleEvent k True i (Some (concat es)) = Inr (Some (i, ps)) \<and>
           list_all2 (\<lambda>e p. if le_field 36 2 e = PNO_SSID_FOUND
             then p = \<lparr>pf_ssid = field 0 (unat (e ! 32)) e @ replicate (33 - unat (e ! 32)) 0,
                       pf_bssid = field 38 6 e, pf_channel = le_field 34 2 e, pf_rssi = sint (e ! 33)\<rparr>
             else p = cleared_pno) es ps"
proof -
  have len: "list_all (\<lambda>e. length e = 44) es"
    using assms(1) by (auto simp: list_all_iff wf_pno_def sizeof_pno_result_def)
  obtain ps where ps: "pno_loop es = Inr ps" "list_all2 (\<lambda>e p. pno_entry e = Inr p) es ps"
    using pno_loop_wf [OF assms(1)] by blast
  have "concat es \<noteq> []" using len assms(2) length_concat_eq [OF len] by (cases es) auto
  with ps assms(3) length_concat_eq [OF len] chunks_concat [OF len, of "[]"]
  have "epno_handleEvent k True i (Some (concat es)) = Inr (Some (i, ps))"
    by (simp add: epno_handleEvent_def sizeof_pno_result_def min_def)
  moreover have "if le_field 36 2 e = PNO_SSID_FOUND
      then p = \<lparr>pf_ssid = field 0 (unat (e ! 32)) e @ replicate (33 - unat (e ! 32)) 0,
                pf_bssid = field 38 6 e, pf_channel = le_field 34 2 e, pf_rssi = sint (e ! 33)\<rparr>
      else p = cleared_pno" if "pno_entry e = Inr p" "wf_pno e" for e p
    using that length_field [of 0 "unat (e ! 32)" e]
    by (auto simp: pno_entry_def wf_pno_def Let_def copy_over_def DOT11_MAX_SSID_LEN_def sizeof_pno_result_def
        split: if_splits)
  ultimately show ?thesis
    using ps(2) assms(1) by (auto simp: list_all2_conv_all_nth list_all_length)
qed

lemma epno_long_ssid:
  assumes "length e = 44" "le_field 36 2 e = PNO_SSID_FOUND" "33 \<le> unat (e ! 32)"
  shows "epno_handleEvent some_consts True i (Some e) = Inl Out_of_bounds"
proof -
  have "chunks 44 1 e = [e]" using assms(1) by (simp add: chunks_def)
  with assms show ?thesis
    by (auto simp: epno_handleEvent_def sizeof_pno_result_def some_consts_def pno_entry_def DOT11_MAX_SSID_LEN_def Let_def)
qed

text \<open>A passpoint event is read at lengths that it states itself, without a check.\<close>

lemma anqpo_event_unchecked:
  assumes "length bs = 96" "sizeof_scan_result k \<le> 96"
  shows "anqpo_handleEvent k True (Some 0) i (Some bs) = Inl Out_of_bounds"
  using assms by (simp add: anqpo_handleEvent_def gscan_sizes)

end
