(* ===== verification/Hal_Init.thy ===== *)
theory Hal_Init
  imports Hal_Command
begin

text \<open>
  The life cycle of the Wi-Fi HAL (\<open>wifi_hal/wifi_hal.cpp\<close>): \<open>wifi_initialize\<close> with the resources
  it acquires and releases on each path, the discovery of the interfaces, multicast membership,
  \<open>wifi_event_loop\<close>, and \<open>wifi_cleanup\<close> with its cancellation loop.

  The outcome of every system and library call is a parameter.
\<close>

section \<open>Sockets and memberships\<close>

text \<open>\<open>(pid & 0x3FFFFF) + (port << 22)\<close>\<close>

definition local_port :: "u32 \<Rightarrow> u32 \<Rightarrow> u32" where
  "local_port pid port = (pid AND 0x3FFFFF) + push_bit 22 port"

definition WIFI_HAL_CMD_SOCK_PORT :: u32 where "WIFI_HAL_CMD_SOCK_PORT = 644"
definition WIFI_HAL_EVENT_SOCK_PORT :: u32 where "WIFI_HAL_EVENT_SOCK_PORT = 645"

text \<open>Whether \<open>wifi_create_nl_socket\<close> returns a socket; a socket that cannot connect is freed.\<close>

definition wifi_create_nl_socket :: "bool \<Rightarrow> int \<Rightarrow> bool" where
  "wifi_create_nl_socket alloc_ok connect_ret \<longleftrightarrow> alloc_ok \<and> connect_ret = 0"

text \<open>
  The groups of a \<open>CTRL_CMD_GETFAMILY\<close> reply: name and id, either may be missing. The name counts
  with its length, so that a name that is a prefix of the wanted one (without a NUL) matches.
\<close>

fun find_group :: "string \<Rightarrow> (string option \<times> u32 option) list \<Rightarrow> int \<Rightarrow> int" where
  "find_group grp [] mId = mId"
| "find_group grp ((n, i) # gs) mId =
     (case (n, i) of
        (Some name, Some gid) \<Rightarrow>
          if strncmp_eq (length name) (takeWhile (\<lambda>c. c \<noteq> CHR 0x00) name) grp then sint gid else find_group grp gs mId
      | _ \<Rightarrow> find_group grp gs mId)"

definition multicast_handleResponse ::
  "string \<Rightarrow> (string option \<times> u32 option) list option \<Rightarrow> int \<Rightarrow> int" where
  "multicast_handleResponse grp groups mId =
     (case groups of None \<Rightarrow> mId | Some gs \<Rightarrow> find_group grp gs mId)"

definition CTRL_CMD_GETFAMILY :: int where "CTRL_CMD_GETFAMILY = 3"
definition CTRL_ATTR_FAMILY_NAME :: nat where "CTRL_ATTR_FAMILY_NAME = 2"

text \<open>\<open>GetMulticastIdCommand::create\<close>; \<open>nlctrl\<close> is the resolved control family.\<close>

definition multicast_create :: "req_env \<Rightarrow> int \<Rightarrow> string \<Rightarrow> wifi_request \<Rightarrow> int \<times> wifi_request" where
  "multicast_create env nlctrl name r =
     req_then (req_create env nlctrl CTRL_CMD_GETFAMILY r) (req_put_string env CTRL_ATTR_FAMILY_NAME name)"

text \<open>\<open>wifi_get_multicast_id\<close>: \<open>None\<close> when the exchange does not end.\<close>

definition wifi_get_multicast_id ::
  "(string option \<times> u32 option) list option cmd_net \<Rightarrow> req_env \<Rightarrow> int \<Rightarrow> wifi_request \<Rightarrow> string \<Rightarrow> string
    \<Rightarrow> int option" where
  "wifi_get_multicast_id net env nlctrl r name grp =
     map_option (\<lambda>(res, mId). if res < 0 then res else mId)
       (create_requestResponse net (multicast_create env nlctrl name r) (multicast_handleResponse grp) (-1))"

definition wifi_add_membership :: "int \<Rightarrow> int \<Rightarrow> int" where
  "wifi_add_membership gid add_ret = (if gid < 0 then gid else add_ret)"

section \<open>Interfaces\<close>

record interface_info =
  if_name :: string
  if_id :: u32

definition is_wifi_interface :: "string \<Rightarrow> bool" where
  "is_wifi_interface name \<longleftrightarrow>
     \<not> (\<not> strncmp_eq 4 name ''wlan'' \<and> \<not> strncmp_eq 3 name ''p2p'')"

text \<open>The name field has nine bytes and is always terminated.\<close>

definition get_interface :: "(string \<Rightarrow> u32) \<Rightarrow> string \<Rightarrow> interface_info" where
  "get_interface if_nametoindex name = \<lparr>if_name = take 8 name, if_id = if_nametoindex name\<rparr>"

definition wifi_names :: "string list \<Rightarrow> string list" where
  "wifi_names entries =
     filter (\<lambda>n. \<not> (take 1 n = ''.'') \<and> is_wifi_interface n) entries"

text \<open>
  The directory is read twice, once to count and once to fill the array of that size;
  \<open>dir1\<close> and \<open>dir2\<close> are the two listings (\<open>None\<close> when \<open>opendir\<close> fails). More matches in the
  second reading are written past the array; entries the second reading does not fill stay
  uninitialised (\<open>None\<close>). \<open>get_interface\<close> always succeeds.
\<close>

definition wifi_init_interfaces ::
  "(string \<Rightarrow> u32) \<Rightarrow> bool \<Rightarrow> string list option \<Rightarrow> string list option
    \<Rightarrow> ub + wifi_error \<times> interface_info option list" where
  "wifi_init_interfaces if_nametoindex malloc_ok dir1 dir2 =
     (case dir1 of
        None \<Rightarrow> Inr (WIFI_ERROR_UNKNOWN, [])
      | Some d1 \<Rightarrow>
          (let n = length (wifi_names d1) in
           if n = 0 then Inr (WIFI_ERROR_NOT_AVAILABLE, [])
           else (case dir2 of
                   None \<Rightarrow> Inr (WIFI_ERROR_UNKNOWN, [])
                 | Some d2 \<Rightarrow>
                     if \<not> malloc_ok then Inr (WIFI_ERROR_OUT_OF_MEMORY, [])
                     else if length (wifi_names d2) > n then Inl Out_of_bounds
                     else Inr (WIFI_SUCCESS,
                            copy_over (map (\<lambda>m. Some (get_interface if_nametoindex m)) (wifi_names d2))
                              (replicate n None)))))"

definition wifi_get_ifaces :: "interface_info option list \<Rightarrow> wifi_error \<times> nat \<times> interface_info option list" where
  "wifi_get_ifaces ifs = (WIFI_SUCCESS, length ifs, ifs)"

text \<open>\<open>strncpy (name, info->name, size)\<close>: the bytes written to the caller's buffer.\<close>

definition wifi_get_iface_name :: "interface_info \<Rightarrow> nat \<Rightarrow> wifi_error \<times> string" where
  "wifi_get_iface_name info sz =
     (WIFI_SUCCESS, take sz (if_name info @ replicate (sz - length (if_name info)) (CHR 0x00)))"

section \<open>Initialisation\<close>

datatype hal_res = R_info | R_cleanup_socks | R_cmd_sock | R_event_sock | R_event_cb | R_cmd
  | R_mutex | R_interfaces

record init_env =
  ok_info :: bool
  ok_socketpair :: bool
  ok_cmd_sock :: bool
  ok_event_sock :: bool
  ok_nl_cb :: bool
  ok_event_cb :: bool
  ok_cmd :: bool
  family_id :: int
  interfaces_ret :: wifi_error
  membership_ret :: "string \<Rightarrow> int"

definition release :: "hal_res list \<Rightarrow> hal_res list \<Rightarrow> hal_res list" where
  "release rs held = filter (\<lambda>r. r \<notin> set rs) held"

text \<open>The result and the resources still held when the function returns.\<close>

definition wifi_initialize :: "init_env \<Rightarrow> wifi_error \<times> hal_res list" where
  "wifi_initialize env =
     (if \<not> ok_info env then (WIFI_ERROR_OUT_OF_MEMORY, [])
      else let h = [R_info] in
      if \<not> ok_socketpair env then (WIFI_ERROR_UNKNOWN, release [R_info] h)
      else let h = R_cleanup_socks # h in
      if \<not> ok_cmd_sock env then (WIFI_ERROR_UNKNOWN, release [R_info] h)
      else let h = R_cmd_sock # h in
      if \<not> ok_event_sock env then (WIFI_ERROR_UNKNOWN, release [R_cmd_sock, R_info] h)
      else let h = R_event_sock # h in
      if \<not> ok_nl_cb env then (WIFI_ERROR_UNKNOWN, release [R_cmd_sock, R_event_sock, R_info] h)
      else if \<not> ok_event_cb env then
        (WIFI_ERROR_OUT_OF_MEMORY, release [R_cmd_sock, R_event_sock, R_info] h)
      else let h = R_event_cb # h in
      if \<not> ok_cmd env then
        (WIFI_ERROR_OUT_OF_MEMORY, release [R_cmd_sock, R_event_sock, R_event_cb, R_info] h)
      else let h = R_cmd # h in
      if family_id env < 0 then
        (WIFI_ERROR_UNKNOWN, release [R_cmd_sock, R_event_sock, R_event_cb, R_cmd, R_info] h)
      else let h = R_mutex # h in
      if interfaces_ret env \<noteq> WIFI_SUCCESS then
        (WIFI_ERROR_NOT_AVAILABLE,
         release [R_cmd_sock, R_event_sock, R_event_cb, R_cmd, R_mutex, R_info] h)
      else let h = R_interfaces # h in
      if membership_ret env ''scan'' < 0 \<or> membership_ret env ''mlme'' < 0
         \<or> membership_ret env ''regulatory'' < 0 \<or> membership_ret env ''vendor'' < 0 then
        (WIFI_ERROR_NOT_AVAILABLE,
         release [R_cmd_sock, R_event_sock, R_event_cb, R_cmd, R_mutex, R_info] h)
      else (WIFI_SUCCESS, h))"

text \<open>The part of \<open>internal_cleaned_up_handler\<close> that releases resources.\<close>

definition internal_cleaned_up_handler :: "hal_res list \<Rightarrow> hal_res list" where
  "internal_cleaned_up_handler held =
     release [R_mutex, R_info]
       (if R_cmd_sock \<in> set held
        then release [R_cleanup_socks, R_cmd_sock, R_event_sock] held else held)"

section \<open>The event loop\<close>

text \<open>What one \<open>poll\<close> reports, in the order the loop looks at it.\<close>

datatype poll_result = Poll_failed | Event_err | Event_hup | Event_in | Cleanup_in string | Poll_other

text \<open>
  \<open>wifi_event_loop\<close>: \<open>polls n\<close> is the result of the \<open>n\<close>-th poll, \<open>clean_up n\<close> the flag as it is
  read at the end of that turn, \<open>work\<close> the effect of \<open>internal_pollin_handler\<close>. The result is the
  state and whether \<open>Done\<close> was written to the cleanup socket.
\<close>

partial_function (option) event_turns ::
  "(nat \<Rightarrow> poll_result) \<Rightarrow> (nat \<Rightarrow> bool) \<Rightarrow> ('s \<Rightarrow> 's) \<Rightarrow> nat \<Rightarrow> 's \<Rightarrow> ('s \<times> bool) option" where
  "event_turns polls clean_up work n s =
     (case polls n of
        Event_hup \<Rightarrow> Some (s, False)
      | Event_in \<Rightarrow> if clean_up n then Some (work s, False) else event_turns polls clean_up work (n + 1) (work s)
      | Cleanup_in buf \<Rightarrow>
          if strncmp_eq 4 buf ''Exit'' then Some (s, True)
          else if clean_up n then Some (s, False) else event_turns polls clean_up work (n + 1) s
      | _ \<Rightarrow> if clean_up n then Some (s, False) else event_turns polls clean_up work (n + 1) s)"

text \<open>A loop that runs already makes the call return at once; nothing ever resets the flag.\<close>

definition wifi_event_loop ::
  "(nat \<Rightarrow> poll_result) \<Rightarrow> (nat \<Rightarrow> bool) \<Rightarrow> ('s \<Rightarrow> 's) \<Rightarrow> bool \<times> 's \<Rightarrow> ((bool \<times> 's) \<times> bool) option" where
  "wifi_event_loop polls clean_up work st =
     (if fst st then Some (st, False)
      else map_option (\<lambda>(s, d). ((True, s), d)) (event_turns polls clean_up work 0 (snd st)))"

section \<open>Cleanup\<close>

text \<open>
  The \<open>while\<close> loop of \<open>wifi_cleanup\<close>. A command whose cancellation leaves the number of commands
  as it was counts as bad and is skipped from then on. An entry without a command is neither
  removed nor counted.
\<close>

partial_function (option) cleanup_loop ::
  "(ptr \<Rightarrow> hal_state \<Rightarrow> hal_state run) \<Rightarrow> nat \<Rightarrow> hal_state \<Rightarrow> hal_state run" where
  "cleanup_loop cancel bad st =
     (let t = cmds (tabs st) in
      if tab_num t > bad then
        (let c = ci_cmd (tab_arr t ! bad) in
         if c \<noteq> NULL then
           (case cancel c st of
              None \<Rightarrow> None
            | Some (Inl e) \<Rightarrow> Some (Inl e)
            | Some (Inr st1) \<Rightarrow>
                (let bad1 = (if tab_num t = tab_num (cmds (tabs st1)) then bad + 1 else bad)
                 in cleanup_loop cancel bad1 (st1\<lparr>live := releaseRef c (live st1)\<rparr>)))
         else cleanup_loop cancel bad st)
      else ret st)"

text \<open>
  \<open>write_ret\<close> is the result of writing \<open>Exit\<close> to the event loop, \<open>answer\<close> what is read back
  (\<open>None\<close> when the read blocks for ever). Whatever the answer is, \<open>clean_up\<close> is set and the
  commands are cancelled; the result is the flag, the tables and the resources still held.
\<close>

definition wifi_cleanup ::
  "int \<Rightarrow> string option \<Rightarrow> (ptr \<Rightarrow> hal_state \<Rightarrow> hal_state run) \<Rightarrow> hal_state \<Rightarrow> hal_res list
    \<Rightarrow> (bool \<times> hal_state \<times> hal_res list) run" where
  "wifi_cleanup write_ret answer cancel st held =
     (if write_ret \<ge> 1 \<and> answer = None then None
      else run_then (cleanup_loop cancel 0 st) (\<lambda>st'. ret (True, st', internal_cleaned_up_handler held)))"

section \<open>Correctness of sockets and memberships\<close>

lemma pid_mask: "(0x3FFFFF :: u32) = mask 22"
  by (simp add: mask_eq_exp_minus_1)

lemma unat_pid: "unat (pid AND 0x3FFFFF :: u32) < 2 ^ 22"
proof -
  have "pid AND 0x3FFFFF < 2 ^ 22" unfolding pid_mask by (rule and_mask_less') simp
  then show ?thesis by (simp add: word_less_nat_alt)
qed

lemma unat_local_port:
  assumes "port = 644 \<or> port = 645"
  shows "unat (local_port pid port) = unat (pid AND 0x3FFFFF) + unat port * 2 ^ 22"
proof -
  have p: "unat (push_bit 22 port) = unat port * 2 ^ 22" using assms by auto
  have "unat (pid AND 0x3FFFFF) + unat (push_bit 22 port) < 2 ^ 32"
    using unat_pid [of pid] assms by (auto simp: p)
  then show ?thesis by (simp add: local_port_def unat_add_lem [THEN iffD1] p)
qed

lemma local_port_low: "local_port pid port AND 0x3FFFFF = pid AND 0x3FFFFF"
proof -
  have "(pid AND mask 22) AND push_bit 22 port = 0"
    by (rule bit_eqI) (auto simp: bit_simps)
  then have "local_port pid port = pid AND mask 22 OR push_bit 22 port"
    unfolding local_port_def pid_mask by (rule disjunctive_add_eq_or)
  then show ?thesis unfolding pid_mask by (auto intro!: bit_eqI simp: bit_simps)
qed

text \<open>
  The two netlink ports never collide: for any two process ids, the local port of the command
  socket differs from that of the event socket, and the process id part can be read back from
  either.
\<close>

lemma local_ports_disjoint:
  "local_port pid WIFI_HAL_CMD_SOCK_PORT \<noteq> local_port pid' WIFI_HAL_EVENT_SOCK_PORT \<and>
   local_port pid port AND 0x3FFFFF = pid AND 0x3FFFFF"
proof -
  have "unat (local_port pid WIFI_HAL_CMD_SOCK_PORT) < 645 * 2 ^ 22"
    using unat_pid [of pid] by (simp add: unat_local_port WIFI_HAL_CMD_SOCK_PORT_def)
  moreover have "645 * 2 ^ 22 \<le> unat (local_port pid' WIFI_HAL_EVENT_SOCK_PORT)"
    by (simp add: unat_local_port WIFI_HAL_EVENT_SOCK_PORT_def)
  ultimately have "local_port pid WIFI_HAL_CMD_SOCK_PORT \<noteq> local_port pid' WIFI_HAL_EVENT_SOCK_PORT"
    by (metis linorder_not_less)
  then show ?thesis by (simp add: local_port_low)
qed

text \<open>
  C35: on success \<open>wifi_initialize\<close> holds everything it needs; on a failure it returns an error
  and holds no netlink socket, table, mutex or \<open>hal_info\<close> any more. What a failure does leave
  behind is the pair of cleanup sockets, once it has them, and the interfaces when the
  memberships fail.
\<close>

theorem wifi_initialize_resources:
  "(fst (wifi_initialize env) = WIFI_SUCCESS \<and>
      set (snd (wifi_initialize env)) = {R_info, R_cleanup_socks, R_cmd_sock, R_event_sock,
        R_event_cb, R_cmd, R_mutex, R_interfaces}) \<or>
   (fst (wifi_initialize env) < 0 \<and>
      set (snd (wifi_initialize env)) =
        (if ok_info env \<and> ok_socketpair env then {R_cleanup_socks} else {}) \<union>
        (if ok_info env \<and> ok_socketpair env \<and> ok_cmd_sock env \<and> ok_event_sock env \<and> ok_nl_cb env \<and>
            ok_event_cb env \<and> ok_cmd env \<and> 0 \<le> family_id env \<and> interfaces_ret env = WIFI_SUCCESS
         then {R_interfaces} else {}))"
  by (auto simp: wifi_initialize_def release_def wifi_codes Let_def)

text \<open>A HAL that is initialised and cleaned up leaves its two tables and its interfaces allocated.\<close>

lemma cleanup_leaks:
  "fst (wifi_initialize env) = WIFI_SUCCESS \<Longrightarrow>
   set (internal_cleaned_up_handler (snd (wifi_initialize env))) = {R_event_cb, R_cmd, R_interfaces}"
  by (auto simp: wifi_initialize_def release_def internal_cleaned_up_handler_def wifi_codes Let_def
      split: if_splits)

section \<open>Correctness of the discovery\<close>

text \<open>
  When the directory does not change between its two readings, the HAL finds every Wi-Fi
  interface once, in directory order, under its name cut to eight characters and with its index,
  and reports exactly that many.
\<close>

lemma init_interfaces_complete:
  assumes "wifi_names d \<noteq> []"
  shows "wifi_init_interfaces idx True (Some d) (Some d) =
           Inr (WIFI_SUCCESS, map (\<lambda>n. Some \<lparr>if_name = take 8 n, if_id = idx n\<rparr>) (wifi_names d)) \<and>
         (\<forall>n \<in> set (wifi_names d). take 4 n = ''wlan'' \<or> take 3 n = ''p2p'')"
  using assms
  by (auto simp: wifi_init_interfaces_def copy_over_def get_interface_def wifi_names_def
      is_wifi_interface_def strncmp_eq_def)

text \<open>
  An interface that appears between the two readings is written past the array; one that goes
  away leaves an uninitialised entry that is still counted.
\<close>

lemma init_interfaces_race:
  "wifi_init_interfaces idx True (Some [''wlan0'']) (Some [''wlan0'', ''p2p0'']) = Inl Out_of_bounds"
  "wifi_init_interfaces idx True (Some [''wlan0'', ''p2p0'']) (Some [''wlan0'']) =
     Inr (WIFI_SUCCESS, [Some \<lparr>if_name = ''wlan0'', if_id = idx ''wlan0''\<rparr>, None])"
  by (simp_all add: wifi_init_interfaces_def wifi_names_def is_wifi_interface_def strncmp_eq_def
      get_interface_def copy_over_def)

section \<open>Correctness of the event loop\<close>

text \<open>The polls of a turn that leaves the loop running, and what it does.\<close>

definition turn_continues :: "(nat \<Rightarrow> poll_result) \<Rightarrow> (nat \<Rightarrow> bool) \<Rightarrow> nat \<Rightarrow> bool" where
  "turn_continues polls clean_up n \<longleftrightarrow>
     \<not> clean_up n \<and> polls n \<noteq> Event_hup \<and>
     (case polls n of Cleanup_in buf \<Rightarrow> \<not> strncmp_eq 4 buf ''Exit'' | _ \<Rightarrow> True)"

lemma event_turns_skip:
  assumes "\<forall>j < k. turn_continues polls clean_up (n + j)"
  shows "event_turns polls clean_up work n s =
         event_turns polls clean_up work (n + k)
           ((work ^^ length (filter (\<lambda>j. polls (n + j) = Event_in) [0..<k])) s)"
  using assms
proof (induction k)
  case (Suc k)
  let ?s = "(work ^^ length (filter (\<lambda>j. polls (n + j) = Event_in) [0..<k])) s"
  have "turn_continues polls clean_up (n + k)" using Suc.prems by simp
  then have "event_turns polls clean_up work (n + k) ?s =
      event_turns polls clean_up work (n + Suc k) (if polls (n + k) = Event_in then work ?s else ?s)"
    by (subst event_turns.simps) (auto simp: turn_continues_def split: poll_result.splits)
  with Suc show ?case by simp
qed simp

text \<open>
  C39: the event loop ends when it is told to. If the first \<open>k\<close> turns leave it running and the
  next poll brings \<open>Exit\<close> on the cleanup socket, the loop returns, answers \<open>Done\<close>, and has handled
  exactly the turns with events on the netlink socket.
\<close>

theorem event_loop_exits:
  assumes "\<forall>j < k. turn_continues polls clean_up j" "polls k = Cleanup_in (''Exit'' @ rest)"
  shows "wifi_event_loop polls clean_up work (False, s) =
    Some ((True, (work ^^ length (filter (\<lambda>j. polls j = Event_in) [0..<k])) s), True)"
proof -
  have "event_turns polls clean_up work k ((work ^^ length (filter (\<lambda>j. polls j = Event_in) [0..<k])) s)
      = Some ((work ^^ length (filter (\<lambda>j. polls j = Event_in) [0..<k])) s, True)"
    using assms(2) by (subst event_turns.simps) (simp add: strncmp_eq_def)
  then show ?thesis
    using event_turns_skip [of k polls clean_up 0 work s] assms(1) by (simp add: wifi_event_loop_def)
qed

theorem event_loop_exits_witness:
  "wifi_event_loop (\<lambda>n. if n < 2 then Event_in else Cleanup_in ''Exit'') (\<lambda>_. False) Suc (False, 0)
     = Some ((True, 2), True)"
  using event_loop_exits [of 2 "\<lambda>n. if n < 2 then Event_in else Cleanup_in ''Exit''" "\<lambda>_. False" "[]" Suc 0]
  by (simp add: turn_continues_def numeral_2_eq_2)

text \<open>A second run never gets past the flag of the first.\<close>

lemma event_loop_runs_once: "wifi_event_loop polls clean_up work (True, s) = Some ((True, s), False)"
  by (simp add: wifi_event_loop_def)

section \<open>Correctness of the cleanup\<close>

definition no_null_cmds :: "hal_state \<Rightarrow> bool" where
  "no_null_cmds st \<longleftrightarrow> (\<forall>k < tab_num (cmds (tabs st)). ci_cmd (tab_arr (cmds (tabs st)) ! k) \<noteq> NULL)"

text \<open>
  \<open>wifi_cleanup\<close> ends, provided the event loop answers (or cannot be written to), no table
  entry lacks its command, and cancellations return and add no entries (or such an entry): every turn
  of the cancellation loop either shortens the table or skips one more entry.
\<close>

lemma wifi_cleanup_ends:
  assumes cancel: "\<And>c s. no_null_cmds s \<Longrightarrow>
      \<exists>s'. cancel c s = ret s' \<and> no_null_cmds s' \<and> tab_num (cmds (tabs s')) \<le> tab_num (cmds (tabs s))"
    and "no_null_cmds st" and "write_ret < 1 \<or> answer = Some buf"
  shows "\<exists>st'. wifi_cleanup write_ret answer cancel st held = ret (True, st', internal_cleaned_up_handler held)"
proof -
  have "\<exists>st'. cleanup_loop cancel bad st = ret st'" if "no_null_cmds st" for bad st
    using that
  proof (induction "tab_num (cmds (tabs st)) - bad" arbitrary: bad st rule: less_induct)
    case less
    show ?case
    proof (cases "tab_num (cmds (tabs st)) > bad")
      case False
      then show ?thesis by (subst cleanup_loop.simps) (simp add: Let_def)
    next
      case True
      define c where "c = ci_cmd (tab_arr (cmds (tabs st)) ! bad)"
      from cancel [OF less.prems, of c] obtain st1 where st1: "cancel c st = ret st1" "no_null_cmds st1"
        "tab_num (cmds (tabs st1)) \<le> tab_num (cmds (tabs st))" by blast
      define st2 where "st2 = st1\<lparr>live := releaseRef c (live st1)\<rparr>"
      define bad1 where "bad1 = (if tab_num (cmds (tabs st)) = tab_num (cmds (tabs st1)) then bad + 1 else bad)"
      have c: "c \<noteq> NULL" using True less.prems by (simp add: c_def no_null_cmds_def)
      have "no_null_cmds st2" using st1(2) by (simp add: st2_def no_null_cmds_def)
      moreover have "tab_num (cmds (tabs st2)) - bad1 < tab_num (cmds (tabs st)) - bad"
        using st1(3) True by (auto simp: st2_def bad1_def)
      ultimately obtain st' where "cleanup_loop cancel bad1 st2 = ret st'"
        using less.hyps by blast
      moreover have "cleanup_loop cancel bad st = cleanup_loop cancel bad1 st2"
        using True c st1(1)
        by (subst cleanup_loop.simps) (simp add: Let_def ret_def st2_def bad1_def flip: c_def)
      ultimately show ?thesis by simp
    qed
  qed
  then show ?thesis using assms(2,3) by (auto simp: wifi_cleanup_def run_then_eq_ret)
qed

end
