(* ===== verification/Hal_Features.thy ===== *)
theory Hal_Features
  imports Hal_Init Hal_Events
begin

text \<open>
  The commands of \<open>wifi_hal/wifi_hal.cpp\<close> beside the life cycle: feature sets and the concurrency
  matrix (\<open>GetFeatureSetCommand\<close>), roaming capabilities and configuration, the RSSI monitor with
  its registration, start, cancellation and events, country codes, and the functions that only
  report a fixed answer.

  Constants of the Android headers the code includes (feature bits, the limits of the roaming
  lists and of an SSID) are parameters.
\<close>

section \<open>Feature sets\<close>

definition WIFI_ATTRIBUTE_NUM_FEATURE_SET :: nat where "WIFI_ATTRIBUTE_NUM_FEATURE_SET = 4"
definition WIFI_ATTRIBUTE_FEATURE_SET :: nat where "WIFI_ATTRIBUTE_FEATURE_SET = 5"
definition WIFI_ATTRIBUTE_COUNTRY_CODE :: nat where "WIFI_ATTRIBUTE_COUNTRY_CODE = 8"
definition WIFI_ATTRIBUTE_MAX_RSSI :: nat where "WIFI_ATTRIBUTE_MAX_RSSI = 9"
definition WIFI_ATTRIBUTE_MIN_RSSI :: nat where "WIFI_ATTRIBUTE_MIN_RSSI = 10"
definition WIFI_ATTRIBUTE_RSSI_MONITOR_START :: nat where "WIFI_ATTRIBUTE_RSSI_MONITOR_START = 11"
definition WIFI_ATTRIBUTE_ROAMING_CAPABILITIES :: nat where "WIFI_ATTRIBUTE_ROAMING_CAPABILITIES = 12"
definition WIFI_ATTRIBUTE_ROAMING_BLACKLIST_NUM :: nat where "WIFI_ATTRIBUTE_ROAMING_BLACKLIST_NUM = 13"
definition WIFI_ATTRIBUTE_ROAMING_BLACKLIST_BSSID :: nat where "WIFI_ATTRIBUTE_ROAMING_BLACKLIST_BSSID = 14"
definition WIFI_ATTRIBUTE_ROAMING_WHITELIST_NUM :: nat where "WIFI_ATTRIBUTE_ROAMING_WHITELIST_NUM = 15"
definition WIFI_ATTRIBUTE_ROAMING_WHITELIST_SSID :: nat where "WIFI_ATTRIBUTE_ROAMING_WHITELIST_SSID = 16"
definition WIFI_ATTRIBUTE_ROAMING_STATE :: nat where "WIFI_ATTRIBUTE_ROAMING_STATE = 17"

lemmas wifi_attributes = WIFI_ATTRIBUTE_NUM_FEATURE_SET_def WIFI_ATTRIBUTE_FEATURE_SET_def
  WIFI_ATTRIBUTE_COUNTRY_CODE_def WIFI_ATTRIBUTE_MAX_RSSI_def WIFI_ATTRIBUTE_MIN_RSSI_def
  WIFI_ATTRIBUTE_RSSI_MONITOR_START_def WIFI_ATTRIBUTE_ROAMING_CAPABILITIES_def
  WIFI_ATTRIBUTE_ROAMING_BLACKLIST_NUM_def WIFI_ATTRIBUTE_ROAMING_BLACKLIST_BSSID_def
  WIFI_ATTRIBUTE_ROAMING_WHITELIST_NUM_def WIFI_ATTRIBUTE_ROAMING_WHITELIST_SSID_def
  WIFI_ATTRIBUTE_ROAMING_STATE_def

definition WIFI_SUBCMD_GET_FEATURE_SET :: u32 where "WIFI_SUBCMD_GET_FEATURE_SET = 2"
definition WIFI_SUBCMD_GET_FEATURE_SET_MATRIX :: u32 where "WIFI_SUBCMD_GET_FEATURE_SET_MATRIX = 3"
definition WIFI_SUBCMD_SET_COUNTRY_CODE :: u32 where "WIFI_SUBCMD_SET_COUNTRY_CODE = 6"
definition WIFI_SUBCMD_SET_RSSI_MONITOR :: u32 where "WIFI_SUBCMD_SET_RSSI_MONITOR = 7"
definition WIFI_SUBCMD_GET_ROAMING_CAPABILITIES :: u32 where "WIFI_SUBCMD_GET_ROAMING_CAPABILITIES = 8"
definition WIFI_SUBCMD_CONFIG_ROAMING :: u32 where "WIFI_SUBCMD_CONFIG_ROAMING = 0x0a"
definition WIFI_SUBCMD_ENABLE_ROAMING :: u32 where "WIFI_SUBCMD_ENABLE_ROAMING = 0x0b"

text \<open>An attribute of the vendor data as the iterator sees it: its type and its 32-bit value.\<close>

type_synonym vattr = "nat \<times> u32"

text \<open>
  The loop of the concurrency matrix. \<open>num\<close> is \<open>num_features_set\<close>, \<open>fm_size\<close> the caller's size,
  \<open>matrix\<close> the caller's array; a write outside of it is out of bounds. The count is a signed
  number.
\<close>

fun matrix_loop ::
  "int \<Rightarrow> vattr list \<Rightarrow> nat \<Rightarrow> int \<Rightarrow> int \<Rightarrow> u32 list \<Rightarrow> ub + int \<times> u32 list" where
  "matrix_loop set_size_max [] i num fm_size matrix = Inr (fm_size, matrix)"
| "matrix_loop set_size_max ((ty, v) # as) i num fm_size matrix =
     (if ty = WIFI_ATTRIBUTE_NUM_FEATURE_SET then
        (let n = (if set_size_max \<noteq> 0 \<and> sint v > set_size_max then set_size_max else sint v)
         in matrix_loop set_size_max as i n n matrix)
      else if ty = WIFI_ATTRIBUTE_FEATURE_SET \<and> int i < num then
        (if i < length matrix
         then matrix_loop set_size_max as (i + 1) num fm_size (matrix[i := v])
         else Inl Out_of_bounds)
      else matrix_loop set_size_max as i num fm_size matrix)"

text \<open>The loop of the roaming capabilities; \<open>maxs\<close> are the two limits of the HAL.\<close>

fun roaming_loop :: "u32 list \<Rightarrow> int \<Rightarrow> vattr list \<Rightarrow> nat \<Rightarrow> u32 list \<Rightarrow> ub + u32 list" where
  "roaming_loop maxs set_size_max [] i matrix = Inr matrix"
| "roaming_loop maxs set_size_max ((ty, v) # as) i matrix =
     (if ty = WIFI_ATTRIBUTE_ROAMING_CAPABILITIES \<and> int i < set_size_max then
        (if i < length matrix \<and> i < length maxs
         then roaming_loop maxs set_size_max as (i + 1) (matrix[i := (if v > maxs ! i then maxs ! i else v)])
         else Inl Out_of_bounds)
      else roaming_loop maxs set_size_max as i matrix)"

text \<open>\<open>GetFeatureSetCommand::create\<close>\<close>

definition feature_create :: "req_env \<Rightarrow> nat \<Rightarrow> wifi_request \<Rightarrow> int \<times> wifi_request" where
  "feature_create env feature_type r =
     (if feature_type = WIFI_ATTRIBUTE_FEATURE_SET then
        req_create_vendor env GOOGLE_OUI WIFI_SUBCMD_GET_FEATURE_SET r
      else if feature_type = WIFI_ATTRIBUTE_NUM_FEATURE_SET then
        req_create_vendor env GOOGLE_OUI WIFI_SUBCMD_GET_FEATURE_SET_MATRIX r
      else if feature_type = WIFI_ATTRIBUTE_ROAMING_CAPABILITIES then
        req_create_vendor env GOOGLE_OUI WIFI_SUBCMD_GET_ROAMING_CAPABILITIES r
      else (-1, r))"

text \<open>A reply: its netlink command, the bytes of its vendor data and the attributes nested in it.\<close>

record vendor_reply =
  vr_cmd :: int
  vr_data :: "u8 list option"
  vr_attrs :: "vattr list"

text \<open>The caller's outputs: \<open>None\<close> is a null pointer. \<open>fo_set\<close> has four bytes.\<close>

record feature_out =
  fo_set :: "u8 list option"
  fo_matrix :: "u32 list option"
  fo_size :: "int option"

definition feature_handleResponse ::
  "u32 list \<Rightarrow> nat \<Rightarrow> int \<Rightarrow> vendor_reply \<Rightarrow> feature_out \<Rightarrow> ub + int \<times> feature_out" where
  "feature_handleResponse maxs feature_type set_size_max reply out =
     (if vr_cmd reply \<noteq> NL80211_CMD_VENDOR then Inr (NL_SKIP, out)
      else case vr_data reply of
        None \<Rightarrow> Inr (NL_SKIP, out)
      | Some bytes \<Rightarrow>
          if bytes = [] then Inr (NL_SKIP, out)
          else if feature_type = WIFI_ATTRIBUTE_FEATURE_SET then
            (case fo_set out of
               None \<Rightarrow> Inr (NL_SKIP, out)
             | Some dst \<Rightarrow> Inr (NL_OK, out\<lparr>fo_set := Some (copy_over (take 4 bytes) dst)\<rparr>))
          else if feature_type = WIFI_ATTRIBUTE_NUM_FEATURE_SET then
            (case (fo_matrix out, fo_size out) of
               (Some m, Some fs) \<Rightarrow>
                 (case matrix_loop set_size_max (vr_attrs reply) 0 0 fs m of
                    Inl e \<Rightarrow> Inl e
                  | Inr (fs', m') \<Rightarrow> Inr (NL_OK, out\<lparr>fo_matrix := Some m', fo_size := Some fs'\<rparr>))
             | _ \<Rightarrow> Inr (NL_SKIP, out))
          else if feature_type = WIFI_ATTRIBUTE_ROAMING_CAPABILITIES then
            (case (fo_matrix out, fo_size out) of
               (Some m, Some fs) \<Rightarrow>
                 (case roaming_loop maxs set_size_max (vr_attrs reply) 0 m of
                    Inl e \<Rightarrow> Inl e
                  | Inr m' \<Rightarrow> Inr (NL_OK, out\<lparr>fo_matrix := Some m', fo_size := Some set_size_max\<rparr>))
             | _ \<Rightarrow> Inr (NL_SKIP, out))
          else Inr (NL_OK, out))"

text \<open>The same as a step of the exchange: undefined behaviour is kept to the end.\<close>

definition feature_step ::
  "u32 list \<Rightarrow> nat \<Rightarrow> int \<Rightarrow> vendor_reply \<Rightarrow> ub + feature_out \<Rightarrow> ub + feature_out" where
  "feature_step maxs feature_type set_size_max reply st =
     (case st of
        Inl e \<Rightarrow> Inl e
      | Inr out \<Rightarrow>
          (case feature_handleResponse maxs feature_type set_size_max reply out of
             Inl e \<Rightarrow> Inl e
           | Inr (_, out') \<Rightarrow> Inr out'))"

text \<open>\<open>prop_buf\<close> is the property \<open>ro.wlan.mtk.wifi.5g\<close>; \<open>bit_of\<close> gives the feature bits.\<close>

datatype wifi_feature = WIFI_FEATURE_INFRA_5G | WIFI_FEATURE_P2P | WIFI_FEATURE_SOFT_AP
  | WIFI_FEATURE_TDLS | WIFI_FEATURE_PNO | WIFI_FEATURE_CONTROL_ROAMING

definition wifi_get_supported_feature_set ::
  "(wifi_feature \<Rightarrow> u32) \<Rightarrow> bool \<Rightarrow> string \<Rightarrow> wifi_error \<times> u32" where
  "wifi_get_supported_feature_set bit_of CONFIG_PNO_SUPPORT prop_buf =
     (let s0 = (if prop_buf = ''1'' then 0 OR bit_of WIFI_FEATURE_INFRA_5G else 0);
          s1 = s0 OR bit_of WIFI_FEATURE_P2P;
          s2 = s1 OR bit_of WIFI_FEATURE_SOFT_AP;
          s3 = s2 OR bit_of WIFI_FEATURE_TDLS;
          s4 = (if CONFIG_PNO_SUPPORT then s3 OR bit_of WIFI_FEATURE_PNO else s3);
          s5 = s4 OR bit_of WIFI_FEATURE_CONTROL_ROAMING
      in (WIFI_SUCCESS, s5))"

definition wifi_get_concurrency_matrix ::
  "u32 list \<Rightarrow> req_env \<Rightarrow> vendor_reply cmd_net \<Rightarrow> wifi_request \<Rightarrow> int \<Rightarrow> u32 list option \<Rightarrow> int option
    \<Rightarrow> (wifi_error \<times> (ub + feature_out)) option" where
  "wifi_get_concurrency_matrix maxs env net r set_size_max matrix set_size =
     create_requestResponse net (feature_create env WIFI_ATTRIBUTE_NUM_FEATURE_SET r)
       (feature_step maxs WIFI_ATTRIBUTE_NUM_FEATURE_SET set_size_max)
       (Inr \<lparr>fo_set = None, fo_matrix = matrix, fo_size = set_size\<rparr>)"

section \<open>Requests with vendor data\<close>

text \<open>\<open>SetCountryCodeCommand::create\<close>\<close>

definition country_create :: "req_env \<Rightarrow> string \<Rightarrow> wifi_request \<Rightarrow> ub + int \<times> wifi_request" where
  "country_create env code r =
     or_success (vendor_request env WIFI_SUBCMD_SET_COUNTRY_CODE
       [Start NL80211_ATTR_VENDOR_DATA False,
        Put WIFI_ATTRIBUTE_COUNTRY_CODE (map (\<lambda>c. word_of_nat (chr_code c)) code @ [0]),
        End] r)"

text \<open>\<open>EnableRoamingCommand::create\<close>\<close>

definition enable_roaming_create :: "req_env \<Rightarrow> u32 \<Rightarrow> wifi_request \<Rightarrow> ub + int \<times> wifi_request" where
  "enable_roaming_create env state r =
     or_success (vendor_request env WIFI_SUBCMD_ENABLE_ROAMING
       [Start NL80211_ATTR_VENDOR_DATA False, put_u32 WIFI_ATTRIBUTE_ROAMING_STATE state, End] r)"

text \<open>The default \<open>handleResponse\<close> only skips the reply.\<close>

definition wifi_set_country_code ::
  "req_env \<Rightarrow> unit cmd_net \<Rightarrow> wifi_request \<Rightarrow> string \<Rightarrow> wifi_error run" where
  "wifi_set_country_code env net r code = transact net (country_create env code r)"

definition wifi_enable_firmware_roaming ::
  "req_env \<Rightarrow> unit cmd_net \<Rightarrow> wifi_request \<Rightarrow> u32 \<Rightarrow> wifi_error run" where
  "wifi_enable_firmware_roaming env net r state = transact net (enable_roaming_create env state r)"

text \<open>
  \<open>SetRSSIMonitorCommand::createRequest\<close>; the limits are signed bytes that are passed as 32-bit
  values.
\<close>

definition rssi_createRequest ::
  "req_env \<Rightarrow> 8 word \<Rightarrow> 8 word \<Rightarrow> bool \<Rightarrow> wifi_request \<Rightarrow> ub + int \<times> wifi_request" where
  "rssi_createRequest env max_rssi min_rssi enable r =
     vendor_request env WIFI_SUBCMD_SET_RSSI_MONITOR
       [Start NL80211_ATTR_VENDOR_DATA False,
        put_u32 WIFI_ATTRIBUTE_MAX_RSSI (if enable then scast max_rssi else 0),
        put_u32 WIFI_ATTRIBUTE_MIN_RSSI (if enable then scast min_rssi else 0),
        put_u32 WIFI_ATTRIBUTE_RSSI_MONITOR_START (if enable then 1 else 0),
        End] r"

text \<open>
  \<open>ConfigRoamingCommand::createRequest\<close>. The SSID is copied to a buffer of
  \<open>MAX_SSID_LENGTH + 1\<close> bytes with the length the caller states.
\<close>

record roaming_config =
  blacklist_bssid :: "mac list"
  whitelist_ssid :: "(nat \<times> u8 list) list"

definition whitelist_step :: "nat \<Rightarrow> nat \<times> u8 list \<Rightarrow> req_step" where
  "whitelist_step max_ssid s =
     (if fst s > max_ssid then Fault Out_of_bounds
      else Put WIFI_ATTRIBUTE_ROAMING_WHITELIST_SSID (take (fst s) (snd s) @ [0]))"

definition roaming_createRequest ::
  "nat \<Rightarrow> req_env \<Rightarrow> roaming_config \<Rightarrow> wifi_request \<Rightarrow> ub + int \<times> wifi_request" where
  "roaming_createRequest max_ssid env cfg r =
     or_success (vendor_request env WIFI_SUBCMD_CONFIG_ROAMING
       ([Start NL80211_ATTR_VENDOR_DATA False,
         put_u32 WIFI_ATTRIBUTE_ROAMING_BLACKLIST_NUM (word_of_nat (length (blacklist_bssid cfg)))] @
        map (put_addr WIFI_ATTRIBUTE_ROAMING_BLACKLIST_BSSID) (blacklist_bssid cfg) @
        [put_u32 WIFI_ATTRIBUTE_ROAMING_WHITELIST_NUM (word_of_nat (length (whitelist_ssid cfg)))] @
        map (whitelist_step max_ssid) (whitelist_ssid cfg) @
        [End]) r)"

section \<open>Roaming\<close>

record roaming_capa =
  max_blacklist_size :: u32
  max_whitelist_size :: u32

text \<open>
  \<open>wifi_get_roaming_capabilities\<close>: the capabilities are the two words of \<open>caps\<close> the command
  fills; an answer is kept in \<open>hal_info\<close> and given out from there once it is not zero.
\<close>

definition wifi_get_roaming_capabilities ::
  "u32 list \<Rightarrow> req_env \<Rightarrow> vendor_reply cmd_net \<Rightarrow> wifi_request \<Rightarrow> roaming_capa option \<Rightarrow> roaming_capa
    \<Rightarrow> (wifi_error \<times> roaming_capa option \<times> roaming_capa) run" where
  "wifi_get_roaming_capabilities maxs env net r caps cache =
     (case caps of
        None \<Rightarrow> Some (Inr (WIFI_ERROR_INVALID_ARGS, None, cache))
      | Some c \<Rightarrow>
          if max_blacklist_size cache = 0 \<and> max_whitelist_size cache = 0 then
            (case create_requestResponse net (feature_create env WIFI_ATTRIBUTE_ROAMING_CAPABILITIES r)
                    (feature_step maxs WIFI_ATTRIBUTE_ROAMING_CAPABILITIES 2)
                    (Inr \<lparr>fo_set = None, fo_matrix = Some [max_blacklist_size c, max_whitelist_size c],
                          fo_size = Some 0\<rparr>) of
               None \<Rightarrow> None
             | Some (result, Inl e) \<Rightarrow> Some (Inl e)
             | Some (result, Inr out) \<Rightarrow>
                 (let c' = (case fo_matrix out of
                              Some [b, w] \<Rightarrow> \<lparr>max_blacklist_size = b, max_whitelist_size = w\<rparr> | _ \<Rightarrow> c)
                  in Some (Inr (result, Some c', if result = WIFI_SUCCESS then c' else cache))))
          else Some (Inr (WIFI_SUCCESS, Some cache, cache)))"

text \<open>\<open>ConfigRoamingCommand::start\<close>\<close>

definition config_roaming_start ::
  "nat \<Rightarrow> req_env \<Rightarrow> unit cmd_net \<Rightarrow> wifi_request \<Rightarrow> roaming_config \<Rightarrow> wifi_error run" where
  "config_roaming_start max_ssid env net r cfg = transact net (roaming_createRequest max_ssid env cfg r)"

definition wifi_configure_roaming ::
  "nat \<Rightarrow> req_env \<Rightarrow> unit cmd_net \<Rightarrow> wifi_request \<Rightarrow> roaming_config option \<Rightarrow> roaming_capa \<Rightarrow> wifi_error run" where
  "wifi_configure_roaming max_ssid env net r cfg_opt capa =
     (case cfg_opt of
        None \<Rightarrow> ret WIFI_ERROR_INVALID_ARGS
      | Some cfg \<Rightarrow>
          if length (blacklist_bssid cfg) > unat (max_blacklist_size capa) then ret WIFI_ERROR_NOT_SUPPORTED
          else if length (whitelist_ssid cfg) > unat (max_whitelist_size capa) then ret WIFI_ERROR_NOT_SUPPORTED
          else config_roaming_start max_ssid env net r cfg)"

section \<open>The RSSI monitor\<close>

definition WIFI_EVENT_RSSI_MONITOR :: int where "WIFI_EVENT_RSSI_MONITOR = 7"
definition RSSI_MONITOR_EVT_VERSION :: u8 where "RSSI_MONITOR_EVT_VERSION = 1"

text \<open>
  \<open>SetRSSIMonitorCommand::start\<close>: the result of the registration is not looked at. \<open>r\<close> is the
  fresh request, \<open>func\<close> the event handler and \<open>this\<close> the command.
\<close>

definition rssi_start ::
  "req_env \<Rightarrow> unit cmd_net \<Rightarrow> wifi_request \<Rightarrow> 8 word \<Rightarrow> 8 word \<Rightarrow> ptr \<Rightarrow> ptr \<Rightarrow> hal_tabs
    \<Rightarrow> (int \<times> hal_tabs) run" where
  "rssi_start env net r max_rssi min_rssi func this info =
     run_then (transact net (rssi_createRequest env max_rssi min_rssi True r))
       (\<lambda>result. if result < 0 then ret (result, info)
                 else ret (result, register_events [WIFI_EVENT_RSSI_MONITOR] func this info))"

text \<open>\<open>SetRSSIMonitorCommand::cancel\<close>: the result of the exchange is only logged.\<close>

definition rssi_cancel :: "req_env \<Rightarrow> unit cmd_net \<Rightarrow> wifi_request \<Rightarrow> hal_tabs \<Rightarrow> (int \<times> hal_tabs) run" where
  "rssi_cancel env net r info =
     run_then (transact_ne net (rssi_createRequest env 0 0 False r))
       (\<lambda>result. ret (WIFI_SUCCESS, unregister_events [WIFI_EVENT_RSSI_MONITOR] info))"

definition wifi_start_rssi_monitoring ::
  "req_env \<Rightarrow> unit cmd_net \<Rightarrow> wifi_request \<Rightarrow> 8 word \<Rightarrow> 8 word \<Rightarrow> ptr \<Rightarrow> ptr \<Rightarrow> int \<Rightarrow> hal_state
    \<Rightarrow> (wifi_error \<times> hal_state) run" where
  "wifi_start_rssi_monitoring env net r max_rssi min_rssi func p i st =
     start_registered (rssi_start env net r max_rssi min_rssi func p) p i st"

text \<open>
  With id -1 a temporary command is created, cancelled and released; \<open>q\<close> is its address. With any
  other id the command registered under it is cancelled by its own \<open>cancel\<close> method \<open>vcancel\<close>.
\<close>

definition wifi_stop_rssi_monitoring ::
  "(ptr \<Rightarrow> hal_state \<Rightarrow> hal_state run) \<Rightarrow> req_env \<Rightarrow> unit cmd_net \<Rightarrow> wifi_request \<Rightarrow> ptr \<Rightarrow> int \<Rightarrow> hal_state \<Rightarrow> (wifi_error \<times> hal_state) run" where
  "wifi_stop_rssi_monitoring vcancel env net r q i st =
     (if i = -1 then cancel_temporary (rssi_cancel env net r) q st else wifi_cancel_cmd vcancel i st)"

text \<open>
  \<open>SetRSSIMonitorCommand::handleEvent\<close>: the call of the user's callback with the id, the BSSID
  and the RSSI, when the event has data of the right type and version. The event structure is a
  version byte, a signed byte and six bytes.
\<close>

definition rssi_handleEvent :: "bool \<Rightarrow> int \<Rightarrow> (nat \<times> u8 list) option \<Rightarrow> ub + (int \<times> mac \<times> int) option" where
  "rssi_handleEvent has_cb i vdata =
     (case vdata of
        None \<Rightarrow> Inr None
      | Some (ty, bytes) \<Rightarrow>
          if int ty \<noteq> WIFI_EVENT_RSSI_MONITOR then Inr None
          else if length bytes < 8 then Inl Out_of_bounds
          else if bytes ! 0 \<noteq> RSSI_MONITOR_EVT_VERSION then Inr None
          else if has_cb then Inr (Some (i, take 6 (drop 2 bytes), sint (bytes ! 1)))
          else Inr None)"

section \<open>Fixed answers\<close>

definition dummy_success :: wifi_error where
  "dummy_success = WIFI_SUCCESS"

text \<open>Functions that write a fixed value through a pointer and refuse a null pointer.\<close>

definition dummy_store :: "'a \<Rightarrow> 'a option \<Rightarrow> wifi_error \<times> 'a option" where
  "dummy_store v dst = (case dst of None \<Rightarrow> (WIFI_ERROR_INVALID_ARGS, None) | Some _ \<Rightarrow> (WIFI_SUCCESS, Some v))"

definition wifi_get_packet_filter_capabilities_dummy ::
  "u32 option \<Rightarrow> u32 option \<Rightarrow> wifi_error \<times> u32 option \<times> u32 option" where
  "wifi_get_packet_filter_capabilities_dummy version max_len =
     (if version \<noteq> None \<and> max_len \<noteq> None then (WIFI_SUCCESS, Some 0, Some 0)
      else (WIFI_ERROR_INVALID_ARGS, version, max_len))"

text \<open>\<open>strncpy (buffer, "0", buffer_size)\<close> fills the rest of the buffer with NUL.\<close>

definition wifi_get_version_dummy :: "string option \<Rightarrow> int \<Rightarrow> wifi_error \<times> string option" where
  "wifi_get_version_dummy buffer buffer_size =
     (case buffer of
        None \<Rightarrow> (WIFI_ERROR_INVALID_ARGS, None)
      | Some b \<Rightarrow>
          if buffer_size > 0
          then (WIFI_SUCCESS, Some (take (nat buffer_size) (CHR ''0'' # replicate (nat buffer_size - 1) (CHR 0x00))))
          else (WIFI_ERROR_INVALID_ARGS, Some b))"

text \<open>The status of a ring: its name, and the bytes of the other members.\<close>

definition wifi_get_ring_buffers_status_dummy ::
  "u32 option \<Rightarrow> (string \<times> u8 list) option \<Rightarrow> wifi_error \<times> u32 option \<times> (string \<times> u8 list) option" where
  "wifi_get_ring_buffers_status_dummy num_rings status =
     (case (num_rings, status) of
        (Some _, Some (name, others)) \<Rightarrow>
          (WIFI_SUCCESS, Some 1,
           Some (take (length name) (''dummy'' @ replicate (length name) (CHR 0x00)), replicate (length others) 0))
      | _ \<Rightarrow> (WIFI_ERROR_INVALID_ARGS, num_rings, status))"

definition need_pointer :: "bool \<Rightarrow> wifi_error" where
  "need_pointer present = (if present then WIFI_SUCCESS else WIFI_ERROR_INVALID_ARGS)"

section \<open>Correctness of the feature queries\<close>

lemma matrix_loop_safe:
  assumes "0 < mx" "mx \<le> int (length m)" "num \<le> mx" "fs \<le> mx"
  shows "\<exists>fs' m'. matrix_loop mx as i num fs m = Inr (fs', m') \<and> length m' = length m \<and> fs' \<le> mx"
  using assms by (induction mx as i num fs m rule: matrix_loop.induct) (auto simp: Let_def)

text \<open>The attributes of an answer with \<open>vs\<close> as its sets.\<close>

definition matrix_attrs :: "u32 list \<Rightarrow> vattr list" where
  "matrix_attrs vs = map (Pair WIFI_ATTRIBUTE_FEATURE_SET) vs"

lemma matrix_loop_skip:
  "\<not> int i < num \<Longrightarrow> matrix_loop mx (matrix_attrs vs) i num fs m = Inr (fs, m)"
  by (induction vs) (auto simp: matrix_attrs_def wifi_attributes)

lemma matrix_loop_fill:
  "int i \<le> num \<Longrightarrow> num \<le> int (length m) \<Longrightarrow>
   matrix_loop mx (matrix_attrs vs) i num fs m =
     Inr (fs, take i m @ copy_over (take (nat num - i) vs) (drop i m))"
proof (induction vs arbitrary: i m)
  case Nil
  then show ?case by (simp add: matrix_attrs_def copy_over_def)
next
  case (Cons v vs)
  show ?case
  proof (cases "int i < num")
    case False
    with Cons.prems show ?thesis by (simp add: matrix_loop_skip copy_over_def)
  next
    case True
    then have i: "i < length m" "nat num - i = Suc (nat num - Suc i)" using Cons.prems by auto
    have "matrix_loop mx (matrix_attrs (v # vs)) i num fs m =
        matrix_loop mx (matrix_attrs vs) (Suc i) num fs (m[i := v])"
      using True i by (simp add: matrix_attrs_def wifi_attributes)
    also have "\<dots> = Inr (fs, take (Suc i) (m[i := v]) @
        copy_over (take (nat num - Suc i) vs) (drop (Suc i) (m[i := v])))"
      using Cons True by simp
    also have "take (Suc i) (m[i := v]) = take i m @ [v]"
      using i by (simp add: take_Suc_conv_app_nth)
    finally show ?thesis using i by (simp add: copy_over_def)
  qed
qed

definition feature_ok :: "int \<Rightarrow> nat \<Rightarrow> ub + feature_out \<Rightarrow> bool" where
  "feature_ok mx n st \<longleftrightarrow>
     (\<exists>out m fs. st = Inr out \<and> fo_matrix out = Some m \<and> fo_size out = Some fs \<and> length m = n \<and> fs \<le> mx)"

lemma feature_step_ok:
  assumes "0 < mx" "mx \<le> int n" "feature_ok mx n st"
  shows "feature_ok mx n (feature_step maxs WIFI_ATTRIBUTE_NUM_FEATURE_SET mx reply st)"
proof -
  from assms(3) obtain out m fs where o: "st = Inr out" "fo_matrix out = Some m" "fo_size out = Some fs"
    "length m = n" "fs \<le> mx" by (auto simp: feature_ok_def)
  with assms obtain fs' m' where "matrix_loop mx (vr_attrs reply) 0 0 fs m = Inr (fs', m')" "length m' = n" "fs' \<le> mx"
    using matrix_loop_safe [of mx m 0 fs "vr_attrs reply" 0] by auto
  with o show ?thesis
    by (auto simp: feature_ok_def feature_step_def feature_handleResponse_def wifi_attributes split: option.splits)
qed

lemma feature_fold_ok:
  assumes "0 < mx" "mx \<le> int n"
  shows "feature_ok mx n st \<Longrightarrow>
    feature_ok mx n (fold (feature_step maxs WIFI_ATTRIBUTE_NUM_FEATURE_SET mx) rs st)"
  by (induction rs arbitrary: st) (auto simp: feature_step_ok [OF assms])


text \<open>A driver that answers with one message and an acknowledgement.\<close>

definition one_reply :: "vattr list \<Rightarrow> vendor_reply" where
  "one_reply as = \<lparr>vr_cmd = NL80211_CMD_VENDOR, vr_data = Some [0], vr_attrs = as\<rparr>"

definition answering :: "vattr list \<Rightarrow> vendor_reply cmd_net" where
  "answering as = \<lparr>nl_cb_alloc_ok = True, nl_send_ret = 40, nl_recv = (\<lambda>_. [Ev_valid (one_reply as), Ev_ack])\<rparr>"

lemma answering_ends: "exchange_ends (answering as) 0 0" "net_replies (answering as) 0 = [one_reply as]"
  by (simp_all add: exchange_ends_def answering_def is_valid_def net_replies_def)

lemma roomy_vendor: "0 \<le> fst (req_create_vendor roomy vid sub r)"
  by (simp add: req_create_vendor_def req_then_def req_create_def req_put_u32_def req_put_bytes_def
      roomy_def Let_def wifi_codes)

lemma roomy_feature:
  "0 \<le> fst (feature_create roomy WIFI_ATTRIBUTE_NUM_FEATURE_SET r)"
  "0 \<le> fst (feature_create roomy WIFI_ATTRIBUTE_ROAMING_CAPABILITIES r)"
  by (simp_all add: feature_create_def wifi_attributes roomy_vendor)


text \<open>A limit of 0 switches the clipping off: the driver's count is then the only bound.\<close>

lemma concurrency_matrix_no_limit:
  "matrix_loop 0 [(4, 3), (5, 1), (5, 2), (5, 3)] 0 0 0 [0, 0] = Inl Out_of_bounds"
  by (simp add: wifi_attributes)

text \<open>
  A driver that reports \<open>n\<close> sets and then lists \<open>vs\<close> has its first \<open>min n mx\<close> sets stored at the
  start of the caller's array, in order; the rest of the array is not touched, and the reported
  size is \<open>min n mx\<close>.
\<close>

lemma concurrency_matrix_answer:
  assumes "0 < mx" "mx \<le> int (length m)" "0 \<le> sint n"
  shows "wifi_get_concurrency_matrix maxs roomy
           (answering ((WIFI_ATTRIBUTE_NUM_FEATURE_SET, n) # map (Pair WIFI_ATTRIBUTE_FEATURE_SET) vs))
           r mx (Some m) (Some fs) =
         Some (0, Inr \<lparr>fo_set = None, fo_matrix = Some (copy_over (take (nat (min (sint n) mx)) vs) m),
                       fo_size = Some (min (sint n) mx)\<rparr>)"
proof -
  have "matrix_loop mx ((WIFI_ATTRIBUTE_NUM_FEATURE_SET, n) # matrix_attrs vs) 0 0 fs m =
      Inr (min (sint n) mx, copy_over (take (nat (min (sint n) mx)) vs) m)"
    using assms matrix_loop_fill [of 0 "min (sint n) mx" m mx vs "min (sint n) mx"]
    by (cases "sint n > mx") (auto simp: min_def Let_def)
  then show ?thesis
    by (simp add: wifi_get_concurrency_matrix_def create_exchange_returns [OF answering_ends(1) roomy_feature(1)]
        answering_ends(2) feature_step_def feature_handleResponse_def one_reply_def matrix_attrs_def)
       (simp add: wifi_attributes)
qed

section \<open>Correctness of roaming\<close>

lemma roaming_loop_other:
  "list_all (\<lambda>(ty, v). ty \<noteq> WIFI_ATTRIBUTE_ROAMING_CAPABILITIES) as \<Longrightarrow>
   roaming_loop maxs mx (as @ bs) i m = roaming_loop maxs mx bs i m"
  by (induction as) auto

text \<open>
  After a driver has reported its two limits (among other attributes), the caller and the HAL
  hold each limit clipped to the limit of the HAL itself; later calls give the same answer without
  asking the driver again, as long as one of the limits is not zero; and a configuration with
  longer lists is refused without a request.
\<close>

lemma roaming_capabilities_kept:
  assumes "list_all (\<lambda>(ty, v). ty \<noteq> WIFI_ATTRIBUTE_ROAMING_CAPABILITIES) as"
    and "list_all (\<lambda>(ty, v). ty \<noteq> WIFI_ATTRIBUTE_ROAMING_CAPABILITIES) bs"
    and "capa = \<lparr>max_blacklist_size = min b mb, max_whitelist_size = min w mw\<rparr>" "min b mb \<noteq> 0"
    and "attrs = as @ (WIFI_ATTRIBUTE_ROAMING_CAPABILITIES, b) # bs @ [(WIFI_ATTRIBUTE_ROAMING_CAPABILITIES, w)]"
    and "cache = \<lparr>max_blacklist_size = 0, max_whitelist_size = 0\<rparr>"
  shows "wifi_get_roaming_capabilities [mb, mw] roomy (answering attrs) r (Some c) cache
           = Some (Inr (WIFI_SUCCESS, Some capa, capa)) \<and>
         wifi_get_roaming_capabilities [mb, mw] env net r' (Some c') capa
           = Some (Inr (WIFI_SUCCESS, Some capa, capa)) \<and>
         (unat (min b mb) < length (blacklist_bssid cfg) \<longrightarrow>
            wifi_configure_roaming n env net' r' (Some cfg) capa = ret WIFI_ERROR_NOT_SUPPORTED)"
proof -
  have "roaming_loop [mb, mw] 2 attrs 0 [x, y] = Inr [min b mb, min w mw]" for x y
    using assms(1,2,5) by (auto simp: roaming_loop_other min_def not_le not_less)
  then show ?thesis
    using assms(3,4,6)
    by (simp add: wifi_get_roaming_capabilities_def create_exchange_returns [OF answering_ends(1) roomy_feature(2)]
        answering_ends(2) feature_step_def feature_handleResponse_def one_reply_def wifi_configure_roaming_def
        wifi_codes Let_def)
       (simp add: wifi_attributes)
qed

text \<open>An SSID longer than the limit overruns the buffer of the request.\<close>

lemma long_ssid_overruns:
  "assemble env (map (whitelist_step 32) [(33, ssid)]) nests (res, r) = Inl Out_of_bounds"
  by (simp add: whitelist_step_def)

section \<open>Correctness of the RSSI monitor\<close>

interpretation rssi: event_command "rssi_start env net r mx mn func" "rssi_cancel env' net' r'"
  "[WIFI_EVENT_RSSI_MONITOR]" func for env net r mx mn func env' net' r'
proof
  fix info p res info'
  assume "hal_inv info" "rssi_start env net r mx mn func p info = ret (res, info')"
  then show "res \<le> 0 \<and> (if res = 0 then info' = register_events [WIFI_EVENT_RSSI_MONITOR] func p info
      else hal_inv info' \<and> cmds info' = cmds info \<and> handlers info' = handlers info)"
    by (auto simp: rssi_start_def run_then_eq_ret dest: transact_nonpos split: if_splits)
next
  fix info res info'
  assume "rssi_cancel env' net' r' info = ret (res, info')"
  then show "\<exists>es. distinct es \<and> set es = set [WIFI_EVENT_RSSI_MONITOR] \<and> info' = unregister_events es info"
    by (auto simp: rssi_cancel_def run_then_eq_ret intro!: exI [of _ "[WIFI_EVENT_RSSI_MONITOR]"])
qed simp

lemma rssi_request_total: "nests_ok env \<or> nla_room env \<Longrightarrow> \<exists>res r'. rssi_createRequest env mx mn en r = Inr (res, r')"
  unfolding rssi_createRequest_def
  by (rule vendor_request_total) (simp_all add: put_u32_def)

lemma rssi_start_returns:
  "nests_ok env \<or> nla_room env \<Longrightarrow> exchange_ends net k e \<Longrightarrow> \<exists>x. rssi_start env net r mx mn func p info = ret x"
  using rssi_request_total [of env mx mn True r] by (auto simp: rssi_start_def transact_returns)

lemma rssi_cancel_returns:
  "nests_ok env \<or> nla_room env \<Longrightarrow> exchange_ends net k e \<Longrightarrow> \<exists>x. rssi_cancel env net r info = ret x"
  using rssi_request_total [of env 0 0 False r] by (auto simp: rssi_cancel_def transact_ne_returns)

text \<open>
  With id -1 the event handler goes away but the command stays registered, with the reference that
  the registration holds.
\<close>

lemma rssi_stop_all_keeps_command:
  "hal_inv (tabs st) \<Longrightarrow> wifi_stop_rssi_monitoring vcancel env net r q (-1) st = ret (res, st') \<Longrightarrow>
   commands (tabs st') = commands (tabs st)"
  by (auto simp: wifi_stop_rssi_monitoring_def cancel_temporary_def on_tabs_def run_then_eq_ret
      rssi_cancel_def unregister_events_spec)

text \<open>A full handler table goes unnoticed: the start succeeds, but no event will be delivered.\<close>

lemma rssi_start_unheard:
  assumes "hal_inv (tabs st)" "find (\<lambda>ci. ci_id ci = i) (commands (tabs st)) = None"
    and "no_handler [WIFI_EVENT_RSSI_MONITOR] (tabs st)" "length (handlers (tabs st)) = DEFAULT_EVENT_CB_SIZE"
    and "wifi_start_rssi_monitoring env net r mx mn func p i st = ret (WIFI_SUCCESS, st')"
  shows "handlers (tabs st') = handlers (tabs st)"
  using rssi.start_outcome [OF assms(1-3), of env net r mx mn func p] assms(4,5)
  by (auto simp: wifi_start_rssi_monitoring_def wifi_codes)

definition acking_unit :: "int \<Rightarrow> unit cmd_net" where
  "acking_unit e = \<lparr>nl_cb_alloc_ok = True, nl_send_ret = 40, nl_recv = (\<lambda>_. [Ev_error e])\<rparr>"

lemma acking_unit_ends: "e \<le> 0 \<Longrightarrow> exchange_ends (acking_unit e) 0 e"
  by (simp add: exchange_ends_def acking_unit_def)

definition fresh_hal :: hal_state where
  "fresh_hal = \<lparr>tabs = init_tabs no_cb no_cmd, live = (\<lambda>_. 0)\<rparr>"

lemma fresh_hal_simps [simp]: "tabs fresh_hal = init_tabs no_cb no_cmd" "live fresh_hal = (\<lambda>_. 0)"
  by (simp_all add: fresh_hal_def)

text \<open>
  An event that is delivered to the user is one of the monitor's type and version, and the
  callback gets the command's id, the six bytes of the BSSID and the RSSI as a signed byte, between
  -128 and 127.
\<close>

lemma rssi_event_delivery:
  assumes "rssi_handleEvent has_cb i vdata = Inr (Some (i', bssid, rssi))"
  shows "\<exists>bytes. vdata = Some (7, RSSI_MONITOR_EVT_VERSION # bytes) \<and> i' = i \<and> length bssid = 6 \<and>
           -128 \<le> rssi \<and> rssi \<le> 127 \<and> take 7 bytes = word_of_int rssi # bssid"
proof -
  obtain ty bs where v: "vdata = Some (ty, bs)" using assms by (auto simp: rssi_handleEvent_def split: option.splits)
  with assms have *: "ty = 7" "8 \<le> length bs" "bs ! 0 = RSSI_MONITOR_EVT_VERSION" "i' = i"
    "bssid = take 6 (drop 2 bs)" "rssi = sint (bs ! 1)"
    by (auto simp: rssi_handleEvent_def WIFI_EVENT_RSSI_MONITOR_def split: if_splits)
  then obtain x y bs' where b: "bs = x # y # bs'" "6 \<le> length bs'" by (cases bs; cases "tl bs") auto
  have "-128 \<le> sint y \<and> sint y \<le> 127" using sint_range_size [of y] by (simp add: word_size)
  with * b v show ?thesis by (auto simp: numeral_eq_Suc)
qed

end
