(* ===== verification/Rtt.thy ===== *)
theory Rtt
  imports Gscan_Events Hal_Features
begin

text \<open>
  Round trip time measurements (\<open>wifi_hal/rtt.cpp\<close>): capability and responder queries, range requests
  with their targets, cancellation, and the event that brings the results. A measurement ends itself:
  the event that carries the completion flag removes the handler and the command.

  \<open>S\<close> is the size of \<open>wifi_rtt_result\<close>, which an Android header defines.
\<close>

section \<open>Commands and attributes\<close>

definition RTT_SUBCMD_SET_CONFIG :: u32 where "RTT_SUBCMD_SET_CONFIG = 0x1100"
definition RTT_SUBCMD_CANCEL_CONFIG :: u32 where "RTT_SUBCMD_CANCEL_CONFIG = 0x1101"
definition RTT_SUBCMD_GETCAPABILITY :: u32 where "RTT_SUBCMD_GETCAPABILITY = 0x1102"
definition RTT_SUBCMD_GETAVAILCHANNEL :: u32 where "RTT_SUBCMD_GETAVAILCHANNEL = 0x1103"
definition RTT_SUBCMD_SET_RESPONDER :: u32 where "RTT_SUBCMD_SET_RESPONDER = 0x1104"
definition RTT_SUBCMD_CANCEL_RESPONDER :: u32 where "RTT_SUBCMD_CANCEL_RESPONDER = 0x1105"

definition RTT_ATTRIBUTE_CAPABILITIES :: nat where "RTT_ATTRIBUTE_CAPABILITIES = 1"
definition RTT_ATTRIBUTE_TARGET_CNT :: nat where "RTT_ATTRIBUTE_TARGET_CNT = 10"
definition RTT_ATTRIBUTE_TARGET_INFO :: nat where "RTT_ATTRIBUTE_TARGET_INFO = 11"
definition RTT_ATTRIBUTE_TARGET_MAC :: nat where "RTT_ATTRIBUTE_TARGET_MAC = 12"
definition RTT_ATTRIBUTE_TARGET_TYPE :: nat where "RTT_ATTRIBUTE_TARGET_TYPE = 13"
definition RTT_ATTRIBUTE_TARGET_PEER :: nat where "RTT_ATTRIBUTE_TARGET_PEER = 14"
definition RTT_ATTRIBUTE_TARGET_CHAN :: nat where "RTT_ATTRIBUTE_TARGET_CHAN = 15"
definition RTT_ATTRIBUTE_TARGET_PERIOD :: nat where "RTT_ATTRIBUTE_TARGET_PERIOD = 16"
definition RTT_ATTRIBUTE_TARGET_NUM_BURST :: nat where "RTT_ATTRIBUTE_TARGET_NUM_BURST = 17"
definition RTT_ATTRIBUTE_TARGET_NUM_FTM_BURST :: nat where "RTT_ATTRIBUTE_TARGET_NUM_FTM_BURST = 18"
definition RTT_ATTRIBUTE_TARGET_NUM_RETRY_FTM :: nat where "RTT_ATTRIBUTE_TARGET_NUM_RETRY_FTM = 19"
definition RTT_ATTRIBUTE_TARGET_NUM_RETRY_FTMR :: nat where "RTT_ATTRIBUTE_TARGET_NUM_RETRY_FTMR = 20"
definition RTT_ATTRIBUTE_TARGET_LCI :: nat where "RTT_ATTRIBUTE_TARGET_LCI = 21"
definition RTT_ATTRIBUTE_TARGET_LCR :: nat where "RTT_ATTRIBUTE_TARGET_LCR = 22"
definition RTT_ATTRIBUTE_TARGET_BURST_DURATION :: nat where "RTT_ATTRIBUTE_TARGET_BURST_DURATION = 23"
definition RTT_ATTRIBUTE_TARGET_PREAMBLE :: nat where "RTT_ATTRIBUTE_TARGET_PREAMBLE = 24"
definition RTT_ATTRIBUTE_TARGET_BW :: nat where "RTT_ATTRIBUTE_TARGET_BW = 25"
definition RTT_ATTRIBUTE_RESULTS_COMPLETE :: nat where "RTT_ATTRIBUTE_RESULTS_COMPLETE = 30"
definition RTT_ATTRIBUTE_RESULTS_PER_TARGET :: nat where "RTT_ATTRIBUTE_RESULTS_PER_TARGET = 31"
definition RTT_ATTRIBUTE_RESULT_CNT :: nat where "RTT_ATTRIBUTE_RESULT_CNT = 32"
definition RTT_ATTRIBUTE_RESULT :: nat where "RTT_ATTRIBUTE_RESULT = 33"

lemmas rtt_attributes = RTT_ATTRIBUTE_CAPABILITIES_def RTT_ATTRIBUTE_TARGET_CNT_def
  RTT_ATTRIBUTE_TARGET_INFO_def RTT_ATTRIBUTE_TARGET_MAC_def RTT_ATTRIBUTE_TARGET_TYPE_def
  RTT_ATTRIBUTE_TARGET_PEER_def RTT_ATTRIBUTE_TARGET_CHAN_def RTT_ATTRIBUTE_TARGET_PERIOD_def
  RTT_ATTRIBUTE_TARGET_NUM_BURST_def RTT_ATTRIBUTE_TARGET_NUM_FTM_BURST_def
  RTT_ATTRIBUTE_TARGET_NUM_RETRY_FTM_def RTT_ATTRIBUTE_TARGET_NUM_RETRY_FTMR_def
  RTT_ATTRIBUTE_TARGET_LCI_def RTT_ATTRIBUTE_TARGET_LCR_def RTT_ATTRIBUTE_TARGET_BURST_DURATION_def
  RTT_ATTRIBUTE_TARGET_PREAMBLE_def RTT_ATTRIBUTE_TARGET_BW_def RTT_ATTRIBUTE_RESULTS_COMPLETE_def
  RTT_ATTRIBUTE_RESULTS_PER_TARGET_def RTT_ATTRIBUTE_RESULT_CNT_def RTT_ATTRIBUTE_RESULT_def

section \<open>Queries\<close>

text \<open>\<open>GetRttCapabilitiesCommand::handleResponse\<close>; \<open>caps\<close> are the bytes of the caller's structure.\<close>

definition rtt_capabilities_handleResponse ::
  "int \<times> u8 list option \<Rightarrow> u8 list \<Rightarrow> ub + int \<times> u8 list" where
  "rtt_capabilities_handleResponse reply caps =
     (if fst reply \<noteq> NL80211_CMD_VENDOR then Inr (NL_SKIP, caps)
      else case snd reply of
        None \<Rightarrow> Inl Null_deref
      | Some bs \<Rightarrow>
          if length bs < 4 then Inl Out_of_bounds
          else Inr (NL_OK, if inner_type bs = RTT_ATTRIBUTE_CAPABILITIES
                           then copy_over (take (min (length bs - 4) (length caps)) (inner_data bs)) caps
                           else caps))"

text \<open>
  \<open>handleResponse\<close> of \<open>GetRttResponderInfoCommand\<close>: no vendor data has length 0. That of
  \<open>EnableResponderCommand\<close> is the same.
\<close>

definition responder_handleResponse :: "int \<times> u8 list option \<Rightarrow> u8 list \<Rightarrow> ub + int \<times> u8 list" where
  "responder_handleResponse reply info =
     (if fst reply \<noteq> NL80211_CMD_VENDOR then Inr (NL_SKIP, info)
      else Inr (NL_OK, copy_over (take (length info) (case snd reply of None \<Rightarrow> [] | Some bs \<Rightarrow> bs)) info))"

definition enable_responder_handleResponse :: "int \<times> u8 list option \<Rightarrow> u8 list \<Rightarrow> ub + int \<times> u8 list" where
  "enable_responder_handleResponse = responder_handleResponse"

text \<open>The requests of these commands are a vendor header and nothing else; \<open>create\<close> of the four classes.\<close>

definition rtt_capabilities_create :: "req_env \<Rightarrow> wifi_request \<Rightarrow> int \<times> wifi_request" where
  "rtt_capabilities_create env r = req_create_vendor env GOOGLE_OUI RTT_SUBCMD_GETCAPABILITY r"

definition responder_info_create :: "req_env \<Rightarrow> wifi_request \<Rightarrow> int \<times> wifi_request" where
  "responder_info_create env r = req_create_vendor env GOOGLE_OUI RTT_SUBCMD_GETAVAILCHANNEL r"

text \<open>The channel hint and the duration are stored in the command but not sent.\<close>

definition enable_responder_create :: "req_env \<Rightarrow> wifi_request \<Rightarrow> int \<times> wifi_request" where
  "enable_responder_create env r = req_create_vendor env GOOGLE_OUI RTT_SUBCMD_SET_RESPONDER r"

definition cancel_responder_create :: "req_env \<Rightarrow> wifi_request \<Rightarrow> int \<times> wifi_request" where
  "cancel_responder_create env r = req_create_vendor env GOOGLE_OUI RTT_SUBCMD_CANCEL_RESPONDER r"

text \<open>The constructors of the three query commands clear the structure of the caller.\<close>

definition rtt_query ::
  "(req_env \<Rightarrow> wifi_request \<Rightarrow> int \<times> wifi_request) \<Rightarrow> (int \<times> u8 list option \<Rightarrow> u8 list \<Rightarrow> ub + int \<times> u8 list) \<Rightarrow> req_env
    \<Rightarrow> (int \<times> u8 list option) cmd_net \<Rightarrow> wifi_request \<Rightarrow> u8 list \<Rightarrow> (wifi_error \<times> u8 list) run" where
  "rtt_query create h env net r buf =
     run_of (create_requestResponse net (create env r) (keep_ub h) (Inr (replicate (length buf) 0)))"

definition wifi_get_rtt_capabilities ::
  "req_env \<Rightarrow> (int \<times> u8 list option) cmd_net \<Rightarrow> wifi_request \<Rightarrow> u8 list \<Rightarrow> (wifi_error \<times> u8 list) run" where
  "wifi_get_rtt_capabilities = rtt_query rtt_capabilities_create rtt_capabilities_handleResponse"

definition wifi_rtt_get_responder_info ::
  "req_env \<Rightarrow> (int \<times> u8 list option) cmd_net \<Rightarrow> wifi_request \<Rightarrow> u8 list \<Rightarrow> (wifi_error \<times> u8 list) run" where
  "wifi_rtt_get_responder_info = rtt_query responder_info_create responder_handleResponse"

definition wifi_enable_responder ::
  "req_env \<Rightarrow> (int \<times> u8 list option) cmd_net \<Rightarrow> wifi_request \<Rightarrow> u8 list \<Rightarrow> (wifi_error \<times> u8 list) run" where
  "wifi_enable_responder = rtt_query enable_responder_create enable_responder_handleResponse"

definition wifi_disable_responder :: "req_env \<Rightarrow> unit cmd_net \<Rightarrow> wifi_request \<Rightarrow> wifi_error run" where
  "wifi_disable_responder env net r = transact net (Inr (cancel_responder_create env r))"

section \<open>Range requests\<close>

text \<open>A target; the channel is the bytes of \<open>wifi_channel_info\<close>.\<close>

record rtt_config =
  rc_addr :: mac
  rc_type :: u32
  rc_peer :: u32
  rc_channel :: "u8 list"
  rc_burst_period :: u32
  rc_num_burst :: u32
  rc_num_frames_per_burst :: u32
  rc_num_retries_per_rtt_frame :: u32
  rc_num_retries_per_ftmr :: u32
  rc_LCI_request :: u8
  rc_LCR_request :: u8
  rc_burst_duration :: u32
  rc_preamble :: u32
  rc_bw :: u32

definition target_steps :: "nat \<times> rtt_config \<Rightarrow> req_step list" where
  "target_steps ic = (case ic of (i, c) \<Rightarrow>
     [Start i True,
      put_addr RTT_ATTRIBUTE_TARGET_MAC (rc_addr c),
      put_u8 RTT_ATTRIBUTE_TARGET_TYPE (ucast (rc_type c)),
      put_u8 RTT_ATTRIBUTE_TARGET_PEER (ucast (rc_peer c)),
      Put RTT_ATTRIBUTE_TARGET_CHAN (rc_channel c),
      put_u32 RTT_ATTRIBUTE_TARGET_NUM_BURST (rc_num_burst c),
      put_u32 RTT_ATTRIBUTE_TARGET_NUM_FTM_BURST (rc_num_frames_per_burst c),
      put_u32 RTT_ATTRIBUTE_TARGET_NUM_RETRY_FTM (rc_num_retries_per_rtt_frame c),
      put_u32 RTT_ATTRIBUTE_TARGET_NUM_RETRY_FTMR (rc_num_retries_per_ftmr c),
      put_u32 RTT_ATTRIBUTE_TARGET_PERIOD (rc_burst_period c),
      put_u32 RTT_ATTRIBUTE_TARGET_BURST_DURATION (rc_burst_duration c),
      put_u8 RTT_ATTRIBUTE_TARGET_LCI (rc_LCI_request c),
      put_u8 RTT_ATTRIBUTE_TARGET_LCR (rc_LCR_request c),
      put_u8 RTT_ATTRIBUTE_TARGET_BW (ucast (rc_bw c)),
      put_u8 RTT_ATTRIBUTE_TARGET_PREAMBLE (ucast (rc_preamble c)),
      End])"

text \<open>\<open>RttCommand::createSetupRequest\<close> and \<open>createTeardownRequest\<close>\<close>

definition rtt_setup_steps :: "rtt_config list \<Rightarrow> req_step list" where
  "rtt_setup_steps cs =
     [Start NL80211_ATTR_VENDOR_DATA False,
      put_u8 RTT_ATTRIBUTE_TARGET_CNT (word_of_nat (length cs)),
      Start RTT_ATTRIBUTE_TARGET_INFO False] @
     concat (map target_steps (enumerate 0 cs)) @
     [End, End]"

definition rtt_createSetupRequest ::
  "req_env \<Rightarrow> rtt_config list \<Rightarrow> wifi_request \<Rightarrow> ub + int \<times> wifi_request" where
  "rtt_createSetupRequest env cs r = or_success (vendor_request env RTT_SUBCMD_SET_CONFIG (rtt_setup_steps cs) r)"

definition rtt_createTeardownRequest ::
  "req_env \<Rightarrow> mac list \<Rightarrow> wifi_request \<Rightarrow> ub + int \<times> wifi_request" where
  "rtt_createTeardownRequest env addrs r =
     vendor_request env RTT_SUBCMD_CANCEL_CONFIG
       ([Start NL80211_ATTR_VENDOR_DATA False,
         Put_ignored RTT_ATTRIBUTE_TARGET_CNT [word_of_nat (length addrs)]] @
        map (put_addr RTT_ATTRIBUTE_TARGET_MAC) addrs @ [End]) r"

text \<open>\<open>RttCommand::start\<close>, \<open>cancel\<close> and \<open>cancel_specific\<close>\<close>

definition rtt_start ::
  "req_env \<Rightarrow> unit cmd_net \<Rightarrow> wifi_request \<Rightarrow> rtt_config list \<Rightarrow> ptr \<Rightarrow> ptr \<Rightarrow> hal_tabs \<Rightarrow> (int \<times> hal_tabs) run" where
  "rtt_start env net r cs func this info =
     run_then (transact_ne net (rtt_createSetupRequest env cs r))
       (\<lambda>result. if result \<noteq> WIFI_SUCCESS then ret (result, info)
                 else ret (result, register_events [RTT_EVENT_COMPLETE] func this info))"

definition rtt_cancel_specific ::
  "req_env \<Rightarrow> unit cmd_net \<Rightarrow> wifi_request \<Rightarrow> mac list \<Rightarrow> hal_tabs \<Rightarrow> (int \<times> hal_tabs) run" where
  "rtt_cancel_specific env net r addrs =
     tell_unregister net (rtt_createTeardownRequest env addrs r) [RTT_EVENT_COMPLETE]"

definition rtt_cancel :: "req_env \<Rightarrow> unit cmd_net \<Rightarrow> wifi_request \<Rightarrow> hal_tabs \<Rightarrow> (int \<times> hal_tabs) run" where
  "rtt_cancel env net r =
     tell_unregister net (rtt_createTeardownRequest env [] r) [RTT_EVENT_COMPLETE]"

definition wifi_rtt_range_request ::
  "req_env \<Rightarrow> unit cmd_net \<Rightarrow> wifi_request \<Rightarrow> rtt_config list \<Rightarrow> ptr \<Rightarrow> ptr \<Rightarrow> int \<Rightarrow> hal_state
    \<Rightarrow> (wifi_error \<times> hal_state) run" where
  "wifi_rtt_range_request env net r cs func p i st = start_registered (rtt_start env net r cs func p) p i st"

definition wifi_rtt_range_cancel ::
  "req_env \<Rightarrow> unit cmd_net \<Rightarrow> wifi_request \<Rightarrow> mac list \<Rightarrow> ptr \<Rightarrow> hal_state \<Rightarrow> (wifi_error \<times> hal_state) run" where
  "wifi_rtt_range_cancel env net r addrs q st = cancel_temporary (rtt_cancel_specific env net r addrs) q st"

section \<open>Results\<close>

text \<open>
  A result in the command: the bytes of its block and the offsets of its location elements, when the
  code has found them. \<open>dot11_rm_ie\<close> has its id at 0, its length at 1 and its type at 4.
\<close>

record rtt_result =
  rr_bytes :: "u8 list"
  rr_LCI :: "nat option"
  rr_LCR :: "nat option"

definition DOT11_MNG_MEASURE_REQUEST_ID :: u8 where "DOT11_MNG_MEASURE_REQUEST_ID = 38"
definition DOT11_MEASURE_TYPE_LCI :: u8 where "DOT11_MEASURE_TYPE_LCI = 8"
definition DOT11_MEASURE_TYPE_CIVICLOC :: u8 where "DOT11_MEASURE_TYPE_CIVICLOC = 11"

text \<open>The element behind the first one, when it has the id and the type that is looked for.\<close>

definition second_element :: "u8 list \<Rightarrow> nat \<Rightarrow> int \<Rightarrow> u8 \<Rightarrow> ub + nat option" where
  "second_element bs e1 result_len ty =
     (if result_len > 0 then
        (let e2 = e1 + unat (bs ! (e1 + 1)) + 2
         in if length bs \<le> e2 then Inl Out_of_bounds
            else if bs ! e2 \<noteq> DOT11_MNG_MEASURE_REQUEST_ID then Inr None
            else if length bs \<le> e2 + 4 then Inl Out_of_bounds
            else if bs ! (e2 + 4) = ty then Inr (Some e2) else Inr None)
      else Inr None)"

text \<open>
  The location elements of a result; the size of the structure is subtracted a second time when there
  are any. The members of the structure are logged in every case.
\<close>

definition rtt_parse :: "nat \<Rightarrow> u8 list \<Rightarrow> ub + rtt_result" where
  "rtt_parse S bs =
     (let plain = \<lparr>rr_bytes = bs, rr_LCI = None, rr_LCR = None\<rparr>
      in if length bs < S then Inl Out_of_bounds
         else if length bs = S then Inr plain
         else if bs ! S \<noteq> DOT11_MNG_MEASURE_REQUEST_ID then Inr plain
         else if length bs \<le> S + 4 then Inl Out_of_bounds
         else (let result_len = int (length bs) - int S - int S - (uint (bs ! (S + 1)) + 2)
               in if bs ! (S + 4) = DOT11_MEASURE_TYPE_LCI then
                    map_sum (\<lambda>e. e) (\<lambda>lcr. plain\<lparr>rr_LCI := Some S, rr_LCR := lcr\<rparr>)
                      (second_element bs S result_len DOT11_MEASURE_TYPE_CIVICLOC)
                  else if bs ! (S + 4) = DOT11_MEASURE_TYPE_CIVICLOC then
                    map_sum (\<lambda>e. e) (\<lambda>lci. plain\<lparr>rr_LCR := Some S, rr_LCI := lci\<rparr>)
                      (second_element bs S result_len DOT11_MEASURE_TYPE_LCI)
                  else Inr plain))"

text \<open>The members of \<open>RttCommand\<close> that events change; \<open>MAX_RESULTS\<close> is 1024.\<close>

definition MAX_RTT_RESULTS :: nat where "MAX_RTT_RESULTS = 1024"

record rtt_state =
  rt_completed :: u32
  rt_total :: nat
  rt_results :: "rtt_result list"

text \<open>
  The results are stored at \<open>currentIdx\<close>, which is the number of results so far; \<open>malloc_ok n\<close> tells
  whether a block of \<open>n\<close> bytes can be had. The inner loop, over the attributes of one target:
\<close>

fun target_loop ::
  "nat \<Rightarrow> (nat \<Rightarrow> bool) \<Rightarrow> (nat \<times> u8 list) list \<Rightarrow> rtt_state \<Rightarrow> ub + rtt_state" where
  "target_loop S malloc_ok [] rt = Inr rt"
| "target_loop S malloc_ok ((ty, pl) # as) rt =
     (if ty = RTT_ATTRIBUTE_TARGET_MAC then
        (if length pl < 6 then Inl Out_of_bounds else target_loop S malloc_ok as rt)
      else if ty = RTT_ATTRIBUTE_RESULT_CNT then
        (if length pl < 4 then Inl Out_of_bounds else target_loop S malloc_ok as rt)
      else if ty = RTT_ATTRIBUTE_RESULT then
        (if MAX_RTT_RESULTS \<le> length (rt_results rt) then Inl Out_of_bounds
         else if \<not> malloc_ok (length pl) then Inr (rt\<lparr>rt_completed := 1\<rparr>)
         else (case rtt_parse S pl of
                 Inl e \<Rightarrow> Inl e
               | Inr res \<Rightarrow> target_loop S malloc_ok as
                   (rt\<lparr>rt_total := rt_total rt + 1, rt_results := rt_results rt @ [res]\<rparr>)))
      else target_loop S malloc_ok as rt)"

fun targets_loop ::
  "nat \<Rightarrow> (nat \<Rightarrow> bool) \<Rightarrow> (u8 list \<Rightarrow> (nat \<times> u8 list) list) \<Rightarrow> (nat \<times> u8 list) list \<Rightarrow> rtt_state \<Rightarrow> ub + rtt_state" where
  "targets_loop S malloc_ok iter [] rt = Inr rt"
| "targets_loop S malloc_ok iter ((ty, pl) # as) rt =
     (if ty = RTT_ATTRIBUTE_RESULTS_COMPLETE then
        (if length pl < 4 then Inl Out_of_bounds
         else targets_loop S malloc_ok iter as (rt\<lparr>rt_completed := le_u32 pl\<rparr>))
      else if ty = RTT_ATTRIBUTE_RESULTS_PER_TARGET then
        (case target_loop S malloc_ok (iter pl) rt of
           Inl e \<Rightarrow> Inl e
         | Inr rt' \<Rightarrow> targets_loop S malloc_ok iter as rt')
      else targets_loop S malloc_ok iter as rt)"

text \<open>
  What completion does to the registry: the handler is removed, the command registered under the id is
  taken out, and the reference of the registration is dropped.
\<close>

definition rtt_finish :: "int \<Rightarrow> hal_state \<Rightarrow> hal_state" where
  "rtt_finish i st =
     (let info1 = wifi_unregister_vendor_handler GOOGLE_OUI RTT_EVENT_COMPLETE (tabs st);
          (c, info2) = wifi_unregister_cmd i info1; st1 = st\<lparr>tabs := info2\<rparr>
      in if c \<noteq> NULL then st1\<lparr>live := releaseRef c (live st1)\<rparr> else st1)"

text \<open>
  \<open>RttCommand::handleEvent\<close>. A missing vendor data attribute is logged, and then iterated over all the
  same; the callback is not checked for null. The results are freed after the callback.
\<close>

definition rtt_handleEvent ::
  "nat \<Rightarrow> (nat \<Rightarrow> bool) \<Rightarrow> (u8 list \<Rightarrow> (nat \<times> u8 list) list) \<Rightarrow> bool \<Rightarrow> int \<Rightarrow> u8 list option \<Rightarrow> rtt_state \<times> hal_state
    \<Rightarrow> ub + (int \<times> nat \<times> rtt_result list) option \<times> rtt_state \<times> hal_state" where
  "rtt_handleEvent S malloc_ok iter has_cb i vd s =
     (case vd of
        None \<Rightarrow> Inl Null_deref
      | Some bs \<Rightarrow>
          (case targets_loop S malloc_ok iter (iter bs) (fst s) of
             Inl e \<Rightarrow> Inl e
           | Inr rt \<Rightarrow>
               if rt_completed rt = 0 then Inr (None, rt, snd s)
               else if \<not> has_cb then Inl Null_deref
               else Inr (Some (i, rt_total rt, rt_results rt), rt\<lparr>rt_total := 0, rt_results := []\<rparr>,
                         rtt_finish i (snd s))))"

section \<open>The contract of range requests\<close>

interpretation rtt: event_command "rtt_start env net r cs func" "rtt_cancel env' net' r'" "[RTT_EVENT_COMPLETE]" func
  for env net r cs func env' net' r'
proof (rule event_command_intro [where es = "[RTT_EVENT_COMPLETE]"])
  fix info p assume "hal_inv info"
  then show "start_keeps [RTT_EVENT_COMPLETE] func p info (rtt_start env net r cs func p info)"
    by (auto simp: start_keeps_def rtt_start_def run_then_eq_ret rtt_createSetupRequest_def wifi_codes
        dest: transact_ne_nonpos split: if_splits)
qed (auto simp: rtt_cancel_def dest: cancel_keeps)

text \<open>
  Cancelling a measurement removes the handler, but the command stays registered under its id with its
  reference.
\<close>

lemma rtt_range_cancel_keeps_command:
  "hal_inv (tabs st) \<Longrightarrow> wifi_rtt_range_cancel env net r addrs q st = ret (res, st') \<Longrightarrow>
   commands (tabs st') = commands (tabs st)"
  by (auto simp: wifi_rtt_range_cancel_def cancel_temporary_def on_tabs_def run_then_eq_ret
      rtt_cancel_specific_def unregister_events_spec dest!: cancel_keeps)

section \<open>Correctness of the results\<close>

text \<open>The attributes of one target as a driver sends them.\<close>

definition target_attrs :: "mac \<Rightarrow> u8 list list \<Rightarrow> (nat \<times> u8 list) list" where
  "target_attrs addr rs =
     (RTT_ATTRIBUTE_TARGET_MAC, addr) # (RTT_ATTRIBUTE_RESULT_CNT, le_bytes 4 (length rs)) #
     map (Pair RTT_ATTRIBUTE_RESULT) rs"

lemma target_loop_results:
  assumes "list_all (\<lambda>b. malloc_ok (length b)) rs" "list_all2 (\<lambda>b res. rtt_parse S b = Inr res) rs out"
    and "length (rt_results rt) + length rs \<le> MAX_RTT_RESULTS"
  shows "target_loop S malloc_ok (map (Pair RTT_ATTRIBUTE_RESULT) rs) rt =
     Inr (rt\<lparr>rt_total := rt_total rt + length rs, rt_results := rt_results rt @ out\<rparr>)"
  using assms
proof (induction rs arbitrary: rt out)
  case (Cons b rs)
  then obtain res out' where out: "out = res # out'" "rtt_parse S b = Inr res"
    "list_all2 (\<lambda>b res. rtt_parse S b = Inr res) rs out'" by (auto simp: list_all2_Cons1)
  with Cons.prems Cons.IH [of out' "rt\<lparr>rt_total := rt_total rt + 1, rt_results := rt_results rt @ [res]\<rparr>"]
  show ?case by (simp add: rtt_attributes)
qed simp

text \<open>An event: one attribute for each target and the completion flag.\<close>

definition event_attrs :: "u8 list list \<Rightarrow> u32 \<Rightarrow> (nat \<times> u8 list) list" where
  "event_attrs ts flag =
     map (Pair RTT_ATTRIBUTE_RESULTS_PER_TARGET) ts @ [(RTT_ATTRIBUTE_RESULTS_COMPLETE, le_bytes 4 (unat flag))]"

lemma targets_loop_results:
  assumes "list_all2 (\<lambda>t (addr, rs). iter t = target_attrs addr rs \<and> length addr = 6) ts tgts"
    and "list_all (\<lambda>b. malloc_ok (length b)) (concat (map snd tgts))"
    and "list_all2 (\<lambda>b res. rtt_parse S b = Inr res) (concat (map snd tgts)) out"
    and "length (rt_results rt) + length out \<le> MAX_RTT_RESULTS"
  shows "targets_loop S malloc_ok iter (event_attrs ts flag) rt =
     Inr (rt\<lparr>rt_total := rt_total rt + length out, rt_results := rt_results rt @ out, rt_completed := flag\<rparr>)"
  using assms
proof (induction ts arbitrary: tgts out rt)
  case Nil
  then show ?case by (simp add: event_attrs_def rtt_attributes le_u32_bytes)
next
  case (Cons t ts)
  then obtain addr rs tgts' where t: "tgts = (addr, rs) # tgts'" "iter t = target_attrs addr rs" "length addr = 6"
    "list_all2 (\<lambda>t (addr, rs). iter t = target_attrs addr rs \<and> length addr = 6) ts tgts'"
    by (auto simp: list_all2_Cons1)
  with Cons.prems(3) obtain o1 o2 where o: "out = o1 @ o2" "list_all2 (\<lambda>b res. rtt_parse S b = Inr res) rs o1"
    "list_all2 (\<lambda>b res. rtt_parse S b = Inr res) (concat (map snd tgts')) o2"
    by (auto simp: list_all2_append1)
  let ?rt = "rt\<lparr>rt_total := rt_total rt + length o1, rt_results := rt_results rt @ o1\<rparr>"
  have len: "length rs = length o1" using o(2) by (rule list_all2_lengthD)
  have "target_loop S malloc_ok (iter t) rt = Inr ?rt"
    using target_loop_results [OF _ o(2), of malloc_ok rt] Cons.prems(2,4) t o(1) len
    by (simp add: target_attrs_def) (simp add: rtt_attributes)
  moreover have "targets_loop S malloc_ok iter (event_attrs ts flag) ?rt =
      Inr (?rt\<lparr>rt_total := rt_total ?rt + length o2, rt_results := rt_results ?rt @ o2, rt_completed := flag\<rparr>)"
    using Cons.prems(2,4) t o by (intro Cons.IH) auto
  ultimately show ?case using o(1) by (simp add: event_attrs_def) (simp add: rtt_attributes add.assoc)
qed

lemma rtt_finish_spec:
  assumes "hal_inv (tabs st)" "find (\<lambda>ci. ci_id ci = i) (commands (tabs st)) = Some \<lparr>ci_id = i, ci_cmd = p\<rparr>" "p \<noteq> NULL"
  shows "hal_inv (tabs (rtt_finish i st)) \<and>
     handlers (tabs (rtt_finish i st)) = remove_first (handles RTT_EVENT_COMPLETE) (handlers (tabs st)) \<and>
     commands (tabs (rtt_finish i st)) = remove_first (\<lambda>ci. ci_id ci = i) (commands (tabs st)) \<and>
     live (rtt_finish i st) = releaseRef p (live st)"
proof -
  let ?i1 = "wifi_unregister_vendor_handler GOOGLE_OUI RTT_EVENT_COMPLETE (tabs st)"
  have i1: "hal_inv ?i1" "cmds ?i1 = cmds (tabs st)"
    "handlers ?i1 = remove_first (handles RTT_EVENT_COMPLETE) (handlers (tabs st))"
    using assms(1) by (simp_all add: wifi_unregister_vendor_handler_def remove_spec handlers_unregister_vendor)
  have "wifi_get_cmd i ?i1 = p" using assms(2) i1 by (simp add: get_cmd_spec)
  with i1 remove_spec(1,2) [OF i1(1), where P = "\<lambda>ci. ci_id ci = i"] assms(3) show ?thesis
    by (simp add: rtt_finish_def unregister_cmd_tab Let_def)
qed

lemma rtt_results_iter:
  assumes "iter bs = event_attrs ts flag"
    and "list_all2 (\<lambda>t (addr, rs). iter t = target_attrs addr rs \<and> length addr = 6) ts tgts"
    and "list_all (\<lambda>b. malloc_ok (length b)) (concat (map snd tgts))"
    and "list_all2 (\<lambda>b res. rtt_parse S b = Inr res) (concat (map snd tgts)) new"
    and "rt = \<lparr>rt_completed = 0, rt_total = length old, rt_results = old\<rparr>" "length old + length new \<le> 1024"
    and "hal_inv (tabs st)" "find (\<lambda>ci. ci_id ci = i) (commands (tabs st)) = Some \<lparr>ci_id = i, ci_cmd = p\<rparr>" "p \<noteq> NULL"
  shows "if flag = 0
     then rtt_handleEvent S malloc_ok iter True i (Some bs) (rt, st) =
            Inr (None, \<lparr>rt_completed = 0, rt_total = length (old @ new), rt_results = old @ new\<rparr>, st)
     else \<exists>st'. rtt_handleEvent S malloc_ok iter True i (Some bs) (rt, st) =
            Inr (Some (i, length (old @ new), old @ new), \<lparr>rt_completed = flag, rt_total = 0, rt_results = []\<rparr>, st') \<and>
          handlers (tabs st') = remove_first (handles RTT_EVENT_COMPLETE) (handlers (tabs st)) \<and>
          commands (tabs st') = remove_first (\<lambda>ci. ci_id ci = i) (commands (tabs st)) \<and>
          live st' = releaseRef p (live st)"
proof -
  have "targets_loop S malloc_ok iter (iter bs) rt =
      Inr \<lparr>rt_completed = flag, rt_total = length old + length new, rt_results = old @ new\<rparr>"
    using targets_loop_results [OF assms(2-4), of rt flag] assms(1,5,6) by (simp add: MAX_RTT_RESULTS_def)
  then show ?thesis
    using rtt_finish_spec [OF assms(7-9)] by (simp add: rtt_handleEvent_def)
qed

text \<open>A result without location elements.\<close>

lemma rtt_parse_plain: "length b = S \<Longrightarrow> rtt_parse S b = Inr \<lparr>rr_bytes = b, rr_LCI = None, rr_LCR = None\<rparr>"
  by (simp add: rtt_parse_def)

definition measuring :: hal_state where
  "measuring = fresh_hal\<lparr>tabs := snd (wifi_register_cmd 5 77 (tabs fresh_hal)), live := (\<lambda>_. 0)(77 := 1)\<rparr>"

lemma measuring_spec: "hal_inv (tabs measuring)" "commands (tabs measuring) = [\<lparr>ci_id = 5, ci_cmd = 77\<rparr>]" "live measuring 77 = 1"
  using register_cmd_spec [OF hal_inv_init, of no_cb no_cmd 5 77]
  by (auto simp: measuring_def DEFAULT_CMD_SIZE_def)

text \<open>Such an event as bytes: for each target an attribute with the attributes of the target in it.\<close>

definition rtt_event_bytes :: "(mac \<times> u8 list list) list \<Rightarrow> u32 \<Rightarrow> u8 list" where
  "rtt_event_bytes tgts flag = nl_bytes (event_attrs (map (\<lambda>(addr, rs). nl_bytes (target_attrs addr rs)) tgts) flag)"

text \<open>An attribute has 16 bits for its length.\<close>

definition wf_target :: "mac \<times> u8 list list \<Rightarrow> bool" where
  "wf_target t \<longleftrightarrow> length (fst t) = 6 \<and> list_all (\<lambda>b. length b + 4 < 2 ^ 16) (snd t) \<and>
     length (nl_bytes (target_attrs (fst t) (snd t))) + 4 < 2 ^ 16"

lemma wf_target_attrs: "wf_target (addr, rs) \<Longrightarrow> list_all wf_attr (target_attrs addr rs)"
  by (auto simp: wf_target_def target_attrs_def wf_attr_def rtt_attributes list_all_iff)

lemma wf_event_attrs:
  "list_all wf_target tgts \<Longrightarrow> list_all wf_attr (event_attrs (map (\<lambda>(addr, rs). nl_bytes (target_attrs addr rs)) tgts) flag)"
  by (auto simp: event_attrs_def wf_target_def wf_attr_def rtt_attributes list_all_iff)



text \<open>The array of results is not checked: result 1025 is written behind it.\<close>

lemma rtt_result_1025:
  "length (rt_results rt) = 1024 \<Longrightarrow>
   target_loop S malloc_ok ((RTT_ATTRIBUTE_RESULT, b) # as) rt = Inl Out_of_bounds"
  by (simp add: rtt_attributes MAX_RTT_RESULTS_def)

lemma rtt_no_vendor_data: "rtt_handleEvent S malloc_ok iter has_cb i None s = Inl Null_deref"
  by (simp add: rtt_handleEvent_def)

text \<open>
  Because the size of the structure is subtracted twice, a second location element is missed unless
  more than another structure's length follows the first one.
\<close>

lemma rtt_second_element_lost:
  assumes "length hdr = S" "12 \<le> S"
  shows "rtt_parse S (hdr @ [38, 3, 0, 0, 8] @ [38, 3, 0, 0, 11]) =
     Inr \<lparr>rr_bytes = hdr @ [38, 3, 0, 0, 8] @ [38, 3, 0, 0, 11], rr_LCI = Some S, rr_LCR = None\<rparr>"
  using assms
  by (simp add: rtt_parse_def second_element_def nth_append DOT11_MNG_MEASURE_REQUEST_ID_def
      DOT11_MEASURE_TYPE_LCI_def DOT11_MEASURE_TYPE_CIVICLOC_def)

end
