(* ===== verification/Hal_Session.thy ===== *)
theory Hal_Session
  imports Rtt
begin

text \<open>
  All command classes side by side. A \<open>command\<close> is an object of one of the classes, the \<open>start\<close> and
  \<open>cancel\<close> of the classes are put together as the virtual methods do it, and \<open>hal_session\<close> is the step
  relation of a HAL in use: commands are started and stopped, events are dispatched, measurements end.
  Along every session, an event reaches only commands that exist.
\<close>

section \<open>Commands of all classes\<close>

datatype command =
    Rssi_command "8 word" "8 word"
  | Scan_command scan_params
  | Full_scan_command
  | Hotlist_command hotlist_params
  | Epno_command "epno_params option"
  | Significant_command significant_change_params
  | Anqpo_command "passpoint_network list"
  | Rtt_command "rtt_config list"

fun command_events :: "command \<Rightarrow> int list" where
  "command_events (Rssi_command mx mn) = [WIFI_EVENT_RSSI_MONITOR]"
| "command_events (Scan_command p) = scan_events"
| "command_events Full_scan_command = [GSCAN_EVENT_FULL_SCAN_RESULTS]"
| "command_events (Hotlist_command p) = hotlist_events"
| "command_events (Epno_command p) = [GSCAN_EVENT_EPNO_EVENT]"
| "command_events (Significant_command p) = [GSCAN_EVENT_SIGNIFICANT_CHANGE_RESULTS]"
| "command_events (Anqpo_command ns) = [GSCAN_EVENT_ANQPO_HOTSPOT_MATCH]"
| "command_events (Rtt_command cs) = [RTT_EVENT_COMPLETE]"

text \<open>The \<open>start\<close> of each class, a function of the address of the object.\<close>

fun command_start ::
  "hal_consts \<Rightarrow> req_env \<Rightarrow> (nat \<Rightarrow> unit cmd_net) \<Rightarrow> wifi_request \<Rightarrow> ptr \<Rightarrow> command \<Rightarrow> ptr \<Rightarrow> hal_tabs
    \<Rightarrow> (int \<times> hal_tabs) run" where
  "command_start k env nets r func (Rssi_command mx mn) = rssi_start env (nets 0) r mx mn func"
| "command_start k env nets r func (Scan_command p) = scan_start k env nets r p func"
| "command_start k env nets r func Full_scan_command = full_scan_start env (nets 0) r func"
| "command_start k env nets r func (Hotlist_command p) = hotlist_start env nets r p func"
| "command_start k env nets r func (Epno_command p) =
     epno_start k env (nets 0) r (case p of None \<Rightarrow> no_epno_params | Some e \<Rightarrow> e) func"
| "command_start k env nets r func (Significant_command p) = significant_start env nets r p func"
| "command_start k env nets r func (Anqpo_command ns) = anqpo_start env (nets 0) r ns func"
| "command_start k env nets r func (Rtt_command cs) = rtt_start env (nets 0) r cs func"

text \<open>The virtual method \<open>cancel\<close>.\<close>

fun command_cancel :: "req_env \<Rightarrow> unit cmd_net \<Rightarrow> wifi_request \<Rightarrow> command \<Rightarrow> hal_tabs \<Rightarrow> (int \<times> hal_tabs) run" where
  "command_cancel env net r (Rssi_command mx mn) = rssi_cancel env net r"
| "command_cancel env net r (Scan_command p) = scan_cancel env net r"
| "command_cancel env net r Full_scan_command = full_scan_cancel env net r"
| "command_cancel env net r (Hotlist_command p) = hotlist_cancel env net r"
| "command_cancel env net r (Epno_command p) = epno_cancel env net r"
| "command_cancel env net r (Significant_command p) = significant_cancel env net r"
| "command_cancel env net r (Anqpo_command ns) = anqpo_cancel env net r ns"
| "command_cancel env net r (Rtt_command cs) = rtt_cancel env net r"

text \<open>\<open>obj p\<close> is the object at address \<open>p\<close>.\<close>

definition vcancel ::
  "req_env \<Rightarrow> unit cmd_net \<Rightarrow> wifi_request \<Rightarrow> (ptr \<Rightarrow> command) \<Rightarrow> ptr \<Rightarrow> hal_state \<Rightarrow> hal_state run" where
  "vcancel env net r obj p = on_tabs (command_cancel env net r (obj p))"

text \<open>The functions of the HAL that start a command of a class.\<close>

fun hal_start ::
  "hal_consts \<Rightarrow> req_env \<Rightarrow> (nat \<Rightarrow> unit cmd_net) \<Rightarrow> wifi_request \<Rightarrow> ptr \<Rightarrow> command \<Rightarrow> ptr \<Rightarrow> int \<Rightarrow> hal_state
    \<Rightarrow> (wifi_error \<times> hal_state) run" where
  "hal_start k env nets r func (Rssi_command mx mn) p i st = wifi_start_rssi_monitoring env (nets 0) r mx mn func p i st"
| "hal_start k env nets r func (Scan_command params) p i st = wifi_start_gscan k env nets r params func p i st"
| "hal_start k env nets r func Full_scan_command p i st = wifi_enable_full_scan_results env (nets 0) r func p i st"
| "hal_start k env nets r func (Hotlist_command params) p i st = wifi_set_bssid_hotlist env nets r params func p i st"
| "hal_start k env nets r func (Epno_command params) p i st = wifi_set_epno_list k env (nets 0) r params func p i st"
| "hal_start k env nets r func (Significant_command params) p i st =
     wifi_set_significant_change_handler env nets r params func p i st"
| "hal_start k env nets r func (Anqpo_command ns) p i st = wifi_set_passpoint_list env (nets 0) r ns func p i st"
| "hal_start k env nets r func (Rtt_command cs) p i st = wifi_rtt_range_request env (nets 0) r cs func p i st"

lemma hal_start_registers:
  "hal_start k env nets r func c p i st = start_registered (command_start k env nets r func c p) p i st"
  by (cases c) (simp_all add: wifi_start_rssi_monitoring_def wifi_start_gscan_def wifi_enable_full_scan_results_def
      wifi_set_bssid_hotlist_def wifi_set_epno_list_def wifi_set_significant_change_handler_def
      wifi_set_passpoint_list_def wifi_rtt_range_request_def)

interpretation cmd: event_command "command_start k env nets r func c" "command_cancel env' net' r' c"
  "command_events c" func for k env nets r func c env' net' r'
  by (cases c) (simp_all add: rssi.event_command_axioms scan.event_command_axioms full_scan.event_command_axioms
      hotlist.event_command_axioms epno.event_command_axioms significant.event_command_axioms
      anqpo.event_command_axioms rtt.event_command_axioms)

section \<open>Every command returns\<close>

text \<open>
  When the kernel answers every request, and a message has room for its nests, starting and cancelling
  a command of any class returns. A passpoint list also needs the message itself, whose allocation its
  class does not check.
\<close>

definition returns :: "'a run \<Rightarrow> bool" where
  "returns m \<longleftrightarrow> (\<exists>x. m = ret x)"

named_theorems ret_intro "returning pieces of code"

lemma returns_ret [ret_intro]: "returns (ret x)"
  by (simp add: returns_def)

lemma returns_then [ret_intro]: "returns m \<Longrightarrow> (\<And>x. returns (f x)) \<Longrightarrow> returns (run_then m f)"
  by (auto simp: returns_def)

lemma returns_if [ret_intro]: "returns a \<Longrightarrow> returns b \<Longrightarrow> returns (if c then a else b)"
  by simp

lemma returns_creation [ret_intro]: "\<exists>res r'. c = Inr (res, r') \<Longrightarrow> returns (creation c)"
  by (auto simp: returns_def)

lemma returns_exchange [ret_intro]: "\<exists>k e. exchange_ends net k e \<Longrightarrow> returns (skip_exchange net)"
  by (auto simp: returns_def skip_exchange_returns)

lemma returns_transact [ret_intro]:
  "\<exists>k e. exchange_ends net k e \<Longrightarrow> \<exists>res r'. c = Inr (res, r') \<Longrightarrow> returns (transact net c)"
  "\<exists>k e. exchange_ends net k e \<Longrightarrow> \<exists>res r'. c = Inr (res, r') \<Longrightarrow> returns (transact_ne net c)"
  by (auto simp: returns_def transact_returns transact_ne_returns)

lemma returns_step_or [ret_intro]: "returns m \<Longrightarrow> returns (cont info) \<Longrightarrow> returns (step_or failed m undo cont info)"
  unfolding step_or_def by (intro ret_intro)

lemma returns_exchange_registered [ret_intro]:
  "\<exists>k e. exchange_ends net k e \<Longrightarrow> returns (exchange_registered failed net es es' func this info)"
  unfolding exchange_registered_def Let_def by (intro ret_intro)

lemma returns_cancels [ret_intro]:
  "\<exists>k e. exchange_ends net k e \<Longrightarrow> \<exists>res r'. c = Inr (res, r') \<Longrightarrow> returns (tell_unregister net c es info)"
  "\<exists>k e. exchange_ends net k e \<Longrightarrow> \<exists>res r'. c = Inr (res, r') \<Longrightarrow> returns (unregister_tell net c es info)"
  unfolding tell_unregister_def unregister_tell_def by (intro ret_intro; assumption)+

lemmas put_defs = put_u32_def put_u16_def put_u8_def put_addr_def

lemma balance_elements:
  "balance (bucket_steps k ib) d = Some d" "balance (ap_steps j ap) d = Some d"
  "balance (network_steps inn) d = Some d" "balance (passpoint_steps ipn) d = Some d"
  "balance (target_steps ic) d = Some d"
  by (auto simp: bucket_steps_def ap_steps_def network_steps_def passpoint_steps_def target_steps_def
      split: prod.splits) (simp_all add: put_defs)

lemma requests_total:
  assumes "nests_ok env"
  shows "\<exists>res r'. scan_createSetupRequest k env sp r = Inr (res, r')"
    "\<exists>res r'. scan_createScanConfigRequest env sp r = Inr (res, r')"
    "\<exists>res r'. createFeatureRequest env sub en r = Inr (res, r')"
    "\<exists>res r'. full_scan_createRequest env sub en r = Inr (res, r')"
    "\<exists>res r'. hotlist_createSetupRequest env hp r = Inr (res, r')"
    "\<exists>res r'. hotlist_createTeardownRequest env r = Inr (res, r')"
    "\<exists>res r'. epno_createSetupRequest k env ep r = Inr (res, r')"
    "\<exists>res r'. epno_createTeardownRequest env r = Inr (res, r')"
    "\<exists>res r'. significant_createSetupRequest env cp r = Inr (res, r')"
    "\<exists>res r'. significant_createTeardownRequest env r = Inr (res, r')"
    "\<exists>res r'. rtt_createSetupRequest env cs r = Inr (res, r')"
    "\<exists>res r'. rtt_createTeardownRequest env addrs r = Inr (res, r')"
    "\<exists>res r'. rssi_createRequest env mx mn on r = Inr (res, r')"
  unfolding scan_createSetupRequest_def scan_createScanConfigRequest_def createFeatureRequest_def
    full_scan_createRequest_def hotlist_createSetupRequest_def hotlist_createTeardownRequest_def
    epno_createSetupRequest_def epno_createTeardownRequest_def significant_createSetupRequest_def
    significant_createTeardownRequest_def rtt_createSetupRequest_def rtt_createTeardownRequest_def
    scan_setup_steps_def scan_config_steps_def hotlist_setup_steps_def epno_setup_steps_def
    significant_setup_steps_def rtt_setup_steps_def rssi_createRequest_def
  by (auto simp: put_defs balance_concat balance_elements Let_def
      intro!: or_success_request_total vendor_request_total disjI1 assms split: prod.splits)

lemma anqpo_request_total:
  assumes "nests_ok env" "req_alloc env"
  shows "\<exists>res r'. anqpo_createRequest env ns v r = Inr (res, r')"
proof -
  obtain res r1 where c: "req_create_vendor env GOOGLE_OUI GSCAN_SUBCMD_ANQPO_CONFIG r = (res, r1)" by force
  then have "mMsg r1 \<noteq> None"
    using assms(2) by (auto simp: req_create_vendor_def req_then_def req_create_def req_put_u32_def req_put_bytes_def
        Let_def split: if_splits)
  moreover have "balance (anqpo_steps ns) 0 \<noteq> None"
    by (simp add: anqpo_steps_def put_defs balance_concat balance_elements)
  ultimately show ?thesis
    using assemble_total [OF disjI1 [OF assms(1)], of "anqpo_steps ns" 0 r1 res]
    by (auto simp: anqpo_createRequest_def c or_success_def)
qed

lemma start_registered_returns:
  "(\<And>info. returns (start info)) \<Longrightarrow> returns (start_registered start p i st)"
  by (auto simp: start_registered_def Let_def split: prod.splits intro!: ret_intro)

lemma command_returns:
  assumes "nests_ok env" "req_alloc env" "\<And>j. \<exists>k e. exchange_ends (nets j) k e"
  shows "returns (command_start k env nets r func c p info)" "returns (command_cancel env (nets 0) r c info)"
proof -
  note reqs = requests_total [OF assms(1)] anqpo_request_total [OF assms(1,2)]
  show "returns (command_start k env nets r func c p info)"
    by (cases c; simp add: rssi_start_def scan_start_def full_scan_start_def hotlist_start_def epno_start_def
        significant_start_def anqpo_start_def rtt_start_def; intro ret_intro reqs assms(3))
  show "returns (command_cancel env (nets 0) r c info)"
    by (cases c; simp add: rssi_cancel_def scan_cancel_def full_scan_cancel_def hotlist_cancel_def epno_cancel_def
        significant_cancel_def anqpo_cancel_def rtt_cancel_def; intro ret_intro reqs assms(3))
qed

lemma hal_start_returns:
  assumes "nests_ok env" "req_alloc env" "\<And>j. \<exists>k e. exchange_ends (nets j) k e"
  shows "\<exists>res st'. hal_start k env nets r func c p i st = ret (res, st')"
  using start_registered_returns [of "command_start k env nets r func c p", OF command_returns(1) [OF assms]]
  by (force simp: hal_start_registers returns_def)

lemma cancel_cmd_returns:
  assumes "nests_ok env" "req_alloc env" "\<And>j. \<exists>k e. exchange_ends (nets j) k e"
  shows "\<exists>res st'. wifi_cancel_cmd (vcancel env (nets 0) r obj) i st = ret (res, st')"
proof -
  have "returns (vcancel env (nets 0) r obj c s)" for c s
    unfolding vcancel_def on_tabs_def by (auto intro!: ret_intro command_returns [OF assms] split: prod.splits)
  then have "returns (wifi_cancel_cmd (vcancel env (nets 0) r obj) i st)"
    by (auto simp: wifi_cancel_cmd_def Let_def split: prod.splits intro!: ret_intro)
  then show ?thesis by (auto simp: returns_def)
qed


lemma acking_nets: "\<exists>k e. exchange_ends (acking_unit 0) k e"
  using acking_unit_ends [of 0] by auto


section \<open>Start and stop\<close>

lemma vcancel_known: "wifi_cancel_cmd (vcancel env net r obj) i st = wifi_cancel_cmd (\<lambda>c. on_tabs (command_cancel env net r (obj p))) i st"
  if "wifi_get_cmd i (tabs st) = p"
  using that by (simp add: wifi_cancel_cmd_def unregister_cmd_tab vcancel_def Let_def)



section \<open>Sessions\<close>

text \<open>
  What callers, the driver and the event loop do with a HAL. A command is started at a fresh address
  with an unused id, while no other command handles its events; whatever is registered under an id is
  cancelled; handlers of a class are removed with id -1 or by \<open>wifi_rtt_range_cancel\<close>, through a
  temporary command; an event is dispatched to a handler that leaves the registry alone; or it is the
  event that completes the measurement of the command it is dispatched to.
\<close>

inductive hal_session ::
  "hal_consts \<Rightarrow> ptr \<Rightarrow> hal_state \<times> (ptr \<Rightarrow> command) \<Rightarrow> hal_state \<times> (ptr \<Rightarrow> command) \<Rightarrow> bool" for k func where
  start: "p \<noteq> NULL \<Longrightarrow> p \<notin> ci_cmd ` set (commands (tabs st)) \<Longrightarrow> i \<notin> ci_id ` set (commands (tabs st)) \<Longrightarrow>
     no_handler (command_events c) (tabs st) \<Longrightarrow> hal_start k env nets r func c p i st = ret (res, st') \<Longrightarrow>
     hal_session k func (st, obj) (st', obj(p := c))"
| stop: "wifi_cancel_cmd (vcancel env net r obj) i st = ret (res, st') \<Longrightarrow> hal_session k func (st, obj) (st', obj)"
| stop_all: "q \<notin> ci_cmd ` set (commands (tabs st)) \<Longrightarrow>
     cancel_temporary (command_cancel env net r c) q st = ret (res, st') \<Longrightarrow> hal_session k func (st, obj) (st', obj)"
| range_cancel: "q \<notin> ci_cmd ` set (commands (tabs st)) \<Longrightarrow>
     wifi_rtt_range_cancel env net r addrs q st = ret (res, st') \<Longrightarrow> hal_session k func (st, obj) (st', obj)"
| event: "internal_valid_message_handler (\<lambda>f c s. s) ev st = (res, st') \<Longrightarrow> hal_session k func (st, obj) (st', obj)"
| rtt_complete: "find (ev_matches e) (handlers (tabs st)) = Some cb \<Longrightarrow> obj (cb_arg cb) = Rtt_command cs \<Longrightarrow>
     \<lparr>ci_id = i, ci_cmd = cb_arg cb\<rparr> \<in> set (commands (tabs st)) \<Longrightarrow>
     internal_valid_message_handler (\<lambda>f c. rtt_finish i) (Some e) st = (res, st') \<Longrightarrow>
     hal_session k func (st, obj) (st', obj)"

text \<open>The address of a handler is that of a registered command of a class with that event.\<close>

definition handler_ok :: "ptr \<Rightarrow> hal_tabs \<Rightarrow> (ptr \<Rightarrow> command) \<Rightarrow> cb_info \<Rightarrow> bool" where
  "handler_ok func t obj cb \<longleftrightarrow> cb_arg cb \<in> ci_cmd ` set (commands t) \<and>
     (\<exists>e \<in> set (command_events (obj (cb_arg cb))). cb = event_cb func (cb_arg cb) e)"

definition session_inv :: "ptr \<Rightarrow> hal_state \<Rightarrow> (ptr \<Rightarrow> command) \<Rightarrow> bool" where
  "session_inv func st obj \<longleftrightarrow> hal_inv (tabs st) \<and>
     distinct (map ci_id (commands (tabs st))) \<and> distinct (map ci_cmd (commands (tabs st))) \<and>
     (\<forall>ci \<in> set (commands (tabs st)). ci_cmd ci \<noteq> NULL \<and> live st (ci_cmd ci) = 1) \<and>
     (\<forall>cb \<in> set (handlers (tabs st)). handler_ok func (tabs st) obj cb) \<and>
     (\<forall>e. length (filter (handles e) (handlers (tabs st))) \<le> 1)"

lemma length_filter_distinct: "distinct (map f xs) \<Longrightarrow> length (filter (\<lambda>x. f x = y) xs) \<le> 1"
proof (induction xs)
  case (Cons x xs)
  then show ?case by (auto simp: filter_empty_conv image_iff)
qed simp

lemma remove_first_key: "distinct (map f xs) \<Longrightarrow> remove_first (\<lambda>x. f x = y) xs = filter (\<lambda>x. f x \<noteq> y) xs"
  by (rule remove_first_filter [OF length_filter_distinct])

lemma length_filter_sub: "length (filter P (filter Q xs)) \<le> length (filter P xs)"
  by (induction xs) auto

text \<open>Fewer handlers and the same commands.\<close>

lemma session_inv_fewer_handlers:
  assumes "session_inv func st obj" "hal_inv (tabs st')" "commands (tabs st') = commands (tabs st)"
    and "handlers (tabs st') = filter P (handlers (tabs st))"
    and "\<forall>ci \<in> set (commands (tabs st)). live st' (ci_cmd ci) = live st (ci_cmd ci)"
  shows "session_inv func st' obj"
  using assms le_trans [OF length_filter_sub]
  by (fastforce simp: session_inv_def handler_ok_def)

lemma session_inv_temporary:
  assumes "session_inv func st obj" "q \<notin> ci_cmd ` set (commands (tabs st))"
    and "cancel_temporary cancel q st = ret (res, st')"
    and "\<And>info x info'. cancel info = ret (x, info') \<Longrightarrow> \<exists>es. distinct es \<and> info' = unregister_events es info"
  shows "session_inv func st' obj"
proof -
  from assms(3) obtain x info' where c: "cancel (tabs st) = ret (x, info')"
    "tabs st' = info'" "live st' = releaseRef q ((live st)(q := 1))"
    by (auto simp: cancel_temporary_def on_tabs_def run_then_eq_ret)
  from assms(4) [OF c(1)] obtain es where es: "distinct es" "info' = unregister_events es (tabs st)" by blast
  have inv: "hal_inv (tabs st)" "\<forall>e \<in> set es. length (filter (handles e) (handlers (tabs st))) \<le> 1"
    using assms(1) by (auto simp: session_inv_def)
  show ?thesis
    using unregister_events_spec [OF inv(1), of es] fold_remove_filter [OF es(1) inv(2)] c(2,3) es(2) assms(2)
    by (intro session_inv_fewer_handlers [OF assms(1)]) (auto simp: releaseRef_def)
qed

text \<open>A command goes, with all of its handlers.\<close>

lemma session_inv_remove:
  assumes inv: "session_inv func st obj" and ci: "ci \<in> set (commands (tabs st))" and "hal_inv (tabs st')"
    and cmds': "commands (tabs st') = filter (\<lambda>x. ci_id x \<noteq> ci_id ci) (commands (tabs st))"
    and cbs': "handlers (tabs st') =
      filter (\<lambda>cb. \<forall>e \<in> set (command_events (obj (ci_cmd ci))). \<not> handles e cb) (handlers (tabs st))"
    and live': "\<And>p. p \<noteq> ci_cmd ci \<Longrightarrow> live st' p = live st p"
  shows "session_inv func st' obj"
proof -
  have other: "x \<in> set (commands (tabs st')) \<longleftrightarrow> x \<in> set (commands (tabs st)) \<and> ci_cmd x \<noteq> ci_cmd ci" for x
    using inv ci unfolding session_inv_def cmds' by (auto simp: distinct_map dest: inj_onD)
  have ok: "handler_ok func (tabs st') obj cb" if cb: "cb \<in> set (handlers (tabs st'))" for cb
  proof -
    have h: "handler_ok func (tabs st) obj cb" "\<forall>e \<in> set (command_events (obj (ci_cmd ci))). \<not> handles e cb"
      using inv cb unfolding session_inv_def cbs' by auto
    then have "cb_arg cb \<noteq> ci_cmd ci" by (auto simp: handler_ok_def handles_iff)
    with h(1) other show ?thesis unfolding handler_ok_def by (auto simp: image_iff)
  qed
  have "length (filter (handles e) (handlers (tabs st'))) \<le> 1" for e
    using inv le_trans [OF length_filter_sub] unfolding cbs' session_inv_def by fastforce
  moreover have "ci_cmd x \<noteq> NULL \<and> live st' (ci_cmd x) = 1" if "x \<in> set (commands (tabs st'))" for x
    using inv that live' unfolding other session_inv_def by auto
  ultimately show ?thesis
    using inv assms(3) ok unfolding session_inv_def by (auto simp: cmds' distinct_map_filter)
qed

lemma session_inv_start:
  assumes inv: "session_inv func st obj" and p: "p \<noteq> NULL" "p \<notin> ci_cmd ` set (commands (tabs st))"
    and i: "i \<notin> ci_id ` set (commands (tabs st))" and nh: "no_handler (command_events c) (tabs st)"
    and start: "hal_start k env nets r func c p i st = ret (res, st')"
  shows "session_inv func st' (obj(p := c))"
proof -
  let ?new = "take (DEFAULT_EVENT_CB_SIZE - length (handlers (tabs st))) (map (event_cb func p) (command_events c))"
  have hal: "hal_inv (tabs st)" using inv by (simp add: session_inv_def)
  have "find (\<lambda>ci. ci_id ci = i) (commands (tabs st)) = None" using i by (auto simp: find_None_iff)
  note out = cmd.start_outcome [OF hal this nh start [unfolded hal_start_registers]]
  have old: "handler_ok func t (obj(p := c)) cb"
    if "cb \<in> set (handlers (tabs st))" "set (commands (tabs st)) \<subseteq> set (commands t)" for cb t
    using inv p(2) that by (fastforce simp: session_inv_def handler_ok_def)
  show ?thesis
  proof (cases "res = 0")
    case False
    with out inv old [of _ "tabs st'"] p show ?thesis by (auto simp: session_inv_def)
  next
    case True
    with out have st': "hal_inv (tabs st')" "live st' = (live st)(p := 1)"
      "commands (tabs st') = commands (tabs st) @ [\<lparr>ci_id = i, ci_cmd = p\<rparr>]"
      "handlers (tabs st') = handlers (tabs st) @ ?new" by auto
    have new: "handler_ok func (tabs st') (obj(p := c)) cb" if "cb \<in> set ?new" for cb
      using that st'(3) by (auto simp: handler_ok_def dest!: in_set_takeD)
    have "length (filter (handles e) (handlers (tabs st) @ ?new)) \<le> 1" for e
    proof (cases "e \<in> set (command_events c)")
      case True
      with nh have "filter (handles e) (handlers (tabs st)) = []" by (auto simp: no_handler_def filter_empty_conv)
      with length_filter_handles_cbs [OF cmd.distinct_events] show ?thesis by simp
    next
      case False
      then have "filter (handles e) ?new = []" by (auto simp: filter_empty_conv handles_iff dest!: in_set_takeD)
      with inv show ?thesis by (simp add: session_inv_def)
    qed
    with inv st' new old [of _ "tabs st'"] p i show ?thesis by (auto simp: session_inv_def)
  qed
qed

lemma session_inv_stop:
  assumes inv: "session_inv func st obj" and stop: "wifi_cancel_cmd (vcancel env net r obj) i st = ret (res, st')"
  shows "session_inv func st' obj"
proof -
  have hal: "hal_inv (tabs st)" and ids: "distinct (map ci_id (commands (tabs st)))"
    using inv by (simp_all add: session_inv_def)
  define t where "t = (tabs st)\<lparr>cmds := tab_remove_first (\<lambda>ci. ci_id ci = i) (cmds (tabs st))\<rparr>"
  have t: "hal_inv t" "commands t = filter (\<lambda>ci. ci_id ci \<noteq> i) (commands (tabs st))" "handlers t = handlers (tabs st)"
    using remove_spec(1,2) [OF hal, where P = "\<lambda>ci. ci_id ci = i"] remove_first_key [OF ids] by (simp_all add: t_def)
  show ?thesis
  proof (cases "find (\<lambda>ci. ci_id ci = i) (commands (tabs st))")
    case None
    then have "commands t = commands (tabs st)" unfolding t(2) by (auto simp: find_None_iff filter_id_conv)
    moreover have "st' = st\<lparr>tabs := t\<rparr>"
      using stop None hal by (simp add: wifi_cancel_cmd_def unregister_cmd_tab get_cmd_spec t_def)
    ultimately show ?thesis
      using t by (intro session_inv_fewer_handlers [OF inv, where P = "\<lambda>_. True"]) auto
  next
    case (Some ci)
    then have ci: "ci \<in> set (commands (tabs st))" "ci_id ci = i" by (auto simp: find_Some_iff)
    with inv have "ci_cmd ci \<noteq> NULL" by (simp add: session_inv_def)
    with stop Some hal obtain x info' where c: "command_cancel env net r (obj (ci_cmd ci)) t = ret (x, info')"
      "st' = st\<lparr>tabs := info', live := releaseRef (ci_cmd ci) (live st)\<rparr>"
      by (auto simp: wifi_cancel_cmd_def unregister_cmd_tab get_cmd_spec vcancel_def on_tabs_def run_then_eq_ret
          simp flip: t_def)
    from inv t(3) have "\<forall>e \<in> set (command_events (obj (ci_cmd ci))). length (filter (handles e) (handlers t)) \<le> 1"
      by (simp add: session_inv_def)
    from cmd.cancel_removes [OF c(1) t(1) this] show ?thesis
      using c(2) t(2,3) ci by (intro session_inv_remove [OF inv ci(1)]) (auto simp: releaseRef_def)
  qed
qed

lemma session_inv_event:
  assumes inv: "session_inv func st obj" and "internal_valid_message_handler (\<lambda>f c s. s) ev st = (res, st')"
  shows "session_inv func st' obj"
proof -
  have "hal_inv (tabs st)" using inv by (simp add: session_inv_def)
  with assms(2) have "tabs st' = tabs st \<and> live st' = live st"
    by (cases ev) (auto simp: internal_valid_message_handler_def dispatch_spec Let_def addRef_def releaseRef_def
        split: option.splits if_splits)
  with inv show ?thesis by (simp add: session_inv_def)
qed

lemma session_inv_rtt_complete:
  assumes inv: "session_inv func st obj" and cb: "find (ev_matches e) (handlers (tabs st)) = Some cb"
    and obj: "obj (cb_arg cb) = Rtt_command cs"
    and ci: "\<lparr>ci_id = i, ci_cmd = cb_arg cb\<rparr> \<in> set (commands (tabs st))"
    and d: "internal_valid_message_handler (\<lambda>f c. rtt_finish i) (Some e) st = (res, st')"
  shows "session_inv func st' obj"
proof -
  let ?p = "cb_arg cb" and ?st1 = "st\<lparr>live := addRef (cb_arg cb) (live st)\<rparr>"
  have hal: "hal_inv (tabs st)" and ids: "distinct (map ci_id (commands (tabs st)))" and p: "?p \<noteq> NULL"
    using inv ci by (auto simp: session_inv_def)
  show ?thesis
  proof (cases "cb_func cb = NULL")
    case True
    with d cb hal p have "tabs st' = tabs st \<and> live st' = live st"
      by (auto simp: dispatch_spec Let_def addRef_def releaseRef_def)
    with inv show ?thesis by (simp add: session_inv_def)
  next
    case False
    with d cb hal p have st': "st' = (rtt_finish i ?st1)\<lparr>live := releaseRef ?p (live (rtt_finish i ?st1))\<rparr>"
      by (simp add: dispatch_spec Let_def)
    have "find (\<lambda>ci. ci_id ci = i) (commands (tabs ?st1)) = Some \<lparr>ci_id = i, ci_cmd = ?p\<rparr>"
    proof (cases "find (\<lambda>ci. ci_id ci = i) (commands (tabs st))")
      case None
      with ci show ?thesis by (auto simp: find_None_iff)
    next
      case (Some x)
      then have "x \<in> set (commands (tabs st))" "ci_id x = i" by (auto simp: find_Some_iff)
      moreover from ids have "inj_on ci_id (set (commands (tabs st)))" by (simp add: distinct_map)
      ultimately have "x = \<lparr>ci_id = i, ci_cmd = ?p\<rparr>" using ci by (metis cmd_info.select_convs(1) inj_onD)
      with Some show ?thesis by simp
    qed
    note fin = rtt_finish_spec [OF _ this p]
    have "length (filter (handles RTT_EVENT_COMPLETE) (handlers (tabs st))) \<le> 1" using inv by (simp add: session_inv_def)
    from remove_first_filter [OF this] remove_first_key [OF ids] fin hal show ?thesis
      unfolding st' by (intro session_inv_remove [OF inv ci]) (auto simp: obj releaseRef_def addRef_def)
  qed
qed

lemma hal_session_inv:
  "hal_session k func s s' \<Longrightarrow> session_inv func (fst s) (snd s) \<Longrightarrow> session_inv func (fst s') (snd s')"
proof (induction rule: hal_session.induct)
  case (stop_all q st env net r c res st' obj)
  have "\<exists>es. distinct es \<and> info' = unregister_events es info"
    if "command_cancel env net r c info = ret (x, info')" for info x info'
    using cmd.cancel_law [OF that] by blast
  with stop_all show ?case by (auto intro: session_inv_temporary)
next
  case (range_cancel q st env net r addrs res st' obj)
  have "\<exists>es. distinct es \<and> info' = unregister_events es info"
    if "rtt_cancel_specific env net r addrs info = ret (x, info')" for info x info'
    using cancel_keeps(1) [OF that [unfolded rtt_cancel_specific_def]] by (intro exI [of _ "[RTT_EVENT_COMPLETE]"]) simp
  with range_cancel show ?case unfolding wifi_rtt_range_cancel_def by (auto intro: session_inv_temporary)
next
  case start
  from session_inv_start [OF _ start.hyps] start.prems show ?case by (simp del: fun_upd_apply add: fun_upd_def)
next
  case stop
  from session_inv_stop [OF _ stop.hyps] stop.prems show ?case by simp
next
  case event
  from session_inv_event [OF _ event.hyps] event.prems show ?case by simp
next
  case (rtt_complete e st cb obj cs i res st')
  then have "session_inv func st obj" by simp
  from session_inv_rtt_complete [OF this rtt_complete.hyps] show ?case by simp
qed

lemma session_inv_init: "session_inv func \<lparr>tabs = init_tabs cb ci, live = lv\<rparr> obj"
  by (simp add: session_inv_def hal_inv_init)

lemma sessions_inv:
  "(hal_session k func)\<^sup>*\<^sup>* s s' \<Longrightarrow> session_inv func (fst s) (snd s) \<Longrightarrow> session_inv func (fst s') (snd s')"
  by (induction rule: rtranclp_induct) (auto dest: hal_session_inv)



section \<open>What the sessions leave out\<close>

text \<open>
  Starting a second command of a class while one is running is not refused. If the second start fails,
  its cleanup removes the first matching handler, which is that of the running command, and leaves its
  own, which points to a command that has just been deleted.
\<close>

lemma second_start_dangles:
  assumes "hal_inv (tabs st)" "handlers (tabs st) = [event_cb func p1 GSCAN_EVENT_FULL_SCAN_RESULTS]"
    and "length (commands (tabs st)) < DEFAULT_CMD_SIZE" "exchange_ends net k e" "e < 0"
    and "full_scan_createRequest env GSCAN_SUBCMD_ENABLE_FULL_SCAN_RESULTS 1 r = Inr (0, r')"
    and "wifi_enable_full_scan_results env net r func p2 i st = ret (res, st')"
  shows "res < 0 \<and> handlers (tabs st') = [event_cb func p2 GSCAN_EVENT_FULL_SCAN_RESULTS] \<and> live st' p2 = 0"
proof -
  let ?e = "GSCAN_EVENT_FULL_SCAN_RESULTS"
  from register_cmd_spec [OF assms(1), of i p2] assms(3) obtain i1 where
    i1: "wifi_register_cmd i p2 (tabs st) = (WIFI_SUCCESS, i1)" "hal_inv i1" "event_cbs i1 = event_cbs (tabs st)" by auto
  from start_registered_runs [OF assms(7) [unfolded wifi_enable_full_scan_results_def] i1(1)] obtain i2 where
    i2: "full_scan_start env net r func p2 i1 = ret (res, i2)"
      "tabs st' = (if res = 0 then i2 else snd (wifi_unregister_cmd i i2))"
      "live st' = (live st)(p2 := (if res = 0 then 1 else 0))" by blast
  have "full_scan_start env net r func p2 i1 = ret (e, unregister_events [?e] (register_events [?e] func p2 i1))"
    using assms(5,6) by (simp add: full_scan_start_def step_or_def exchange_registered_def wifi_codes
        skip_exchange_returns [OF assms(4)])
  with i2(1) have res: "res = e" "i2 = unregister_events [?e] (register_events [?e] func p2 i1)" by auto
  have "handlers i2 = [event_cb func p2 ?e]"
    using register_events_spec [OF i1(2), of "[?e]" func p2] i1(3) assms(2)
    by (simp add: res(2) unregister_events_spec is_vendor_cb_def DEFAULT_EVENT_CB_SIZE_def)
  then show ?thesis using i2(2,3) res(1) assms(5) by (simp add: unregister_cmd_tab)
qed

end
