(* ===== verification/Hal_Threads.thy ===== *)
theory Hal_Threads
  imports Hal_Command
begin

text \<open>
  The threads of the Wi-Fi HAL. The event loop and the callers of the HAL run at the same time; the table of
  event handlers is protected by the mutex \<open>cb_lock\<close>, the table of commands by nothing. Elsewhere in this
  development a table operation is one step. Here its single accesses are steps, and the locked operations
  are shown to behave as if they were one.
\<close>

section \<open>Critical sections\<close>

text \<open>
  A thread is outside, waits for the mutex, or is inside with the position it has reached. \<open>work\<close> is one
  access of the thread to the shared data; at \<open>None\<close> it has come to the \<open>pthread_mutex_unlock\<close>.
\<close>

datatype ('op, 'pc) status = Outside | Waiting 'op | Inside 'op 'pc

record ('op, 'pc, 's) threads =
  status :: "nat \<Rightarrow> ('op, 'pc) status"
  owner :: "nat option"
  shared :: 's
  history :: "'op list"

text \<open>The accesses of a thread do not look at the mutex: that it holds it is a consequence.\<close>

inductive lock_step :: "('op \<Rightarrow> 'pc) \<Rightarrow> ('pc \<Rightarrow> 's \<Rightarrow> ('pc \<times> 's) option) \<Rightarrow>
    ('op, 'pc, 's) threads \<Rightarrow> ('op, 'pc, 's) threads \<Rightarrow> bool" for enter work where
  call: "status s t = Outside \<Longrightarrow> lock_step enter work s (s\<lparr>status := (status s)(t := Waiting op)\<rparr>)"
| acquire: "status s t = Waiting op \<Longrightarrow> owner s = None \<Longrightarrow>
    lock_step enter work s (s\<lparr>status := (status s)(t := Inside op (enter op)), owner := Some t\<rparr>)"
| access: "status s t = Inside op pc \<Longrightarrow> work pc (shared s) = Some (pc', sh') \<Longrightarrow>
    lock_step enter work s (s\<lparr>status := (status s)(t := Inside op pc'), shared := sh'\<rparr>)"
| release: "status s t = Inside op pc \<Longrightarrow> work pc (shared s) = None \<Longrightarrow>
    lock_step enter work s (s\<lparr>status := (status s)(t := Outside), owner := None, history := history s @ [op]\<rparr>)"

definition threads_at_rest :: "'s \<Rightarrow> ('op, 'pc, 's) threads" where
  "threads_at_rest sh = \<lparr>status = (\<lambda>_. Outside), owner = None, shared = sh, history = []\<rparr>"

text \<open>
  The contract of a critical section: \<open>apply_op\<close> is its effect as one step, \<open>during\<close> relates a position to the
  data before the section and to the data now, \<open>left\<close> bounds the accesses that are still to come.
\<close>

locale critical_section =
  fixes enter :: "'op \<Rightarrow> 'pc"
    and work :: "'pc \<Rightarrow> 's \<Rightarrow> ('pc \<times> 's) option"
    and apply_op :: "'op \<Rightarrow> 's \<Rightarrow> 's"
    and during :: "'op \<Rightarrow> 's \<Rightarrow> 'pc \<Rightarrow> 's \<Rightarrow> bool"
    and left :: "'pc \<Rightarrow> 's \<Rightarrow> nat"
  assumes during_enter: "during op base (enter op) base"
    and during_access: "during op base pc cur \<Longrightarrow> work pc cur = Some (pc', cur') \<Longrightarrow> during op base pc' cur'"
    and during_release: "during op base pc cur \<Longrightarrow> work pc cur = None \<Longrightarrow> cur = apply_op op base"
    and left_less: "work pc cur = Some (pc', cur') \<Longrightarrow> left pc' cur' < left pc cur"
begin

text \<open>The state in the order in which the sections were completed, one operation after the other.\<close>

definition sequential :: "'s \<Rightarrow> ('op, 'pc, 's) threads \<Rightarrow> 's" where
  "sequential sh0 s = fold apply_op (history s) sh0"

definition section_inv :: "'s \<Rightarrow> ('op, 'pc, 's) threads \<Rightarrow> bool" where
  "section_inv sh0 s \<longleftrightarrow> (\<forall>t op pc. status s t = Inside op pc \<longrightarrow> owner s = Some t) \<and>
     (case owner s of
        None \<Rightarrow> shared s = sequential sh0 s
      | Some t \<Rightarrow> \<exists>op pc. status s t = Inside op pc \<and> during op (sequential sh0 s) pc (shared s))"

lemma section_inside:
  assumes "section_inv sh0 s" "status s t = Inside op pc"
  shows "owner s = Some t" "during op (sequential sh0 s) pc (shared s)"
proof -
  show "owner s = Some t" using assms by (auto simp: section_inv_def)
  then show "during op (sequential sh0 s) pc (shared s)" using assms by (auto simp: section_inv_def)
qed

lemma section_inv_step:
  assumes "lock_step enter work s s'" "section_inv sh0 s"
  shows "section_inv sh0 s'"
  using assms
proof (cases rule: lock_step.cases)
  case (call t op)
  with assms(2) show ?thesis by (auto simp: section_inv_def sequential_def split: option.splits)
next
  case (acquire t op)
  with assms(2) show ?thesis by (auto simp: section_inv_def sequential_def during_enter)
next
  case (access t op pc pc' sh')
  note inside = section_inside [OF assms(2) access(2)]
  from during_access [OF inside(2) access(3)] inside(1) access(1) assms(2) show ?thesis
    by (auto simp: section_inv_def sequential_def)
next
  case (release t op pc)
  note inside = section_inside [OF assms(2) release(2)]
  from during_release [OF inside(2) release(3)] inside(1) release(1) assms(2) show ?thesis
    by (auto simp: section_inv_def sequential_def)
qed

lemma section_inv_reachable:
  assumes "(lock_step enter work)\<^sup>*\<^sup>* (threads_at_rest sh0) s"
  shows "section_inv sh0 s"
  using assms
proof (induction rule: rtranclp_induct)
  case base
  show ?case by (simp add: section_inv_def threads_at_rest_def sequential_def)
next
  case (step s s')
  then show ?case using section_inv_step by blast
qed

text \<open>At most one thread is inside, and whenever the mutex is free the data is that of a sequential run.\<close>

lemma mutual_exclusion:
  assumes "(lock_step enter work)\<^sup>*\<^sup>* (threads_at_rest sh0) s" "status s t = Inside op pc" "status s t' = Inside op' pc'"
  shows "t = t'"
  using assms(2,3) [THEN section_inside(1) [OF section_inv_reachable [OF assms(1)]]] by simp

lemma linearizes:
  assumes "(lock_step enter work)\<^sup>*\<^sup>* (threads_at_rest sh0) s" "owner s = None"
  shows "shared s = fold apply_op (history s) sh0"
  using section_inv_reachable [OF assms(1)] assms(2) by (auto simp: section_inv_def sequential_def)

text \<open>The owner of the mutex comes to its release by its own steps, whatever the others do.\<close>

lemma section_ends:
  assumes "status s t = Inside op pc"
  shows "\<exists>s'. (lock_step enter work)\<^sup>*\<^sup>* s s' \<and> owner s' = None \<and> status s' = (status s)(t := Outside) \<and>
    history s' = history s @ [op]"
  using assms
proof (induction "left pc (shared s)" arbitrary: s pc rule: less_induct)
  case less
  show ?case
  proof (cases "work pc (shared s)")
    case None
    let ?s = "s\<lparr>status := (status s)(t := Outside), owner := None, history := history s @ [op]\<rparr>"
    have "(lock_step enter work)\<^sup>*\<^sup>* s ?s" using lock_step.release [where enter = enter and work = work, OF less.prems None] by blast
    then show ?thesis by (intro exI [of _ ?s]) simp
  next
    case (Some r)
    obtain pc' sh' where r: "work pc (shared s) = Some (pc', sh')" using Some by (cases r) auto
    let ?s = "s\<lparr>status := (status s)(t := Inside op pc'), shared := sh'\<rparr>"
    from less.hyps [of pc' ?s] left_less [OF r] obtain s' where
      "(lock_step enter work)\<^sup>*\<^sup>* ?s s'" "owner s' = None" "status s' = (status ?s)(t := Outside)" "history s' = history ?s @ [op]"
      by auto
    moreover have "lock_step enter work s ?s" by (rule lock_step.access [where enter = enter and work = work, OF less.prems r])
    ultimately show ?thesis by (auto intro: converse_rtranclp_into_rtranclp)
  qed
qed

end


section \<open>The accesses of the handler table\<close>

text \<open>
  The operations under \<open>cb_lock\<close>: the two registrations, the two removals, and the search of the dispatcher,
  which takes a reference to the command that it finds. \<open>wifi_unregister_handler\<close> returns at once for vendor
  events.
\<close>

datatype handler_op =
    Register int ptr ptr
  | Register_vendor u32 int ptr ptr
  | Unregister int
  | Unregister_vendor u32 int
  | Search hal_event

type_synonym handler_data = "cb_info tab \<times> refs"

text \<open>The entry that a registration stores, and the entries that a removal or a search looks for.\<close>

definition entry_of :: "handler_op \<Rightarrow> cb_info option" where
  "entry_of op = (case op of
     Register c f a \<Rightarrow> Some \<lparr>nl_cmd = c, vendor_id = 0, vendor_subcmd = 0, cb_func = f, cb_arg = a\<rparr>
   | Register_vendor v sc f a \<Rightarrow>
       Some \<lparr>nl_cmd = NL80211_CMD_VENDOR, vendor_id = v, vendor_subcmd = sc, cb_func = f, cb_arg = a\<rparr>
   | _ \<Rightarrow> None)"

fun is_search :: "handler_op \<Rightarrow> bool" where
  "is_search (Search _) \<longleftrightarrow> True"
| "is_search _ \<longleftrightarrow> False"

definition op_matches :: "handler_op \<Rightarrow> cb_info \<Rightarrow> bool" where
  "op_matches op cb = (case op of
     Unregister c \<Rightarrow> nl_cmd cb = c
   | Unregister_vendor v sc \<Rightarrow> is_vendor_cb v sc cb
   | Search ev \<Rightarrow> ev_matches ev cb
   | _ \<Rightarrow> False)"

lemma op_matches_eqs:
  "op_matches (Unregister c) = (\<lambda>cb. nl_cmd cb = c)" "op_matches (Unregister_vendor v sc) = is_vendor_cb v sc"
  "op_matches (Search ev) = ev_matches ev"
  by (simp_all add: fun_eq_iff op_matches_def)

text \<open>
  Positions: before the test for room, before the store of the k-th member, before \<open>num_event_cb++\<close>; before
  the test of entry i, before the \<open>memmove\<close>, before \<open>num_event_cb--\<close>, before \<open>addRef\<close>; before the unlock.
\<close>

datatype handler_pc =
    Test cb_info
  | Store cb_info nat
  | Count
  | Scan handler_op nat
  | Move nat
  | Discount
  | Take nat
  | Leave

definition handler_enter :: "handler_op \<Rightarrow> handler_pc" where
  "handler_enter op =
     (case entry_of op of
        Some cb \<Rightarrow> Test cb
      | None \<Rightarrow> if op = Unregister NL80211_CMD_VENDOR then Leave else Scan op 0)"

definition store_member :: "nat \<Rightarrow> cb_info \<Rightarrow> cb_info \<Rightarrow> cb_info" where
  "store_member k cb x =
     (if k = 0 then x\<lparr>nl_cmd := nl_cmd cb\<rparr>
      else if k = 1 then x\<lparr>vendor_id := vendor_id cb\<rparr>
      else if k = 2 then x\<lparr>vendor_subcmd := vendor_subcmd cb\<rparr>
      else if k = 3 then x\<lparr>cb_func := cb_func cb\<rparr>
      else x\<lparr>cb_arg := cb_arg cb\<rparr>)"

fun handler_work :: "handler_pc \<Rightarrow> handler_data \<Rightarrow> (handler_pc \<times> handler_data) option" where
  "handler_work (Test cb) (t, r) = Some (if tab_num t < length (tab_arr t) then Store cb 0 else Leave, t, r)"
| "handler_work (Store cb k) (t, r) =
     Some (if k < 4 then Store cb (k + 1) else Count,
       t\<lparr>tab_arr := (tab_arr t)[tab_num t := store_member k cb (tab_arr t ! tab_num t)]\<rparr>, r)"
| "handler_work Count (t, r) = Some (Leave, t\<lparr>tab_num := tab_num t + 1\<rparr>, r)"
| "handler_work (Scan op i) (t, r) =
     Some (if i < tab_num t
           then if op_matches op (tab_arr t ! i)
                then if is_search op then Take i else Move i
                else Scan op (i + 1)
           else Leave, t, r)"
| "handler_work (Move i) (t, r) = Some (Discount, t\<lparr>tab_arr := tab_arr (tab_delete i t)\<rparr>, r)"
| "handler_work Discount (t, r) = Some (Leave, t\<lparr>tab_num := tab_num t - 1\<rparr>, r)"
| "handler_work (Take i) (t, r) =
     Some (Leave, t, if cb_arg (tab_arr t ! i) \<noteq> NULL then addRef (cb_arg (tab_arr t ! i)) r else r)"
| "handler_work Leave (t, r) = None"

text \<open>The operations as one step each.\<close>

definition handler_apply :: "handler_op \<Rightarrow> handler_data \<Rightarrow> handler_data" where
  "handler_apply op d =
     (case (entry_of op, d) of
        (Some cb, t, r) \<Rightarrow> (case tab_append cb t of None \<Rightarrow> (t, r) | Some t' \<Rightarrow> (t', r))
      | (None, t, r) \<Rightarrow>
          if op = Unregister NL80211_CMD_VENDOR then (t, r)
          else if is_search op
          then (case tab_find (op_matches op) t 0 of
                  None \<Rightarrow> (t, r)
                | Some k \<Rightarrow> (t, if cb_arg (tab_arr t ! k) \<noteq> NULL then addRef (cb_arg (tab_arr t ! k)) r else r))
          else (tab_remove_first (op_matches op) t, r))"

text \<open>The entry after the first k members have been stored.\<close>

fun stored :: "nat \<Rightarrow> cb_info \<Rightarrow> cb_info \<Rightarrow> cb_info" where
  "stored 0 cb x = x"
| "stored (Suc k) cb x = store_member k cb (stored k cb x)"

lemma stored_all: "stored 5 cb x = cb"
  by (simp add: eval_nat_numeral store_member_def)

text \<open>What holds at each position, in terms of the data at the start of the section.\<close>

definition at_index :: "cb_info tab \<Rightarrow> nat \<Rightarrow> cb_info \<Rightarrow> cb_info tab" where
  "at_index t k cb = t\<lparr>tab_arr := (tab_arr t)[tab_num t := stored k cb (tab_arr t ! tab_num t)]\<rparr>"

fun handler_during :: "handler_op \<Rightarrow> handler_data \<Rightarrow> handler_pc \<Rightarrow> handler_data \<Rightarrow> bool" where
  "handler_during op base (Test cb) cur \<longleftrightarrow> entry_of op = Some cb \<and> cur = base"
| "handler_during op (t, r) (Store cb k) cur \<longleftrightarrow>
     entry_of op = Some cb \<and> tab_num t < length (tab_arr t) \<and> k \<le> 4 \<and> cur = (at_index t k cb, r)"
| "handler_during op (t, r) Count cur \<longleftrightarrow>
     (\<exists>cb. entry_of op = Some cb \<and> tab_num t < length (tab_arr t) \<and> cur = (at_index t 5 cb, r))"
| "handler_during op (t, r) (Scan op' i) cur \<longleftrightarrow>
     op' = op \<and> entry_of op = None \<and> op \<noteq> Unregister NL80211_CMD_VENDOR \<and> tab_find (op_matches op) t 0 = tab_find (op_matches op) t i \<and> cur = (t, r)"
| "handler_during op (t, r) (Move i) cur \<longleftrightarrow>
     entry_of op = None \<and> op \<noteq> Unregister NL80211_CMD_VENDOR \<and> \<not> is_search op \<and> tab_find (op_matches op) t 0 = Some i \<and> cur = (t, r)"
| "handler_during op (t, r) Discount cur \<longleftrightarrow>
     entry_of op = None \<and> op \<noteq> Unregister NL80211_CMD_VENDOR \<and> \<not> is_search op \<and> (\<exists>i. tab_find (op_matches op) t 0 = Some i \<and>
       cur = (t\<lparr>tab_arr := tab_arr (tab_delete i t)\<rparr>, r))"
| "handler_during op (t, r) (Take i) cur \<longleftrightarrow> entry_of op = None \<and> is_search op \<and> tab_find (op_matches op) t 0 = Some i \<and> cur = (t, r)"
| "handler_during op base Leave cur \<longleftrightarrow> cur = handler_apply op base"

fun handler_left :: "handler_pc \<Rightarrow> handler_data \<Rightarrow> nat" where
  "handler_left (Test _) d = 8"
| "handler_left (Store _ k) d = 5 - k + 2"
| "handler_left Count d = 1"
| "handler_left (Scan _ i) (t, r) = tab_num t - i + 3"
| "handler_left (Move _) d = 2"
| "handler_left Discount d = 1"
| "handler_left (Take _) d = 1"
| "handler_left Leave d = 0"

lemma store_next: "at_index t k cb\<lparr>tab_arr := (tab_arr (at_index t k cb))[tab_num (at_index t k cb) :=
    store_member k cb (tab_arr (at_index t k cb) ! tab_num (at_index t k cb))]\<rparr> = at_index t (Suc k) cb"
  if "tab_num t < length (tab_arr t)"
  using that by (simp add: at_index_def)

lemma append_at_index: "tab_num t < length (tab_arr t) \<Longrightarrow> tab_append cb t = Some ((at_index t 5 cb)\<lparr>tab_num := tab_num t + 1\<rparr>)"
  by (cases t) (simp add: tab_append_def at_index_def stored_all)

lemma find_next:
  "tab_find P t i = (if i < tab_num t then (if P (tab_arr t ! i) then Some i else tab_find P t (i + 1)) else None)"
  by (rule tab_find.simps)

interpretation handler_section: critical_section handler_enter handler_work handler_apply handler_during handler_left
proof
  fix op and base :: handler_data
  show "handler_during op base (handler_enter op) base"
    by (cases base) (auto simp: handler_enter_def handler_apply_def entry_of_def split: option.splits)
next
  fix op and base cur cur' :: handler_data and pc pc'
  assume d: "handler_during op base pc cur" and w: "handler_work pc cur = Some (pc', cur')"
  obtain t r where base: "base = (t, r)" by force
  show "handler_during op base pc' cur'"
  proof (cases pc)
    case (Scan op' i)
    with d w base find_next [of "op_matches op" t i] show ?thesis
      by (auto simp: tab_remove_first_def handler_apply_def split: if_splits)
  next
    case (Store cb k)
    with d w base store_next [of t k cb] show ?thesis
      by (cases "k = 4") (auto simp: numeral_eq_Suc)
  next
    case Count
    with d w base show ?thesis by (auto simp: append_at_index handler_apply_def) (simp add: at_index_def)
  next
    case (Test cb)
    with d w base show ?thesis by (auto simp: tab_append_def at_index_def handler_apply_def)
  next
    case Discount
    with d w base show ?thesis
      by (auto simp: tab_remove_first_def tab_delete_def handler_apply_def split: option.splits)
  next
    case Leave
    with w show ?thesis by (cases cur) auto
  next
    case (Take i)
    with d w base show ?thesis by (auto simp: handler_apply_def entry_of_def split: handler_op.splits)
  qed (use d w base in auto)
next
  fix op and base cur :: handler_data and pc
  assume "handler_during op base pc cur" "handler_work pc cur = None"
  then show "cur = handler_apply op base" by (cases cur; cases pc) auto
next
  fix pc pc' and cur cur' :: handler_data
  assume "handler_work pc cur = Some (pc', cur')"
  then show "handler_left pc' cur' < handler_left pc cur"
    by (cases cur; cases pc) (auto split: if_splits handler_op.splits)
qed

text \<open>One step of the handler operations is a step of the registry.\<close>

lemma apply_hal_step: "hal_step\<^sup>*\<^sup>* info (info\<lparr>event_cbs := fst (handler_apply op (event_cbs info, r))\<rparr>)"
proof (cases op)
  case (Register c f a)
  have "info\<lparr>event_cbs := fst (handler_apply op (event_cbs info, r))\<rparr> = snd (wifi_register_handler c f a info)"
    by (auto simp: Register handler_apply_def entry_of_def wifi_register_handler_def add_event_cb_def split: option.splits)
  then show ?thesis using hal_step.intros(1) [of c f a info] by (metis prod.collapse r_into_rtranclp)
next
  case (Register_vendor v sc f a)
  have "info\<lparr>event_cbs := fst (handler_apply op (event_cbs info, r))\<rparr> = snd (wifi_register_vendor_handler v sc f a info)"
    by (auto simp: Register_vendor handler_apply_def entry_of_def wifi_register_vendor_handler_def add_event_cb_def split: option.splits)
  then show ?thesis using hal_step.intros(2) [of v sc f a info] by (metis prod.collapse r_into_rtranclp)
next
  case (Unregister c)
  have "info\<lparr>event_cbs := fst (handler_apply op (event_cbs info, r))\<rparr> = wifi_unregister_handler c info"
    by (simp add: Unregister handler_apply_def entry_of_def wifi_unregister_handler_def op_matches_eqs)
  then show ?thesis using hal_step.intros(3) [of info c] by auto
next
  case (Unregister_vendor v sc)
  have "info\<lparr>event_cbs := fst (handler_apply op (event_cbs info, r))\<rparr> = wifi_unregister_vendor_handler v sc info"
    by (simp add: Unregister_vendor handler_apply_def entry_of_def wifi_unregister_vendor_handler_def op_matches_eqs)
  then show ?thesis using hal_step.intros(4) [of info v sc] by auto
next
  case (Search ev)
  then show ?thesis by (auto simp: handler_apply_def entry_of_def split: option.splits)
qed

lemma history_hal_steps: "hal_step\<^sup>*\<^sup>* info (info\<lparr>event_cbs := fst (fold handler_apply ops (event_cbs info, r))\<rparr>)"
proof (induction ops arbitrary: info r)
  case (Cons op ops)
  obtain t r' where t: "handler_apply op (event_cbs info, r) = (t, r')" by force
  from apply_hal_step [of info op r] t have "hal_step\<^sup>*\<^sup>* info (info\<lparr>event_cbs := t\<rparr>)" by simp
  moreover from Cons.IH [of "info\<lparr>event_cbs := t\<rparr>" r'] have
    "hal_step\<^sup>*\<^sup>* (info\<lparr>event_cbs := t\<rparr>) (info\<lparr>event_cbs := fst (fold handler_apply ops (t, r'))\<rparr>)" by simp
  ultimately show ?case using t by simp
qed simp

text \<open>
  C3: the mutex makes the table operations atomic. In every interleaving of the accesses of any number of
  threads, at most one thread is inside a critical section, its section can always be completed, and
  whenever the mutex is free, handler table and reference counts are exactly those after the completed
  operations one by one, in the order of completion: the table is one that the atomic operations of the
  registry reach.
\<close>

theorem threads_linearize:
  assumes run: "(lock_step handler_enter handler_work)\<^sup>*\<^sup>* (threads_at_rest (event_cbs info, r)) s"
  shows "(\<forall>t t' op op' pc pc'. status s t = Inside op pc \<and> status s t' = Inside op' pc' \<longrightarrow> t = t') \<and>
    (\<forall>t op pc. status s t = Inside op pc \<longrightarrow>
       (\<exists>s'. (lock_step handler_enter handler_work)\<^sup>*\<^sup>* s s' \<and> owner s' = None \<and> history s' = history s @ [op])) \<and>
    (owner s = None \<longrightarrow> shared s = fold handler_apply (history s) (event_cbs info, r) \<and>
       hal_step\<^sup>*\<^sup>* info (info\<lparr>event_cbs := fst (shared s)\<rparr>))"
  using handler_section.mutual_exclusion [OF run] handler_section.section_ends [of s]
    handler_section.linearizes [OF run] history_hal_steps [of info "history s" r] by metis

text \<open>Two threads that register a handler at the same time.\<close>

definition two_registrations :: "(handler_op, handler_pc, handler_data) threads" where
  "two_registrations = (threads_at_rest (event_cbs (init_tabs no_cb no_cmd), \<lambda>_. 0))
     \<lparr>status := (\<lambda>_. Outside)(1 := Waiting (Register_vendor 6438 1 2 77), 2 := Waiting (Register_vendor 6438 5 2 88))\<rparr>"

lemma two_registrations_reached:
  "(lock_step handler_enter handler_work)\<^sup>*\<^sup>* (threads_at_rest (event_cbs (init_tabs no_cb no_cmd), \<lambda>_. 0)) two_registrations"
proof -
  let ?s0 = "threads_at_rest (event_cbs (init_tabs no_cb no_cmd), \<lambda>_. 0) :: (handler_op, handler_pc, handler_data) threads"
  let ?s1 = "?s0\<lparr>status := (status ?s0)(1 := Waiting (Register_vendor 6438 1 2 77))\<rparr>"
  have "lock_step handler_enter handler_work ?s0 ?s1" by (rule lock_step.call) (simp add: threads_at_rest_def)
  moreover have "lock_step handler_enter handler_work ?s1
      (?s1\<lparr>status := (status ?s1)(2 := Waiting (Register_vendor 6438 5 2 88))\<rparr>)"
    by (rule lock_step.call) (simp add: threads_at_rest_def)
  ultimately show ?thesis by (simp add: two_registrations_def threads_at_rest_def)
qed

theorem threads_linearize_witness:
  "\<exists>s. (lock_step handler_enter handler_work)\<^sup>*\<^sup>* two_registrations s \<and> owner s = None \<and>
     history s = [Register_vendor 6438 1 2 77] \<and>
     shared s = fold handler_apply [Register_vendor 6438 1 2 77] (event_cbs (init_tabs no_cb no_cmd), \<lambda>_. 0)"
proof -
  let ?op = "Register_vendor 6438 1 2 77"
  let ?s1 = "two_registrations\<lparr>status := (status two_registrations)(1 := Inside ?op (handler_enter ?op)), owner := Some 1\<rparr>"
  have 1: "lock_step handler_enter handler_work two_registrations ?s1"
    by (rule lock_step.acquire) (simp_all add: two_registrations_def threads_at_rest_def)
  from handler_section.section_ends [of ?s1 1 ?op "handler_enter ?op"] obtain s where
    s: "(lock_step handler_enter handler_work)\<^sup>*\<^sup>* ?s1 s" "owner s = None" "history s = history ?s1 @ [?op]" by auto
  with 1 have steps: "(lock_step handler_enter handler_work)\<^sup>*\<^sup>* two_registrations s" by (metis converse_rtranclp_into_rtranclp)
  have "history s = [?op]" using s(3) by (simp add: two_registrations_def threads_at_rest_def)
  with threads_linearize [OF rtranclp_trans [OF two_registrations_reached steps]] s(2) steps show ?thesis by auto
qed


section \<open>The command table has no lock\<close>

text \<open>
  The same way of interleaving, without a mutex: the array of commands and its count, which is a signed
  number in the code. The positions of \<open>wifi_register_cmd\<close> and of \<open>wifi_unregister_cmd\<close> by id, with the local
  variable \<open>cmd\<close> of the latter.
\<close>

record 'pc racing =
  positions :: "nat \<Rightarrow> 'pc"
  cmd_arr :: "cmd_info list"
  num_cmd :: int

datatype cmd_pc =
    Reg_test int ptr
  | Reg_store_id int ptr
  | Reg_store_cmd ptr
  | Reg_count
  | Unreg_scan int int
  | Unreg_read int
  | Unreg_move int ptr
  | Unreg_count ptr
  | Returned_result wifi_error
  | Returned_cmd ptr
  | Outside_array

text \<open>One access of a thread; \<open>None\<close> when it has returned. An index outside of the array is a fault, and so is a
  \<open>memmove\<close> of a negative number of entries.\<close>

definition at_array :: "int \<Rightarrow> (cmd_info \<Rightarrow> cmd_info) \<Rightarrow> cmd_info list \<Rightarrow> cmd_info list option" where
  "at_array i f xs = (if 0 \<le> i \<and> i < int (length xs) then Some (xs[nat i := f (xs ! nat i)]) else None)"

fun cmd_work :: "cmd_pc \<Rightarrow> cmd_info list \<times> int \<Rightarrow> (cmd_pc \<times> cmd_info list \<times> int) option" where
  "cmd_work (Reg_test i p) (xs, n) =
     Some (if n < int (length xs) then Reg_store_id i p else Returned_result WIFI_ERROR_OUT_OF_MEMORY, xs, n)"
| "cmd_work (Reg_store_id i p) (xs, n) =
     Some (case at_array n (\<lambda>c. c\<lparr>ci_id := i\<rparr>) xs of None \<Rightarrow> (Outside_array, xs, n) | Some ys \<Rightarrow> (Reg_store_cmd p, ys, n))"
| "cmd_work (Reg_store_cmd p) (xs, n) =
     Some (case at_array n (\<lambda>c. c\<lparr>ci_cmd := p\<rparr>) xs of None \<Rightarrow> (Outside_array, xs, n) | Some ys \<Rightarrow> (Reg_count, ys, n))"
| "cmd_work Reg_count (xs, n) = Some (Returned_result WIFI_SUCCESS, xs, n + 1)"
| "cmd_work (Unreg_scan i k) (xs, n) =
     Some (if k < n
           then if 0 \<le> k \<and> k < int (length xs)
                then if ci_id (xs ! nat k) = i then Unreg_read k else Unreg_scan i (k + 1)
                else Outside_array
           else Returned_cmd NULL, xs, n)"
| "cmd_work (Unreg_read k) (xs, n) = Some (Unreg_move k (ci_cmd (xs ! nat k)), xs, n)"
| "cmd_work (Unreg_move k c) (xs, n) =
     Some (if n - k - 1 < 0 then (Outside_array, xs, n)
           else (Unreg_count c, take (nat k) xs @ take (nat (n - k - 1)) (drop (nat k + 1) xs) @ drop (nat (n - 1)) xs, n))"
| "cmd_work (Unreg_count c) (xs, n) = Some (Returned_cmd c, xs, n - 1)"
| "cmd_work _ _ = None"

inductive race_step :: "cmd_pc racing \<Rightarrow> cmd_pc racing \<Rightarrow> bool" where
  "cmd_work (positions s t) (cmd_arr s, num_cmd s) = Some (pc, xs, n) \<Longrightarrow>
   race_step s \<lparr>positions = (positions s)(t := pc), cmd_arr = xs, num_cmd = n\<rparr>"

text \<open>A run of a schedule: at each turn the given thread takes its next step, if it has one.\<close>

fun run_schedule :: "nat list \<Rightarrow> cmd_pc racing \<Rightarrow> cmd_pc racing" where
  "run_schedule [] s = s"
| "run_schedule (t # ts) s =
     (case cmd_work (positions s t) (cmd_arr s, num_cmd s) of
        None \<Rightarrow> run_schedule ts s
      | Some (pc, xs, n) \<Rightarrow> run_schedule ts \<lparr>positions = (positions s)(t := pc), cmd_arr = xs, num_cmd = n\<rparr>)"

lemma schedule_steps: "race_step\<^sup>*\<^sup>* s (run_schedule ts s)"
proof (induction ts arbitrary: s)
  case (Cons t ts)
  show ?case
  proof (cases "cmd_work (positions s t) (cmd_arr s, num_cmd s)")
    case (Some r)
    obtain pc xs n where r: "cmd_work (positions s t) (cmd_arr s, num_cmd s) = Some (pc, xs, n)" using Some by (cases r) auto
    from race_step.intros [OF r] Cons.IH show ?thesis using r by (auto intro: converse_rtranclp_into_rtranclp)
  qed (use Cons.IH in simp)
qed simp

definition race :: "cmd_pc \<Rightarrow> cmd_pc \<Rightarrow> cmd_info tab \<Rightarrow> cmd_pc racing" where
  "race pc1 pc2 t = \<lparr>positions = (\<lambda>_. Returned_result 0)(1 := pc1, 2 := pc2), cmd_arr = tab_arr t, num_cmd = int (tab_num t)\<rparr>"

text \<open>A thread that runs alone does what the operations of the registry do.\<close>

lemma both_members: "x\<lparr>ci_id := i, ci_cmd := p\<rparr> = \<lparr>ci_id = i, ci_cmd = p\<rparr>"
  by (cases x) simp

lemma register_alone:
  assumes "tab_inv (cmds info)" "wifi_register_cmd i p info = (res, info')"
  shows "run_schedule [1, 1, 1, 1] (race (Reg_test i p) pc2 (cmds info)) = race (Returned_result res) pc2 (cmds info')"
  using assms
  by (cases "cmds info") (auto simp: wifi_register_cmd_def tab_append_def race_def at_array_def tab_inv_def both_members
      split: if_splits)

lemma run_schedule_append: "run_schedule (ts @ us) s = run_schedule us (run_schedule ts s)"
  by (induction ts s rule: run_schedule.induct) (auto split: option.splits)

lemma scan_alone:
  "tab_inv t \<Longrightarrow> \<exists>n. run_schedule (replicate n 1) (race (Unreg_scan i (int j)) pc2 t) =
     race (case tab_find (\<lambda>c. ci_id c = i) t j of None \<Rightarrow> Returned_cmd NULL | Some k \<Rightarrow> Unreg_read (int k)) pc2 t"
proof (induction "\<lambda>c :: cmd_info. ci_id c = i" t j rule: tab_find.induct)
  case (1 t j)
  let ?s = "race (Unreg_scan i (int j)) pc2 t"
  show ?case
  proof (cases "j < tab_num t \<and> ci_id (tab_arr t ! j) \<noteq> i")
    case True
    with 1 obtain n where n: "run_schedule (replicate n 1) (race (Unreg_scan i (int (j + 1))) pc2 t) =
        race (case tab_find (\<lambda>c. ci_id c = i) t (j + 1) of None \<Rightarrow> Returned_cmd NULL | Some k \<Rightarrow> Unreg_read (int k)) pc2 t"
      by auto
    have "run_schedule [1] ?s = race (Unreg_scan i (int (j + 1))) pc2 t"
      using True 1(2) by (auto simp: race_def tab_inv_def add.commute fun_eq_iff)
    with n True have "run_schedule (replicate (Suc n) 1) ?s =
        race (case tab_find (\<lambda>c. ci_id c = i) t j of None \<Rightarrow> Returned_cmd NULL | Some k \<Rightarrow> Unreg_read (int k)) pc2 t"
      using run_schedule_append [of "[1]" "replicate n 1" ?s] by (subst tab_find.simps) simp
    then show ?thesis by blast
  next
    case False
    then have "run_schedule (replicate 1 1) ?s =
        race (case tab_find (\<lambda>c. ci_id c = i) t j of None \<Rightarrow> Returned_cmd NULL | Some k \<Rightarrow> Unreg_read (int k)) pc2 t"
      using 1(2) by (subst tab_find.simps) (auto simp: race_def tab_inv_def)
    then show ?thesis by blast
  qed
qed

lemma unregister_alone:
  assumes "tab_inv (cmds info)" "wifi_unregister_cmd i info = (c, info')"
  shows "\<exists>n. run_schedule (replicate n 1) (race (Unreg_scan i 0) pc2 (cmds info)) = race (Returned_cmd c) pc2 (cmds info')"
proof (cases "tab_find (\<lambda>c. ci_id c = i) (cmds info) 0")
  case None
  with scan_alone [OF assms(1), of i 0 pc2] assms(2) show ?thesis by (simp add: wifi_unregister_cmd_def)
next
  case (Some k)
  from scan_alone [OF assms(1), of i 0 pc2] Some obtain n where
    n: "run_schedule (replicate n 1) (race (Unreg_scan i 0) pc2 (cmds info)) = race (Unreg_read (int k)) pc2 (cmds info)" by auto
  have k: "k < tab_num (cmds info)" using tab_find_Some [OF Some] by simp
  then have nat: "nat (int (tab_num (cmds info)) - int k - 1) = tab_num (cmds info) - k - 1"
    "nat (int (tab_num (cmds info)) - 1) = tab_num (cmds info) - 1" "int (tab_num (cmds info) - 1) = int (tab_num (cmds info)) - 1" by auto
  have "run_schedule [1, 1, 1] (race (Unreg_read (int k)) pc2 (cmds info)) = race (Returned_cmd c) pc2 (cmds info')"
    using k Some assms(2) by (auto simp: wifi_unregister_cmd_def race_def tab_delete_def nat)
  then have "run_schedule (replicate n 1 @ [1, 1, 1]) (race (Unreg_scan i 0) pc2 (cmds info)) = race (Returned_cmd c) pc2 (cmds info')"
    unfolding run_schedule_append n .
  moreover have "replicate n 1 @ [1, 1, 1] = replicate (n + 3) (1 :: nat)" by (simp only: replicate_add) (simp add: numeral_3_eq_3)
  ultimately have "run_schedule (replicate (n + 3) 1) (race (Unreg_scan i 0) pc2 (cmds info)) = race (Returned_cmd c) pc2 (cmds info')"
    by (simp only:)
  then show ?thesis by blast
qed

text \<open>
  Two registrations at the same time: both see the same count and use the same entry. Both report success,
  the first command is in nobody's table, and an entry that was never stored counts as one.
\<close>

lemma unlocked_registration_lost:
  "\<exists>s. race_step\<^sup>*\<^sup>* (race (Reg_test 5 77) (Reg_test 6 88) (empty_tab 64 no_cmd)) s \<and>
     positions s 1 = Returned_result WIFI_SUCCESS \<and> positions s 2 = Returned_result WIFI_SUCCESS \<and>
     take (nat (num_cmd s)) (cmd_arr s) = [\<lparr>ci_id = 6, ci_cmd = 88\<rparr>, no_cmd]"
proof -
  let ?s = "run_schedule [1, 1, 1, 2, 2, 2, 1, 2] (race (Reg_test 5 77) (Reg_test 6 88) (empty_tab 64 no_cmd))"
  have "positions ?s 1 = Returned_result WIFI_SUCCESS \<and> positions ?s 2 = Returned_result WIFI_SUCCESS \<and>
      take (nat (num_cmd ?s)) (cmd_arr ?s) = [\<lparr>ci_id = 6, ci_cmd = 88\<rparr>, no_cmd]"
    by (simp add: race_def empty_tab_def at_array_def eval_nat_numeral)
  with schedule_steps show ?thesis by blast
qed

text \<open>
  A range request that completes on the event thread while a caller cancels it: both get the command, so that
  its one reference is released twice, and the count becomes \<open>-1\<close>: the next registration writes in front of
  the array.
\<close>

lemma unlocked_double_release:
  "\<exists>s. race_step\<^sup>*\<^sup>* (race (Unreg_scan 5 0) (Unreg_scan 5 0) \<lparr>tab_arr = \<lparr>ci_id = 5, ci_cmd = 77\<rparr> # replicate 63 no_cmd, tab_num = 1\<rparr>) s \<and>
     positions s 1 = Returned_cmd 77 \<and> positions s 2 = Returned_cmd 77 \<and> num_cmd s = -1 \<and>
     positions (run_schedule [3, 3] (s\<lparr>positions := (positions s)(3 := Reg_test 6 88)\<rparr>)) 3 = Outside_array"
proof -
  let ?s = "run_schedule [1, 2, 1, 2, 1, 2, 1, 2]
    (race (Unreg_scan 5 0) (Unreg_scan 5 0) \<lparr>tab_arr = \<lparr>ci_id = 5, ci_cmd = 77\<rparr> # replicate 63 no_cmd, tab_num = 1\<rparr>)"
  have "positions ?s 1 = Returned_cmd 77 \<and> positions ?s 2 = Returned_cmd 77 \<and> num_cmd ?s = -1 \<and>
     positions (run_schedule [3, 3] (?s\<lparr>positions := (positions ?s)(3 := Reg_test 6 88)\<rparr>)) 3 = Outside_array"
    by (simp add: race_def at_array_def)
  with schedule_steps show ?thesis by blast
qed



section \<open>The condition variable\<close>

text \<open>
  \<open>Condition\<close> of \<open>sync.h\<close> has a mutex of its own that nothing ever locks. POSIX leaves \<open>pthread_cond_wait\<close>
  undefined when the caller does not hold the mutex.
\<close>

record condition =
  cond_owner :: "nat option"
  cond_waiting :: "nat list"

definition new_Condition :: condition where
  "new_Condition = \<lparr>cond_owner = None, cond_waiting = []\<rparr>"

datatype cond_fault = Mutex_not_held

definition Condition_wait :: "nat \<Rightarrow> condition \<Rightarrow> cond_fault + condition" where
  "Condition_wait t c =
     (if cond_owner c = Some t then Inr \<lparr>cond_owner = None, cond_waiting = cond_waiting c @ [t]\<rparr> else Inl Mutex_not_held)"

text \<open>A signal wakes one of the waiting threads, and does nothing when there is none.\<close>

definition Condition_signal :: "condition \<Rightarrow> condition" where
  "Condition_signal c = c\<lparr>cond_waiting := tl (cond_waiting c)\<rparr>"

text \<open>No sequence of uses of the class makes a wait defined.\<close>

lemma wait_never_defined: "Condition_wait t ((Condition_signal ^^ n) new_Condition) = Inl Mutex_not_held"
proof -
  have "cond_owner ((Condition_signal ^^ n) new_Condition) = None"
    by (induction n) (simp_all add: Condition_signal_def new_Condition_def)
  then show ?thesis by (simp add: Condition_wait_def)
qed

text \<open>
  Even where the missing mutex does no harm, there is no state that remembers an event: \<open>requestEvent\<close> sends
  its request and then waits, and an event that is handled in between signals nobody. The positions of the
  requesting thread, with the number of events that are still to come.
\<close>

datatype request_pc = Request_built | Request_sent | Request_waiting | Request_answered

inductive request_step :: "request_pc \<times> nat \<Rightarrow> request_pc \<times> nat \<Rightarrow> bool" where
  send: "request_step (Request_built, n) (Request_sent, n)"
| wait: "request_step (Request_sent, n) (Request_waiting, n)"
| early: "request_step (Request_sent, Suc n) (Request_sent, n)"
| signal: "request_step (Request_waiting, Suc n) (Request_answered, n)"

inductive_cases request_waitingE: "request_step (Request_waiting, n) s"

lemma early_event_blocks:
  "request_step\<^sup>*\<^sup>* (Request_built, 1) (Request_waiting, 0) \<and> \<not> request_step (Request_waiting, 0) s"
proof
  have "request_step\<^sup>*\<^sup>* (Request_built, 1) (Request_sent, 1)" using request_step.send by blast
  also have "request_step\<^sup>*\<^sup>* \<dots> (Request_sent, 0)" using request_step.early [of 0] by auto
  also have "request_step\<^sup>*\<^sup>* \<dots> (Request_waiting, 0)" using request_step.wait by blast
  finally show "request_step\<^sup>*\<^sup>* (Request_built, 1) (Request_waiting, 0)" .
  show "\<not> request_step (Request_waiting, 0) s" by (auto elim: request_waitingE)
qed

end
