(* ===== verification/Hal_Lifetimes.thy ===== *)
theory Hal_Lifetimes
  imports Hal_Session Hal_Threads
begin

text \<open>
  The life of a command while the event loop and any number of callers of the HAL run at the same time. The
  table operations are steps of their own (for the handler table \<open>Hal_Threads\<close> shows that they are); between any
  two of them another thread may run. The reference that the dispatcher takes keeps a command alive while
  its handler runs, even when a caller cancels it meanwhile.
\<close>

section \<open>The threads\<close>

text \<open>
  Where a caller is: outside of the HAL; in the function that starts a command, with the events that
  are still to be registered; undoing a start that failed, with the events that are still to be removed; or
  in possession of a command that it has taken out of the table, with the events that \<open>cancel\<close> is still to
  remove.
\<close>

datatype caller_pc = No_call | Starting ptr "int list" | Undoing ptr "int list" | Cancelling ptr "int list"

text \<open>
  Where the event loop is: it waits, runs the handler of a command, completes a measurement, or has taken
  the command of the measurement out of the table and is to drop the reference of the table.
\<close>

datatype loop_pc = Polling | Handling ptr | Completing ptr | Dropping ptr

text \<open>The callers are numbered.\<close>

record life =
  hal :: hal_state
  callers :: "nat \<Rightarrow> caller_pc"
  loop :: loop_pc

fun starts :: "caller_pc \<Rightarrow> ptr \<Rightarrow> bool" where
  "starts (Starting p es) q \<longleftrightarrow> q = p"
| "starts (Undoing p es) q \<longleftrightarrow> q = p"
| "starts _ q \<longleftrightarrow> False"

fun cancels :: "caller_pc \<Rightarrow> ptr \<Rightarrow> bool" where
  "cancels (Cancelling p es) q \<longleftrightarrow> q = p"
| "cancels _ q \<longleftrightarrow> False"

fun holds :: "loop_pc \<Rightarrow> ptr \<Rightarrow> bool" where
  "holds (Handling p) q \<longleftrightarrow> q = p"
| "holds (Completing p) q \<longleftrightarrow> q = p"
| "holds (Dropping p) q \<longleftrightarrow> q = p"
| "holds Polling q \<longleftrightarrow> False"

fun drops :: "loop_pc \<Rightarrow> ptr \<Rightarrow> bool" where
  "drops (Dropping p) q \<longleftrightarrow> q = p"
| "drops _ q \<longleftrightarrow> False"

abbreviation htabs :: "life \<Rightarrow> hal_tabs" where
  "htabs s \<equiv> tabs (hal s)"

abbreviation refs_of :: "life \<Rightarrow> refs" where
  "refs_of s \<equiv> live (hal s)"

definition with_tabs :: "hal_tabs \<Rightarrow> life \<Rightarrow> life" where
  "with_tabs t s = s\<lparr>hal := (hal s)\<lparr>tabs := t\<rparr>\<rparr>"

definition with_refs :: "refs \<Rightarrow> life \<Rightarrow> life" where
  "with_refs r s = s\<lparr>hal := (hal s)\<lparr>live := r\<rparr>\<rparr>"

definition goes_to :: "nat \<Rightarrow> caller_pc \<Rightarrow> life \<Rightarrow> life" where
  "goes_to c pc s = s\<lparr>callers := (callers s)(c := pc)\<rparr>"

text \<open>Some caller starts, or has cancelled, a command.\<close>

definition starting :: "life \<Rightarrow> ptr \<Rightarrow> bool" where
  "starting s p \<longleftrightarrow> (\<exists>c. starts (callers s c) p)"

definition cancelling :: "life \<Rightarrow> ptr \<Rightarrow> bool" where
  "cancelling s p \<longleftrightarrow> (\<exists>c. cancels (callers s c) p)"

definition disjoint_events :: "(ptr \<Rightarrow> command) \<Rightarrow> ptr \<Rightarrow> ptr \<Rightarrow> bool" where
  "disjoint_events obj p q \<longleftrightarrow> set (command_events (obj p)) \<inter> set (command_events (obj q)) = {}"

text \<open>
  \<open>obj\<close> and \<open>ident\<close> are class and id of the commands. A command is created at an unused address, with an id
  that no command alive has, while nobody handles its events and no other caller starts a command for them. A
  measurement completes only after its request was accepted. When the callers are \<open>patient\<close>, nobody cancels a
  command before the function that starts it has returned.
\<close>

inductive life_step :: "bool \<Rightarrow> ptr \<Rightarrow> (ptr \<Rightarrow> command) \<Rightarrow> (ptr \<Rightarrow> int) \<Rightarrow> life \<Rightarrow> life \<Rightarrow> bool"
  for patient func obj ident where
  start: "callers s c = No_call \<Longrightarrow> p \<noteq> NULL \<Longrightarrow> refs_of s p = 0 \<Longrightarrow> \<forall>q. refs_of s q > 0 \<longrightarrow> ident q \<noteq> ident p \<Longrightarrow>
    no_handler (command_events (obj p)) (htabs s) \<Longrightarrow>
    \<forall>q. starting s q \<longrightarrow> disjoint_events obj p q \<Longrightarrow>
    wifi_register_cmd (ident p) p (htabs s) = (WIFI_SUCCESS, t) \<Longrightarrow>
    life_step patient func obj ident s
      (goes_to c (Starting p (command_events (obj p))) (with_refs ((refs_of s)(p := 1)) (with_tabs t s)))"
| register: "callers s c = Starting p (e # es) \<Longrightarrow> wifi_register_vendor_handler GOOGLE_OUI e func p (htabs s) = (r, t) \<Longrightarrow>
    life_step patient func obj ident s (goes_to c (Starting p es) (with_tabs t s))"
| started: "callers s c = Starting p [] \<Longrightarrow> life_step patient func obj ident s (goes_to c No_call s)"
| fail: "callers s c = Starting p es \<Longrightarrow>
    life_step patient func obj ident s (goes_to c (Undoing p (command_events (obj p))) s)"
| undo: "callers s c = Undoing p (e # es) \<Longrightarrow>
    life_step patient func obj ident s
      (goes_to c (Undoing p es) (with_tabs (wifi_unregister_vendor_handler GOOGLE_OUI e (htabs s)) s))"
| undone: "callers s c = Undoing p [] \<Longrightarrow> wifi_unregister_cmd (ident p) (htabs s) = (q, t) \<Longrightarrow>
    life_step patient func obj ident s (goes_to c (Cancelling p []) (with_tabs t s))"
| cancel: "callers s c = No_call \<Longrightarrow> wifi_unregister_cmd i (htabs s) = (p, t) \<Longrightarrow> p \<noteq> NULL \<Longrightarrow>
    set es = set (command_events (obj p)) \<Longrightarrow> patient \<longrightarrow> \<not> starting s p \<Longrightarrow>
    life_step patient func obj ident s (goes_to c (Cancelling p es) (with_tabs t s))"
| unregister: "callers s c = Cancelling p (e # es) \<Longrightarrow>
    life_step patient func obj ident s
      (goes_to c (Cancelling p es) (with_tabs (wifi_unregister_vendor_handler GOOGLE_OUI e (htabs s)) s))"
| cancelled: "callers s c = Cancelling p [] \<Longrightarrow>
    life_step patient func obj ident s (goes_to c No_call (with_refs (releaseRef p (refs_of s)) s))"
| dispatch: "loop s = Polling \<Longrightarrow> find (ev_matches ev) (handlers (htabs s)) = Some cb \<Longrightarrow>
    life_step patient func obj ident s ((with_refs (addRef (cb_arg cb) (refs_of s)) s)\<lparr>loop := Handling (cb_arg cb)\<rparr>)"
| handled: "loop s = Handling p \<Longrightarrow>
    life_step patient func obj ident s ((with_refs (releaseRef p (refs_of s)) s)\<lparr>loop := Polling\<rparr>)"
| complete: "loop s = Handling p \<Longrightarrow> obj p = Rtt_command cs \<Longrightarrow> \<not> starting s p \<Longrightarrow>
    life_step patient func obj ident s
      ((with_tabs (wifi_unregister_vendor_handler GOOGLE_OUI RTT_EVENT_COMPLETE (htabs s)) s)\<lparr>loop := Completing p\<rparr>)"
| completed: "loop s = Completing p \<Longrightarrow> wifi_unregister_cmd (ident p) (htabs s) = (q, t) \<Longrightarrow>
    life_step patient func obj ident s ((with_tabs t s)\<lparr>loop := if q \<noteq> NULL then Dropping q else Handling p\<rparr>)"
| dropped: "loop s = Dropping p \<Longrightarrow>
    life_step patient func obj ident s ((with_refs (releaseRef p (refs_of s)) s)\<lparr>loop := Handling p\<rparr>)"

definition new_life :: "cb_info \<Rightarrow> cmd_info \<Rightarrow> life" where
  "new_life cb ci = \<lparr>hal = \<lparr>tabs = init_tabs cb ci, live = (\<lambda>_. 0)\<rparr>, callers = (\<lambda>_. No_call), loop = Polling\<rparr>"

section \<open>Who holds a reference\<close>

text \<open>
  Every reference has an owner: the command table, the event loop (it has two while it drops the one of the
  table), or the caller that has taken the command out of the table. Every handler belongs to a command that the table or such a caller owns. No two callers
  work on the same command, and no two start commands for the same event.
\<close>

abbreviation in_table :: "life \<Rightarrow> ptr \<Rightarrow> bool" where
  "in_table s p \<equiv> p \<in> ci_cmd ` set (commands (htabs s))"

definition refs_owned :: "life \<Rightarrow> bool" where
  "refs_owned s \<longleftrightarrow> (\<forall>p. refs_of s p =
     of_bool (in_table s p) + of_bool (holds (loop s) p) + of_bool (drops (loop s) p) + of_bool (cancelling s p))"

definition table_ok :: "(ptr \<Rightarrow> int) \<Rightarrow> life \<Rightarrow> bool" where
  "table_ok ident s \<longleftrightarrow> hal_inv (htabs s) \<and> distinct (map ci_cmd (commands (htabs s))) \<and>
     (\<forall>ci \<in> set (commands (htabs s)). ci_cmd ci \<noteq> NULL \<and> ci_id ci = ident (ci_cmd ci)) \<and>
     (\<forall>p q. refs_of s p > 0 \<and> refs_of s q > 0 \<and> ident p = ident q \<longrightarrow> p = q)"

definition may_handle :: "life \<Rightarrow> ptr \<Rightarrow> int \<Rightarrow> bool" where
  "may_handle s p e \<longleftrightarrow> loop s \<noteq> Completing p \<and> (in_table s p \<or> cancelling s p) \<and>
     (\<forall>c es. callers s c = Cancelling p es \<or> callers s c = Undoing p es \<longrightarrow> e \<in> set es)"

definition handlers_ok :: "ptr \<Rightarrow> (ptr \<Rightarrow> command) \<Rightarrow> life \<Rightarrow> bool" where
  "handlers_ok func obj s \<longleftrightarrow> (\<forall>e. length (filter (handles e) (handlers (htabs s))) \<le> 1) \<and>
     (\<forall>cb \<in> set (handlers (htabs s)). \<exists>p e. cb = event_cb func p e \<and> e \<in> set (command_events (obj p)) \<and> may_handle s p e)"

definition caller_ok :: "(ptr \<Rightarrow> command) \<Rightarrow> life \<Rightarrow> caller_pc \<Rightarrow> bool" where
  "caller_ok obj s pc \<longleftrightarrow> (case pc of
     No_call \<Rightarrow> True
   | Starting p es \<Rightarrow> in_table s p \<and> loop s \<noteq> Completing p \<and> distinct es \<and> set es \<subseteq> set (command_events (obj p)) \<and>
       no_handler es (htabs s)
   | Undoing p es \<Rightarrow> in_table s p \<and> loop s \<noteq> Completing p
   | Cancelling p es \<Rightarrow> \<not> in_table s p)"

definition works :: "caller_pc \<Rightarrow> ptr \<Rightarrow> bool" where
  "works pc p \<longleftrightarrow> starts pc p \<or> cancels pc p"

definition apart :: "(ptr \<Rightarrow> command) \<Rightarrow> life \<Rightarrow> bool" where
  "apart obj s \<longleftrightarrow> (\<forall>c d p. c \<noteq> d \<longrightarrow> works (callers s c) p \<longrightarrow> \<not> works (callers s d) p) \<and>
     (\<forall>c d p q. c \<noteq> d \<longrightarrow> starts (callers s c) p \<longrightarrow> starts (callers s d) q \<longrightarrow> disjoint_events obj p q)"

definition life_inv :: "ptr \<Rightarrow> (ptr \<Rightarrow> command) \<Rightarrow> (ptr \<Rightarrow> int) \<Rightarrow> life \<Rightarrow> bool" where
  "life_inv func obj ident s \<longleftrightarrow> refs_owned s \<and> table_ok ident s \<and> handlers_ok func obj s \<and>
     (\<forall>c. caller_ok obj s (callers s c)) \<and> apart obj s"

section \<open>The steps keep it\<close>

lemmas with_defs = with_tabs_def with_refs_def

lemma command_events_distinct: "distinct (command_events c)"
  using cmd.distinct_events .

lemma register_effect:
  assumes "hal_inv t0" "wifi_register_vendor_handler GOOGLE_OUI e func p t0 = (r, t)"
  shows "hal_inv t" "cmds t = cmds t0" "handlers t = handlers t0 \<or> handlers t = handlers t0 @ [event_cb func p e]"
  using add_event_cb_spec [OF assms(1), of "event_cb func p e"] assms
  by (auto simp: wifi_register_vendor_handler_def split: if_splits)

lemma unregister_effect:
  assumes "hal_inv t0" "length (filter (handles e) (handlers t0)) \<le> 1"
  shows "hal_inv (wifi_unregister_vendor_handler GOOGLE_OUI e t0)" "cmds (wifi_unregister_vendor_handler GOOGLE_OUI e t0) = cmds t0"
    "handlers (wifi_unregister_vendor_handler GOOGLE_OUI e t0) = filter (\<lambda>cb. \<not> handles e cb) (handlers t0)"
  using assms by (simp_all add: wifi_unregister_vendor_handler_def remove_spec remove_first_filter)

lemma same_image_length:
  assumes "distinct (map f xs)" "\<And>a b. a \<in> set xs \<Longrightarrow> b \<in> set xs \<Longrightarrow> f a = f b"
  shows "length xs \<le> 1"
proof (cases xs rule: remdups_adj.cases)
  case (3 a b ys)
  with assms(1) have "f a \<noteq> f b" by simp
  moreover have "f a = f b" by (rule assms(2)) (simp_all add: 3)
  ultimately show ?thesis by simp
qed simp_all

lemma table_ids_unique:
  assumes "refs_owned s" "table_ok ident s"
  shows "length (filter (\<lambda>ci. ci_id ci = i) (commands (htabs s))) \<le> 1"
proof -
  let ?cs = "commands (htabs s)"
  have "refs_of s (ci_cmd ci) > 0" if "ci \<in> set ?cs" for ci using assms(1) that by (auto simp: refs_owned_def)
  then have "ci_cmd a = ci_cmd b" if "a \<in> set (filter (\<lambda>ci. ci_id ci = i) ?cs)" "b \<in> set (filter (\<lambda>ci. ci_id ci = i) ?cs)" for a b
    using assms(2) that unfolding table_ok_def by auto
  moreover have "distinct (map ci_cmd (filter (\<lambda>ci. ci_id ci = i) ?cs))"
    using assms(2) by (simp add: table_ok_def distinct_map_filter)
  ultimately show ?thesis using same_image_length by blast
qed

text \<open>Taking a command out of the table gives it to exactly one thread.\<close>

lemma take_effect:
  assumes "refs_owned s" "table_ok ident s" "wifi_unregister_cmd i (htabs s) = (q, t)"
  shows "hal_inv t" "event_cbs t = event_cbs (htabs s)"
    "set (commands t) = {ci \<in> set (commands (htabs s)). ci_id ci \<noteq> i}" "distinct (map ci_cmd (commands t))"
    "if q = NULL then \<forall>ci \<in> set (commands (htabs s)). ci_id ci \<noteq> i else ident q = i \<and> in_table s q"
proof -
  have inv: "hal_inv (htabs s)" using assms(2) by (simp add: table_ok_def)
  have q: "q = wifi_get_cmd i (htabs s)" "t = (htabs s)\<lparr>cmds := tab_remove_first (\<lambda>ci. ci_id ci = i) (cmds (htabs s))\<rparr>"
    using assms(3) by (simp_all add: unregister_cmd_tab)
  have cs: "commands t = filter (\<lambda>ci. ci_id ci \<noteq> i) (commands (htabs s))"
    using remove_spec(2) [OF inv] remove_first_filter [OF table_ids_unique [OF assms(1,2)]] q(2) by simp
  show "hal_inv t" "event_cbs t = event_cbs (htabs s)" using remove_spec(1) [OF inv] q(2) by simp_all
  show "set (commands t) = {ci \<in> set (commands (htabs s)). ci_id ci \<noteq> i}" "distinct (map ci_cmd (commands t))"
    using cs assms(2) by (auto simp: table_ok_def distinct_map_filter)
  show "if q = NULL then \<forall>ci \<in> set (commands (htabs s)). ci_id ci \<noteq> i else ident q = i \<and> in_table s q"
    using q(1) assms(2) by (auto simp: get_cmd_spec [OF inv] table_ok_def find_None_iff find_Some_iff split: option.splits)
qed

text \<open>Handlers that are left over are in order when whoever might handle an event still may.\<close>

lemma handlers_ok_keep:
  assumes "handlers_ok func obj s" "handlers (htabs s') = filter P (handlers (htabs s))"
    and "\<And>p e. event_cb func p e \<in> set (handlers (htabs s')) \<Longrightarrow> e \<in> set (command_events (obj p)) \<Longrightarrow>
      may_handle s p e \<Longrightarrow> may_handle s' p e"
  shows "handlers_ok func obj s'"
proof -
  have "length (filter (handles e) (filter P (handlers (htabs s)))) \<le> length (filter (handles e) (handlers (htabs s)))" for e
    using length_filter_le [of P "filter (handles e) (handlers (htabs s))"] by (simp add: filter_filter conj_commute)
  then have "length (filter (handles e) (handlers (htabs s'))) \<le> 1" for e
    using assms(1,2) by (simp only: handlers_ok_def) (metis le_trans)
  moreover have "\<exists>p e. cb = event_cb func p e \<and> e \<in> set (command_events (obj p)) \<and> may_handle s' p e"
    if "cb \<in> set (handlers (htabs s'))" for cb
  proof -
    from that assms(1,2) obtain p e where "cb = event_cb func p e" "e \<in> set (command_events (obj p))" "may_handle s p e"
      by (auto simp: handlers_ok_def)
    with assms(3) that show ?thesis by blast
  qed
  ultimately show ?thesis by (simp add: handlers_ok_def)
qed

lemma table_ok_keep:
  assumes "table_ok ident s" "hal_inv (htabs s')" "distinct (map ci_cmd (commands (htabs s')))"
    and "set (commands (htabs s')) \<subseteq> set (commands (htabs s))" "\<And>p. refs_of s' p > 0 \<Longrightarrow> refs_of s p > 0"
  shows "table_ok ident s'"
  using assms unfolding table_ok_def by blast

lemma table_ok_same:
  assumes "table_ok ident s" "hal_inv (htabs s')" "cmds (htabs s') = cmds (htabs s)" "\<And>p. refs_of s' p > 0 \<Longrightarrow> refs_of s p > 0"
  shows "table_ok ident s'"
  by (rule table_ok_keep [OF assms(1,2) _ _ assms(4)]) (use assms(1,3) in \<open>simp_all add: table_ok_def\<close>)

lemmas handlers_ok_same = handlers_ok_keep [where P = "\<lambda>_. True", simplified]

text \<open>The callers after a step of one of them.\<close>

lemma goes_to_simps [simp]:
  "hal (goes_to c pc s) = hal s" "loop (goes_to c pc s) = loop s" "callers (goes_to c pc s) = (callers s)(c := pc)"
  by (simp_all add: goes_to_def)

lemma with_simps [simp]:
  "tabs (hal (with_tabs t s)) = t" "live (hal (with_tabs t s)) = refs_of s" "callers (with_tabs t s) = callers s"
  "loop (with_tabs t s) = loop s" "tabs (hal (with_refs r s)) = htabs s" "live (hal (with_refs r s)) = r"
  "callers (with_refs r s) = callers s" "loop (with_refs r s) = loop s"
  by (simp_all add: with_tabs_def with_refs_def)

lemma cancelling_upd: "callers s' = (callers s)(c := pc) \<Longrightarrow> cancelling s' p \<longleftrightarrow> cancels pc p \<or> (\<exists>d. d \<noteq> c \<and> cancels (callers s d) p)"
  by (auto simp: cancelling_def)

lemma cancelling_old: "cancelling s p \<longleftrightarrow> cancels (callers s c) p \<or> (\<exists>d. d \<noteq> c \<and> cancels (callers s d) p)"
  by (auto simp: cancelling_def)

lemma cancelling_same: "callers s' = callers s \<Longrightarrow> cancelling s' = cancelling s"
  by (simp add: cancelling_def fun_eq_iff)

lemma works_alone: "apart obj s \<Longrightarrow> works (callers s c) p \<Longrightarrow> d \<noteq> c \<Longrightarrow> \<not> starts (callers s d) p \<and> \<not> cancels (callers s d) p"
  unfolding apart_def works_def by metis

lemma apart_same: "callers s' = callers s \<Longrightarrow> apart obj s' = apart obj s"
  by (simp add: apart_def)

lemma apart_upd:
  assumes "apart obj s" "callers s' = (callers s)(c := pc)"
    and "\<And>p d. works pc p \<Longrightarrow> d \<noteq> c \<Longrightarrow> \<not> works (callers s d) p"
    and "\<And>p q d. starts pc p \<Longrightarrow> d \<noteq> c \<Longrightarrow> starts (callers s d) q \<Longrightarrow> disjoint_events obj p q"
  shows "apart obj s'"
proof -
  have sym: "disjoint_events obj q p" if "disjoint_events obj p q" for p q using that by (auto simp: disjoint_events_def)
  have old: "\<not> works (callers s d) p" "starts (callers s c') p \<Longrightarrow> starts (callers s d) q \<Longrightarrow> disjoint_events obj p q"
    if "c' \<noteq> d" "works (callers s c') p" for c' d p q using assms(1) that by (auto simp: apart_def)
  have "\<not> works (callers s' d) p" if "c' \<noteq> d" "works (callers s' c') p" for c' d p
  proof (cases "d = c")
    case True
    with that assms(2) have "works (callers s c') p" "c' \<noteq> c" by simp_all
    with assms(2,3) True show ?thesis by auto
  next
    case False
    with that assms(2,3) old(1) [of c' d p] show ?thesis by (cases "c' = c") simp_all
  qed
  moreover have "disjoint_events obj p q" if "c' \<noteq> d" "starts (callers s' c') p" "starts (callers s' d) q" for c' d p q
  proof (cases "d = c")
    case True
    with that assms(2) have "starts pc q" "starts (callers s c') p" "c' \<noteq> c" by simp_all
    with assms(4) show ?thesis by (blast intro: sym)
  next
    case False
    with that assms(2) assms(4) [of p d q] old(2) [of c' d p q] show ?thesis by (cases "c' = c") (simp_all add: works_def)
  qed
  ultimately show ?thesis by (simp add: apart_def)
qed

lemma apart_shrinks:
  assumes "apart obj s" "callers s' = (callers s)(c := pc)" "\<And>p. starts pc p \<Longrightarrow> starts (callers s c) p" "\<And>p. cancels pc p \<Longrightarrow> cancels (callers s c) p"
  shows "apart obj s'"
  by (rule apart_upd [OF assms(1,2)]) (use assms(1,3,4) in \<open>(unfold apart_def works_def, metis)+\<close>)

lemma life_invD:
  assumes "life_inv func obj ident s"
  shows "refs_owned s" "table_ok ident s" "handlers_ok func obj s" "caller_ok obj s (callers s c)" "apart obj s"
  using assms by (simp_all add: life_inv_def)

text \<open>What a caller relies on, after a step of another thread.\<close>

lemma caller_ok_keep:
  assumes "caller_ok obj s pc" "loop s' = loop s" "\<And>p. works pc p \<Longrightarrow> in_table s' p = in_table s p"
    and "\<And>p es. pc = Starting p es \<Longrightarrow> no_handler es (htabs s) \<Longrightarrow> no_handler es (htabs s')"
  shows "caller_ok obj s' pc"
  using assms by (cases pc) (auto simp: caller_ok_def works_def)

text \<open>A command that no caller is about to remove may handle every event of its class.\<close>

lemma step_start:
  assumes inv: "life_inv func obj ident s" and s: "callers s c = No_call" "p \<noteq> NULL" "refs_of s p = 0"
    "\<forall>q. refs_of s q > 0 \<longrightarrow> ident q \<noteq> ident p" "no_handler (command_events (obj p)) (htabs s)"
    "\<forall>q. starting s q \<longrightarrow> disjoint_events obj p q"
    "wifi_register_cmd (ident p) p (htabs s) = (WIFI_SUCCESS, t)"
  shows "life_inv func obj ident
    (goes_to c (Starting p (command_events (obj p))) (with_refs ((refs_of s)(p := 1)) (with_tabs t s)))" (is "life_inv func obj ident ?s")
proof -
  have t: "hal_inv t" "commands t = commands (htabs s) @ [\<lparr>ci_id = ident p, ci_cmd = p\<rparr>]" "event_cbs t = event_cbs (htabs s)"
    using register_cmd_spec [of "htabs s" "ident p" p] inv s(7)
    by (auto simp: life_inv_def table_ok_def wifi_codes split: if_splits)
  have p: "\<not> in_table s p" "\<not> holds (loop s) p" "\<not> cancelling s p" "\<not> drops (loop s) p"
    using life_invD(1) [OF inv] s(3) by (auto simp: refs_owned_def of_bool_def split: if_splits)
  then have nobody: "\<not> works (callers s d) p" for d
    using life_invD(4) [OF inv, of d] p(1,3) unfolding cancelling_def
    by (cases "callers s d") (auto simp: works_def caller_ok_def dest: spec [of _ d])
  have same: "cancelling ?s q = cancelling s q" for q
    using s(1) cancelling_upd [of ?s s c "Starting p (command_events (obj p))" q] cancelling_old [of s q c] by simp
  have "refs_owned ?s" using life_invD(1) [OF inv] t p same by (auto simp: refs_owned_def)
  moreover have "table_ok ident ?s"
    using life_invD(2) [OF inv] t p s(2,4) by (auto simp: table_ok_def) metis+
  moreover have "handlers_ok func obj ?s"
    by (rule handlers_ok_same [of func obj s]) (use inv t s(1) same in \<open>auto simp: life_inv_def may_handle_def split: if_splits\<close>)
  moreover have "caller_ok obj ?s (callers ?s d)" for d
  proof (cases "d = c")
    case True
    then show ?thesis using t p s command_events_distinct by (auto simp: caller_ok_def no_handler_def)
  next
    case False
    then show ?thesis
      by (simp, intro caller_ok_keep [OF life_invD(4) [OF inv, of d]])
        (use t nobody [of d] in \<open>auto simp: no_handler_def works_def\<close>)
  qed
  moreover have "apart obj ?s"
    by (rule apart_upd [OF life_invD(5) [OF inv], of _ c "Starting p (command_events (obj p))"])
      (use nobody s(6) in \<open>auto simp: works_def starting_def\<close>)
  ultimately show ?thesis by (simp add: life_inv_def)
qed

lemma handlers_ok_add:
  assumes "handlers_ok func obj s" "handlers (htabs s') = handlers (htabs s) @ [event_cb func p e]"
    and "\<And>q e. may_handle s q e \<Longrightarrow> may_handle s' q e" "may_handle s' p e" "e \<in> set (command_events (obj p))"
    and "filter (handles e) (handlers (htabs s)) = []"
  shows "handlers_ok func obj s'"
proof -
  have "\<exists>q e'. cb = event_cb func q e' \<and> e' \<in> set (command_events (obj q)) \<and> may_handle s' q e'"
    if "cb \<in> set (handlers (htabs s))" for cb using that assms(1,3) by (fastforce simp: handlers_ok_def)
  with assms show ?thesis by (auto simp: handlers_ok_def handles_iff)
qed

lemma step_register:
  assumes inv: "life_inv func obj ident s" and s: "callers s c = Starting p (e # es)"
    "wifi_register_vendor_handler GOOGLE_OUI e func p (htabs s) = (r, t)"
  shows "life_inv func obj ident (goes_to c (Starting p es) (with_tabs t s))" (is "life_inv func obj ident ?s")
proof -
  have "hal_inv (htabs s)" using life_invD(2) [OF inv] by (simp add: table_ok_def)
  note t = register_effect [OF this s(2)]
  have c: "in_table s p" "loop s \<noteq> Completing p" "distinct (e # es)" "set (e # es) \<subseteq> set (command_events (obj p))"
    "no_handler (e # es) (htabs s)" using life_invD(4) [OF inv, of c] s(1) by (auto simp: caller_ok_def)
  have same: "cancelling ?s q = cancelling s q" for q
    using s(1) cancelling_upd [of ?s s c "Starting p es" q] cancelling_old [of s q c] by simp
  have may: "may_handle ?s q e'" if "may_handle s q e'" for q e' using that s(1) t(2) same by (auto simp: may_handle_def)
  have "refs_owned ?s" using life_invD(1) [OF inv] t(2) same by (simp add: refs_owned_def)
  moreover have "table_ok ident ?s"
    by (rule table_ok_same [of ident s]) (use life_invD(2) [OF inv] t in simp_all)
  moreover have "caller_ok obj ?s (callers ?s d)" for d
  proof (cases "d = c")
    case True
    then show ?thesis using c t by (auto simp: caller_ok_def no_handler_def handles_iff)
  next
    case False
    have "no_handler es' t" if d: "callers s d = Starting q es'" "no_handler es' (htabs s)" for q es'
    proof -
      have "disjoint_events obj p q" using life_invD(5) [OF inv] s(1) d(1) False
        unfolding apart_def by (metis starts.simps(1))
      moreover have "set es' \<subseteq> set (command_events (obj q))" using life_invD(4) [OF inv, of d] d(1) by (simp add: caller_ok_def)
      ultimately have "e \<notin> set es'" using c(4) by (auto simp: disjoint_events_def)
      then have "\<not> handles x (event_cb func p e)" if "x \<in> set es'" for x using that by (auto simp: handles_iff)
      with t(3) d(2) show ?thesis unfolding no_handler_def by auto
    qed
    with False show ?thesis
      by (simp, intro caller_ok_keep [OF life_invD(4) [OF inv, of d]]) (use t(2) in auto)
  qed
  moreover have "apart obj ?s"
    by (rule apart_shrinks [OF life_invD(5) [OF inv], of _ c "Starting p es"]) (use s(1) in auto)
  moreover have "handlers_ok func obj ?s"
  proof (cases "handlers t = handlers (htabs s)")
    case True
    show ?thesis by (rule handlers_ok_same [OF life_invD(3) [OF inv]]) (use True may in auto)
  next
    case False
    have "may_handle ?s p e" unfolding may_handle_def
    proof (intro conjI allI impI)
      fix d es' assume d: "callers ?s d = Cancelling p es' \<or> callers ?s d = Undoing p es'"
      then have "d \<noteq> c" by auto
      then show "e \<in> set es'" using d works_alone [OF life_invD(5) [OF inv], of c p d] s(1) by (auto simp: works_def)
    qed (use c t(2) in auto)
    moreover have "filter (handles e) (handlers (htabs s)) = []" using c(5) by (auto simp: no_handler_def filter_empty_conv)
    ultimately show ?thesis using handlers_ok_add [OF life_invD(3) [OF inv], where s' = ?s and p = p and e = e] t(3) False c(4) may by simp
  qed
  ultimately show ?thesis by (simp add: life_inv_def)
qed

lemma life_inv_hal: "life_inv func obj ident s \<Longrightarrow> hal_inv (htabs s)"
  by (simp add: life_inv_def table_ok_def)

lemma no_handler_unregister: "hal_inv t \<Longrightarrow> no_handler es t \<Longrightarrow> no_handler es (wifi_unregister_vendor_handler v e t)"
  using set_remove_first_subset by (fastforce simp: no_handler_def handlers_unregister_vendor)

lemma cmds_unregister [simp]: "cmds (wifi_unregister_vendor_handler v e t) = cmds t"
  by (simp add: wifi_unregister_vendor_handler_def)

text \<open>Removing the handler of an event.\<close>

lemma unregister_keeps:
  assumes inv: "life_inv func obj ident s"
    and s': "htabs s' = wifi_unregister_vendor_handler GOOGLE_OUI e (htabs s)" "refs_of s' = refs_of s"
    and same: "\<And>p. holds (loop s') p = holds (loop s) p" "\<And>p. drops (loop s') p = drops (loop s) p" "\<And>p. cancelling s' p = cancelling s p"
    and may: "\<And>p e'. e' \<noteq> e \<Longrightarrow> e' \<in> set (command_events (obj p)) \<Longrightarrow> may_handle s p e' \<Longrightarrow> may_handle s' p e'"
    and ok: "\<And>c. caller_ok obj s' (callers s' c)" "apart obj s'"
  shows "life_inv func obj ident s'"
proof -
  have "hal_inv (htabs s)" "length (filter (handles e) (handlers (htabs s))) \<le> 1"
    using inv by (simp_all add: life_inv_def table_ok_def handlers_ok_def)
  note t = unregister_effect [OF this, folded s'(1)]
  have "refs_owned s'" using inv t(2) s'(2) same by (simp add: life_inv_def refs_owned_def)
  moreover have "table_ok ident s'" by (rule table_ok_same [of ident s]) (use inv t s'(2) in \<open>simp_all add: life_inv_def\<close>)
  moreover have "handlers_ok func obj s'"
    by (rule handlers_ok_keep [OF _ t(3)]) (use inv t(3) may in \<open>auto simp: life_inv_def handles_iff\<close>)
  ultimately show ?thesis using ok by (simp add: life_inv_def)
qed

text \<open>A caller that has removed the handler of an event and goes on with the other events.\<close>

lemma caller_unregisters:
  assumes inv: "life_inv func obj ident s"
    and s: "callers s c = Undoing p (e # es) \<and> pc = Undoing p es \<or> callers s c = Cancelling p (e # es) \<and> pc = Cancelling p es"
  shows "life_inv func obj ident (goes_to c pc (with_tabs (wifi_unregister_vendor_handler GOOGLE_OUI e (htabs s)) s))"
    (is "life_inv func obj ident ?s")
proof -
  have same: "cancelling ?s q = cancelling s q" for q
    using s cancelling_upd [of ?s s c pc q] cancelling_old [of s q c] by auto
  have keep: "caller_ok obj s pc' \<Longrightarrow> caller_ok obj ?s pc'" for pc'
    by (rule caller_ok_keep) (auto intro: no_handler_unregister [OF life_inv_hal [OF inv]])
  show ?thesis
  proof (rule unregister_keeps [OF inv, of _ e])
    fix q e' assume e': "e' \<noteq> e" "may_handle s q e'"
    then have old: "e' \<in> set es'" if "callers s d = Cancelling q es' \<or> callers s d = Undoing q es'" for d es'
      using that unfolding may_handle_def by blast
    have "e' \<in> set es'" if "callers ?s d = Cancelling q es' \<or> callers ?s d = Undoing q es'" for d es'
    proof (cases "d = c")
      case True
      with that s have "callers s c = Cancelling q (e # es') \<or> callers s c = Undoing q (e # es')" by auto
      with old e'(1) show ?thesis by fastforce
    next
      case False
      with that old show ?thesis by auto
    qed
    with e'(2) same show "may_handle ?s q e'" by (simp add: may_handle_def)
  next
    fix d
    have "caller_ok obj s pc" using life_invD(4) [OF inv, of c] s by (auto simp: caller_ok_def)
    with keep life_invD(4) [OF inv, of d] show "caller_ok obj ?s (callers ?s d)" by simp
  next
    show "apart obj ?s" by (rule apart_shrinks [OF life_invD(5) [OF inv], of _ c pc]) (use s in auto)
  qed (use same in simp_all)
qed

lemma step_undo:
  "life_inv func obj ident s \<Longrightarrow> callers s c = Undoing p (e # es) \<Longrightarrow>
   life_inv func obj ident (goes_to c (Undoing p es) (with_tabs (wifi_unregister_vendor_handler GOOGLE_OUI e (htabs s)) s))"
  by (rule caller_unregisters) auto

lemma step_unregister:
  "life_inv func obj ident s \<Longrightarrow> callers s c = Cancelling p (e # es) \<Longrightarrow>
   life_inv func obj ident (goes_to c (Cancelling p es) (with_tabs (wifi_unregister_vendor_handler GOOGLE_OUI e (htabs s)) s))"
  by (rule caller_unregisters) auto

lemma step_complete:
  assumes inv: "life_inv func obj ident s" and s: "loop s = Handling p" "obj p = Rtt_command cs" "\<not> starting s p"
  shows "life_inv func obj ident
    ((with_tabs (wifi_unregister_vendor_handler GOOGLE_OUI RTT_EVENT_COMPLETE (htabs s)) s)\<lparr>loop := Completing p\<rparr>)"
    (is "life_inv func obj ident ?s")
proof -
  have same: "cancelling ?s q = cancelling s q" for q by (simp add: cancelling_def)
  have "caller_ok obj ?s (callers ?s d)" for d
    using life_invD(4) [OF inv, of d] s(3) no_handler_unregister [OF life_inv_hal [OF inv]]
    by (cases "callers s d") (auto simp: caller_ok_def starting_def dest: spec [of _ d])
  moreover have "apart obj ?s" using life_invD(5) [OF inv] by (simp add: apart_def)
  moreover have "may_handle ?s q e'" if "e' \<noteq> RTT_EVENT_COMPLETE" "e' \<in> set (command_events (obj q))" "may_handle s q e'" for q e'
    using that s same by (auto simp: may_handle_def)
  ultimately show ?thesis by (intro unregister_keeps [OF inv, of _ RTT_EVENT_COMPLETE]) (use s same in auto)
qed

text \<open>Steps that only change the position of a caller.\<close>

lemma step_caller:
  assumes inv: "life_inv func obj ident s" and "\<And>p. cancels pc p = cancels (callers s c) p" "\<And>p. starts pc p \<Longrightarrow> starts (callers s c) p"
    and "caller_ok obj s pc" "\<And>p e es. pc = Undoing p es \<Longrightarrow> e \<in> set (command_events (obj p)) \<Longrightarrow> e \<in> set es" "\<And>p es. pc \<noteq> Cancelling p es"
  shows "life_inv func obj ident (goes_to c pc s)" (is "life_inv func obj ident ?s")
proof -
  have same: "cancelling ?s q = cancelling s q" for q
    using assms(2) cancelling_upd [of ?s s c pc q] cancelling_old [of s q c] by simp
  have "handlers_ok func obj ?s"
    by (rule handlers_ok_same [OF life_invD(3) [OF inv]]) (use assms(5,6) same in \<open>auto simp: may_handle_def\<close>)
  moreover have "table_ok ident ?s"
    by (rule table_ok_same [of ident s]) (use life_invD(2) [OF inv] life_inv_hal [OF inv] in simp_all)
  moreover have "caller_ok obj ?s (callers ?s d)" for d
    using life_invD(4) [OF inv, of d] assms(4) by (auto intro: caller_ok_keep)
  moreover have "apart obj ?s" by (rule apart_shrinks [OF life_invD(5) [OF inv], of _ c pc]) (use assms(2,3) in auto)
  ultimately show ?thesis using life_invD(1) [OF inv] same by (simp add: life_inv_def refs_owned_def)
qed

lemma step_started:
  "life_inv func obj ident s \<Longrightarrow> callers s c = Starting p [] \<Longrightarrow> life_inv func obj ident (goes_to c No_call s)"
  by (rule step_caller) (auto simp: caller_ok_def)

lemma step_fail:
  assumes inv: "life_inv func obj ident s" and s: "callers s c = Starting p es"
  shows "life_inv func obj ident (goes_to c (Undoing p (command_events (obj p))) s)"
  by (rule step_caller [OF inv]) (use s life_invD(4) [OF inv, of c] in \<open>auto simp: caller_ok_def\<close>)

text \<open>Releasing a reference that its owner gives up.\<close>

lemma release_keeps:
  assumes inv: "life_inv func obj ident s" and s': "htabs s' = htabs s" "refs_of s' = releaseRef p (refs_of s)" "refs_owned s'"
    and "\<And>q e. may_handle s q e \<Longrightarrow> may_handle s' q e" "\<And>c. caller_ok obj s' (callers s' c)" "apart obj s'"
  shows "life_inv func obj ident s'"
proof -
  have "table_ok ident s'" by (rule table_ok_same [of ident s])
      (use inv life_inv_hal [OF inv] s'(1,2) in \<open>auto simp: life_inv_def releaseRef_def split: if_splits\<close>)
  moreover have "handlers_ok func obj s'"
    by (rule handlers_ok_same [of func obj s]) (use inv assms(5) s'(1) in \<open>simp_all add: life_inv_def\<close>)
  ultimately show ?thesis using s'(3) assms(6,7) by (simp add: life_inv_def)
qed

lemma step_cancelled:
  assumes inv: "life_inv func obj ident s" and s: "callers s c = Cancelling p []"
  shows "life_inv func obj ident (goes_to c No_call (with_refs (releaseRef p (refs_of s)) s))" (is "life_inv func obj ident ?s")
proof -
  have alone: "\<not> cancels (callers s d) p" if "d \<noteq> c" for d
    using works_alone [OF life_invD(5) [OF inv], of c p d] s that by (simp add: works_def)
  have canc: "cancelling ?s q \<longleftrightarrow> cancelling s q \<and> q \<noteq> p" for q
    using s alone cancelling_upd [of ?s s c No_call q] cancelling_old [of s q c] by auto
  have "cancelling s p" using s cancelling_old [of s p c] by simp
  then have "refs_owned ?s" using life_invD(1) [OF inv] canc by (auto simp: refs_owned_def releaseRef_def)
  moreover have "may_handle ?s q e" if "may_handle s q e" for q e
  proof -
    have "q \<noteq> p" using that s unfolding may_handle_def by (metis empty_iff empty_set)
    with that canc show ?thesis by (auto simp: may_handle_def)
  qed
  moreover have "caller_ok obj ?s (callers ?s d)" for d
    using caller_ok_keep [OF life_invD(4) [OF inv, of d], of ?s] by (cases "d = c") (simp_all add: caller_ok_def [of _ _ No_call])
  moreover have "apart obj ?s" by (rule apart_shrinks [OF life_invD(5) [OF inv], of _ c No_call]) simp_all
  ultimately show ?thesis by (intro release_keeps [OF inv]) simp_all
qed

text \<open>A step of the event loop that keeps the table and lets the callers be.\<close>

lemma loop_callers_ok:
  assumes "life_inv func obj ident s" "htabs s' = htabs s" "callers s' = callers s" "\<And>p. loop s' \<noteq> Completing p"
  shows "caller_ok obj s' (callers s' c)" "apart obj s'"
  using life_invD(4) [OF assms(1), of c] life_invD(5) [OF assms(1)] assms(2-4) apart_same [of s' s]
  by (auto simp: caller_ok_def split: caller_pc.splits)

lemma step_handled:
  assumes inv: "life_inv func obj ident s" and s: "loop s = Handling p"
  shows "life_inv func obj ident ((with_refs (releaseRef p (refs_of s)) s)\<lparr>loop := Polling\<rparr>)" (is "life_inv func obj ident ?s")
proof -
  have same: "cancelling ?s q = cancelling s q" for q by (simp add: cancelling_def)
  have "refs_owned ?s" using life_invD(1) [OF inv] s same by (auto simp: refs_owned_def releaseRef_def)
  moreover have "may_handle ?s q e" if "may_handle s q e" for q e using that same by (auto simp: may_handle_def)
  ultimately show ?thesis
    by (intro release_keeps [OF inv]) (use loop_callers_ok [OF inv, of ?s] in simp_all)
qed

lemma step_dropped:
  assumes inv: "life_inv func obj ident s" and s: "loop s = Dropping p"
  shows "life_inv func obj ident ((with_refs (releaseRef p (refs_of s)) s)\<lparr>loop := Handling p\<rparr>)" (is "life_inv func obj ident ?s")
proof -
  have same: "cancelling ?s q = cancelling s q" for q by (simp add: cancelling_def)
  have "refs_owned ?s" using life_invD(1) [OF inv] s same by (auto simp: refs_owned_def releaseRef_def)
  moreover have "may_handle ?s q e" if "may_handle s q e" for q e using that same by (auto simp: may_handle_def)
  ultimately show ?thesis
    by (intro release_keeps [OF inv]) (use loop_callers_ok [OF inv, of ?s] in simp_all)
qed

lemma handler_alive:
  assumes "life_inv func obj ident s" "cb \<in> set (handlers (htabs s))"
  shows "refs_of s (cb_arg cb) > 0"
proof -
  from assms obtain p e where "cb = event_cb func p e" "may_handle s p e" by (auto simp: life_inv_def handlers_ok_def)
  then have "in_table s (cb_arg cb) \<or> cancelling s (cb_arg cb)" by (auto simp: may_handle_def)
  with assms(1) show ?thesis by (auto simp: life_inv_def refs_owned_def)
qed

lemma step_dispatch:
  assumes inv: "life_inv func obj ident s" and s: "loop s = Polling" "find (ev_matches ev) (handlers (htabs s)) = Some cb"
  shows "life_inv func obj ident ((with_refs (addRef (cb_arg cb) (refs_of s)) s)\<lparr>loop := Handling (cb_arg cb)\<rparr>)"
    (is "life_inv func obj ident ?s")
proof -
  have "cb \<in> set (handlers (htabs s))" using s(2) by (auto simp: find_Some_iff)
  note alive = handler_alive [OF inv this]
  have same: "cancelling ?s q = cancelling s q" for q by (simp add: cancelling_def)
  have "refs_owned ?s" using life_invD(1) [OF inv] s(1) same by (auto simp: refs_owned_def addRef_def)
  moreover have "table_ok ident ?s"
    by (rule table_ok_same [of ident s])
      (use life_invD(2) [OF inv] life_inv_hal [OF inv] alive in \<open>auto simp: addRef_def split: if_splits\<close>)
  moreover have "handlers_ok func obj ?s"
    by (rule handlers_ok_same [of func obj s]) (use life_invD(3) [OF inv] same in \<open>auto simp: may_handle_def\<close>)
  ultimately show ?thesis using loop_callers_ok [OF inv, of ?s] by (simp add: life_inv_def)
qed

text \<open>Taking the command with an id out of the table.\<close>

lemma taken_table:
  assumes inv: "life_inv func obj ident s" and take: "wifi_unregister_cmd i (htabs s) = (q, t)"
  shows "hal_inv t" "event_cbs t = event_cbs (htabs s)" "set (commands t) \<subseteq> set (commands (htabs s))"
    "distinct (map ci_cmd (commands t))" "p \<in> ci_cmd ` set (commands t) \<longleftrightarrow> in_table s p \<and> ident p \<noteq> i"
    "q = NULL \<Longrightarrow> in_table s p \<Longrightarrow> ident p \<noteq> i" "q \<noteq> NULL \<Longrightarrow> ident q = i \<and> in_table s q"
proof -
  have own: "refs_owned s" "table_ok ident s" using inv by (simp_all add: life_inv_def)
  note t = take_effect [OF own take]
  have ids: "ci_id ci = ident (ci_cmd ci)" if "ci \<in> set (commands (htabs s))" for ci using own(2) that by (simp add: table_ok_def)
  show "hal_inv t" "event_cbs t = event_cbs (htabs s)" "set (commands t) \<subseteq> set (commands (htabs s))"
    "distinct (map ci_cmd (commands t))" using t by auto
  show "p \<in> ci_cmd ` set (commands t) \<longleftrightarrow> in_table s p \<and> ident p \<noteq> i" using t(3) ids by force
  show "q = NULL \<Longrightarrow> in_table s p \<Longrightarrow> ident p \<noteq> i" using t(5) ids by auto
  show "q \<noteq> NULL \<Longrightarrow> ident q = i \<and> in_table s q" using t(5) by simp
qed

lemma ident_inj:
  assumes "life_inv func obj ident s" "refs_of s p > 0" "refs_of s q > 0" "ident p = ident q"
  shows "p = q"
  using assms by (simp add: life_inv_def table_ok_def)

lemma in_table_alive: "life_inv func obj ident s \<Longrightarrow> in_table s p \<Longrightarrow> refs_of s p > 0"
  by (simp add: life_inv_def refs_owned_def)

text \<open>The command that is taken is the only one with its id, and no caller has taken it before.\<close>

lemma taken_one:
  assumes inv: "life_inv func obj ident s" and take: "wifi_unregister_cmd i (htabs s) = (q, t)" and "q \<noteq> NULL"
  shows "p \<in> ci_cmd ` set (commands t) \<longleftrightarrow> in_table s p \<and> p \<noteq> q"
  using taken_table(5,7) [OF inv take] assms(3) ident_inj [OF inv] in_table_alive [OF inv] by metis

lemma not_cancelling: "life_inv func obj ident s \<Longrightarrow> in_table s p \<Longrightarrow> \<not> cancels (callers s c) p"
  using life_invD(4) [of func obj ident s c] by (cases "callers s c") (auto simp: caller_ok_def)

lemma taken_keeps:
  assumes inv: "life_inv func obj ident s" and take: "wifi_unregister_cmd i (htabs s) = (q, t)"
    and s': "htabs s' = t" "\<And>p. refs_of s' p > 0 \<Longrightarrow> refs_of s p > 0" "refs_owned s'" "\<And>c. caller_ok obj s' (callers s' c)" "apart obj s'"
    and may: "\<And>p e. e \<in> set (command_events (obj p)) \<Longrightarrow> may_handle s p e \<Longrightarrow> may_handle s' p e"
  shows "life_inv func obj ident s'"
proof -
  note t = taken_table [OF inv take, folded s'(1)]
  have "table_ok ident s'" by (rule table_ok_keep [OF _ t(1,4,3) s'(2)]) (use inv in \<open>simp_all add: life_inv_def\<close>)
  moreover have "handlers_ok func obj s'"
    by (rule handlers_ok_same [of func obj s]) (use inv t(2) may in \<open>simp_all add: life_inv_def\<close>)
  ultimately show ?thesis using s'(3-5) by (simp add: life_inv_def)
qed

text \<open>A caller that takes a command out of the table, on which no other caller works.\<close>

lemma cancelling_took:
  "callers s c = No_call \<or> callers s c = Undoing p es' \<Longrightarrow>
   cancelling (goes_to c (Cancelling p es) (with_tabs t s)) q \<longleftrightarrow> cancelling s q \<or> q = p"
  using cancelling_upd [of "goes_to c (Cancelling p es) (with_tabs t s)" s c "Cancelling p es" q] cancelling_old [of s q c] by auto

lemma caller_takes:
  assumes inv: "life_inv func obj ident s" and take: "wifi_unregister_cmd i (htabs s) = (q, t)" and p: "in_table s p"
    and one: "\<And>x. x \<in> ci_cmd ` set (commands t) \<longleftrightarrow> in_table s x \<and> x \<noteq> p"
    and c: "callers s c = No_call \<or> callers s c = Undoing p []" and alone: "\<And>d. d \<noteq> c \<Longrightarrow> \<not> works (callers s d) p"
    and may: "\<And>x e. e \<in> set (command_events (obj x)) \<Longrightarrow> may_handle s x e \<Longrightarrow>
      may_handle (goes_to c (Cancelling p es) (with_tabs t s)) x e"
  shows "life_inv func obj ident (goes_to c (Cancelling p es) (with_tabs t s))" (is "life_inv func obj ident ?s")
proof -
  have canc: "cancelling ?s x \<longleftrightarrow> cancelling s x \<or> x = p" for x using cancelling_took [OF c] .
  have old: "\<not> cancelling s p" using not_cancelling [OF inv p] by (simp add: cancelling_def)
  have "refs_owned ?s" unfolding refs_owned_def
  proof
    fix x
    show "refs_of ?s x =
      of_bool (in_table ?s x) + of_bool (holds (loop ?s) x) + of_bool (drops (loop ?s) x) + of_bool (cancelling ?s x)"
      using life_invD(1) [OF inv] one p canc old by (cases "x = p") (simp_all add: refs_owned_def)
  qed
  moreover have "caller_ok obj ?s (callers ?s d)" for d
  proof (cases "d = c")
    case True
    then show ?thesis using one by (simp add: caller_ok_def)
  next
    case False
    then show ?thesis
      by (simp, intro caller_ok_keep [OF life_invD(4) [OF inv, of d]])
        (use alone [OF False] one taken_table(2) [OF inv take] in \<open>auto simp: no_handler_def\<close>)
  qed
  moreover have "apart obj ?s"
    by (rule apart_upd [OF life_invD(5) [OF inv], of _ c "Cancelling p es"]) (use alone in \<open>auto simp: works_def\<close>)
  ultimately show ?thesis using may by (intro taken_keeps [OF inv take]) simp_all
qed

lemma step_cancel:
  assumes inv: "life_inv func obj ident s" and s: "callers s c = No_call" "wifi_unregister_cmd i (htabs s) = (p, t)" "p \<noteq> NULL"
    "set es = set (command_events (obj p))" "\<not> starting s p"
  shows "life_inv func obj ident (goes_to c (Cancelling p es) (with_tabs t s))" (is "life_inv func obj ident ?s")
proof -
  note one = taken_one [OF inv s(2,3)]
  have p: "in_table s p" using taken_table(7) [OF inv s(2,3)] ..
  have nobody: "\<not> works (callers s d) p" for d
    using s(5) not_cancelling [OF inv p] by (auto simp: works_def starting_def)
  have may: "may_handle ?s q e" if "e \<in> set (command_events (obj q))" "may_handle s q e" for q e
  proof -
    have "e \<in> set es'" if d: "callers ?s d = Cancelling q es' \<or> callers ?s d = Undoing q es'" for d es'
    proof (cases "d = c")
      case True
      with d s(4) \<open>e \<in> set (command_events (obj q))\<close> show ?thesis by simp
    next
      case False
      with d \<open>may_handle s q e\<close> show ?thesis unfolding may_handle_def by auto
    qed
    with that one cancelling_took [OF disjI1, OF s(1)] show ?thesis unfolding may_handle_def by auto
  qed
  show ?thesis by (rule caller_takes [OF inv s(2) p one _ _ may]) (use s(1) nobody in auto)
qed

lemma step_undone:
  assumes inv: "life_inv func obj ident s" and s: "callers s c = Undoing p []" "wifi_unregister_cmd (ident p) (htabs s) = (q, t)"
  shows "life_inv func obj ident (goes_to c (Cancelling p []) (with_tabs t s))" (is "life_inv func obj ident ?s")
proof -
  have p: "in_table s p" using life_invD(4) [OF inv, of c] s(1) by (simp add: caller_ok_def)
  with taken_table(6) [OF inv s(2), of p] have "q \<noteq> NULL" by blast
  moreover from this have "q = p"
    using taken_table(7) [OF inv s(2)] ident_inj [OF inv] in_table_alive [OF inv] p by metis
  ultimately have one: "x \<in> ci_cmd ` set (commands t) \<longleftrightarrow> in_table s x \<and> x \<noteq> p" for x using taken_one [OF inv s(2)] by simp
  have alone: "\<not> works (callers s d) p" if "d \<noteq> c" for d
    using works_alone [OF life_invD(5) [OF inv], of c p d] s that by (simp add: works_def)
  have none: "\<not> may_handle s p e" for e using s(1) unfolding may_handle_def by (metis empty_iff empty_set)
  have may: "may_handle ?s x e" if "may_handle s x e" for x e
  proof -
    have "x \<noteq> p" using that none by auto
    with that one cancelling_took [OF disjI2, OF s(1)] show ?thesis by (auto simp: may_handle_def)
  qed
  show ?thesis by (rule caller_takes [OF inv s(2) p one _ _ may]) (use s(1) alone in auto)
qed

lemma step_completed:
  assumes inv: "life_inv func obj ident s" and s: "loop s = Completing p" "wifi_unregister_cmd (ident p) (htabs s) = (q, t)"
  shows "life_inv func obj ident ((with_tabs t s)\<lparr>loop := if q \<noteq> NULL then Dropping q else Handling p\<rparr>)"
    (is "life_inv func obj ident ?s")
proof -
  have p: "refs_of s p > 0" using life_invD(1) [OF inv] s(1) by (simp add: refs_owned_def)
  have q: "q = p \<and> in_table s p" if "q \<noteq> NULL"
    using that taken_table(7) [OF inv s(2)] ident_inj [OF inv] in_table_alive [OF inv] p by metis
  have one: "x \<in> ci_cmd ` set (commands t) \<longleftrightarrow> in_table s x \<and> (q \<noteq> NULL \<longrightarrow> x \<noteq> p)" for x
    using taken_one [OF inv s(2)] taken_table(5,6) [OF inv s(2)] q by (cases "q = NULL") blast+
  have same: "cancelling ?s x = cancelling s x" for x by (simp add: cancelling_def)
  have "refs_owned ?s" using life_invD(1) [OF inv] s(1) one q same by (auto simp: refs_owned_def)
  moreover have "caller_ok obj ?s (callers ?s d)" for d
    using life_invD(4) [OF inv, of d] s one taken_table(2) [OF inv s(2)]
    by (auto simp: caller_ok_def no_handler_def split: caller_pc.splits)
  moreover have "apart obj ?s" using life_invD(5) [OF inv] by (simp add: apart_def)
  moreover have "may_handle ?s x e" if "may_handle s x e" for x e
    using that s(1) one same by (auto simp: may_handle_def)
  ultimately show ?thesis by (intro taken_keeps [OF inv s(2)]) simp_all
qed

lemma step_cancel_patient:
  "life_inv func obj ident s \<Longrightarrow> callers s c = No_call \<Longrightarrow> wifi_unregister_cmd i (htabs s) = (p, t) \<Longrightarrow> p \<noteq> NULL \<Longrightarrow>
   set es = set (command_events (obj p)) \<Longrightarrow> True \<longrightarrow> \<not> starting s p \<Longrightarrow>
   life_inv func obj ident (goes_to c (Cancelling p es) (with_tabs t s))"
  by (rule step_cancel) simp_all

lemmas life_steps = step_start step_register step_started step_fail step_undo step_undone step_cancel_patient step_unregister
  step_cancelled step_dispatch step_handled step_complete step_completed step_dropped

lemma life_step_inv: "life_step True func obj ident s s' \<Longrightarrow> life_inv func obj ident s \<Longrightarrow> life_inv func obj ident s'"
  by (induction rule: life_step.induct) (rule life_steps; assumption)+

lemma life_inv_init: "life_inv func obj ident (new_life cb ci)"
  by (simp add: life_inv_def refs_owned_def table_ok_def handlers_ok_def caller_ok_def apart_def works_def cancelling_def
      new_life_def hal_inv_init)

lemma life_inv_reachable:
  assumes "(life_step True func obj ident)\<^sup>*\<^sup>* (new_life cb ci) s"
  shows "life_inv func obj ident s"
  using assms by (induction rule: rtranclp_induct) (auto intro: life_inv_init life_step_inv)

section \<open>No command is used after it was deleted\<close>


text \<open>The way to a command that caller 0 has started, and that caller 1 takes out of the table again.\<close>

lemma start_then_take:
  obtains t1 t2 t3 where
    "wifi_register_cmd 5 77 (init_tabs no_cb no_cmd) = (WIFI_SUCCESS, t1)" "handlers t1 = []"
    "wifi_register_vendor_handler GOOGLE_OUI WIFI_EVENT_RSSI_MONITOR 1 77 t1 = (WIFI_SUCCESS, t2)"
    "handlers t2 = [event_cb 1 77 WIFI_EVENT_RSSI_MONITOR]" "wifi_unregister_cmd 5 t2 = (77, t3)" "commands t3 = []"
proof -
  have len: "length (handlers t) < DEFAULT_EVENT_CB_SIZE" if "handlers t = []" for t using that by (simp add: DEFAULT_EVENT_CB_SIZE_def)
  obtain t1 where t1: "wifi_register_cmd 5 77 (init_tabs no_cb no_cmd) = (WIFI_SUCCESS, t1)" "hal_inv t1"
    "commands t1 = [\<lparr>ci_id = 5, ci_cmd = 77\<rparr>]" "event_cbs t1 = event_cbs (init_tabs no_cb no_cmd)"
    using register_cmd_spec [OF hal_inv_init, of no_cb no_cmd 5 77] by (auto simp: DEFAULT_CMD_SIZE_def)
  have "handlers t1 = []" using t1(4) init_tabs_lists(1) [of no_cb no_cmd] by simp
  moreover from add_event_cb_spec [OF t1(2), of "event_cb 1 77 WIFI_EVENT_RSSI_MONITOR"] len this obtain t2 where
    t2: "wifi_register_vendor_handler GOOGLE_OUI WIFI_EVENT_RSSI_MONITOR 1 77 t1 = (WIFI_SUCCESS, t2)" "hal_inv t2"
      "handlers t2 = [event_cb 1 77 WIFI_EVENT_RSSI_MONITOR]" "cmds t2 = cmds t1"
    by (auto simp: wifi_register_vendor_handler_def)
  moreover obtain t3 where "wifi_unregister_cmd 5 t2 = (77, t3)" "commands t3 = []"
    using t1(3) t2(4) remove_spec(2) [OF t2(2), of "\<lambda>ci. ci_id ci = 5"] by (simp add: unregister_cmd_tab get_cmd_spec [OF t2(2)])
  ultimately show thesis using that t1(1) by blast
qed

lemma life_start_one:
  assumes "wifi_register_cmd 5 77 (init_tabs no_cb no_cmd) = (WIFI_SUCCESS, t)" "handlers t = []"
  shows "life_step patient func (\<lambda>_. Rssi_command 0 0) (\<lambda>_. 5) (new_life no_cb no_cmd)
    (goes_to 0 (Starting 77 [WIFI_EVENT_RSSI_MONITOR]) (with_refs ((\<lambda>_. 0)(77 := 1)) (with_tabs t (new_life no_cb no_cmd))))"
  using life_step.start [of "new_life no_cb no_cmd" 0 77 "\<lambda>_. 5" "\<lambda>_. Rssi_command 0 0" t patient func] assms
  by (simp add: new_life_def NULL_def no_handler_def starting_def)


text \<open>
  A caller that is not patient: the start functions keep no reference of their own, so that a second caller
  that cancels the command while it is still being started deletes it under the first one.
\<close>

lemma cancel_during_start_frees:
  "\<exists>s. (life_step False 1 (\<lambda>_. Rssi_command 0 0) (\<lambda>_. 5))\<^sup>*\<^sup>* (new_life no_cb no_cmd) s \<and> starting s 77 \<and> refs_of s 77 = 0"
proof -
  let ?step = "life_step False 1 (\<lambda>_. Rssi_command 0 0) (\<lambda>_. 5)" and ?e = WIFI_EVENT_RSSI_MONITOR
  obtain t1 t2 t3 where t: "wifi_register_cmd 5 77 (init_tabs no_cb no_cmd) = (WIFI_SUCCESS, t1)" "handlers t1 = []"
    "wifi_register_vendor_handler GOOGLE_OUI ?e 1 77 t1 = (WIFI_SUCCESS, t2)"
    "handlers t2 = [event_cb 1 77 ?e]" "wifi_unregister_cmd 5 t2 = (77, t3)" "commands t3 = []"
    by (rule start_then_take)
  define s1 where "s1 = goes_to 0 (Starting 77 [?e]) (with_refs ((\<lambda>_. 0)(77 := 1)) (with_tabs t1 (new_life no_cb no_cmd)))"
  define s2 where "s2 = goes_to 0 (Starting 77 []) (with_tabs t2 s1)"
  define s3 where "s3 = goes_to 1 (Cancelling 77 [?e]) (with_tabs t3 s2)"
  define s4 where "s4 = goes_to 1 (Cancelling 77 []) (with_tabs (wifi_unregister_vendor_handler GOOGLE_OUI ?e (htabs s3)) s3)"
  define s5 where "s5 = goes_to 1 No_call (with_refs (releaseRef 77 (refs_of s4)) s4)"
  note defs = s5_def s4_def s3_def s2_def s1_def new_life_def
  have "?step (new_life no_cb no_cmd) s1" unfolding s1_def by (rule life_start_one [OF t(1,2)])
  moreover have "?step s1 s2" unfolding s2_def by (rule life_step.register) (use t(3) in \<open>simp_all add: defs\<close>)
  moreover have "?step s2 s3" unfolding s3_def by (rule life_step.cancel [of _ _ 5]) (use t(5) in \<open>simp_all add: defs NULL_def\<close>)
  moreover have "?step s3 s4" unfolding s4_def by (rule life_step.unregister) (simp add: s3_def)
  moreover have "?step s4 s5" unfolding s5_def by (rule life_step.cancelled) (simp add: s4_def)
  ultimately have "?step\<^sup>*\<^sup>* (new_life no_cb no_cmd) s5" by (meson converse_rtranclp_into_rtranclp rtranclp.rtrancl_refl)
  moreover have "starting s5 77" unfolding starting_def by (rule exI [of _ 0]) (simp add: defs)
  moreover have "refs_of s5 77 = 0" by (simp add: defs releaseRef_def)
  ultimately show ?thesis by blast
qed

end
