(* ===== verification/Hal_Shutdown.thy ===== *)
theory Hal_Shutdown
  imports Hal_Init
begin

text \<open>
  The end of the HAL (\<open>wifi_cleanup\<close> and \<open>wifi_event_loop\<close> in \<open>wifi_hal.cpp\<close>) with both functions running at the
  same time, in two threads. They talk over a pair of sockets: \<open>wifi_cleanup\<close> writes \<open>Exit\<close> and waits for
  \<open>Done\<close> before it cancels the commands and frees \<open>hal_info\<close>, which the loop reads in every turn. What one
  thread does between two of these points is in \<open>Hal_Init\<close>.
\<close>

section \<open>The two threads\<close>

text \<open>
  Where \<open>wifi_cleanup\<close> is: not called; \<open>Exit\<close> is written and the answer is read; before the store to \<open>clean_up\<close>;
  in the loop that cancels the commands; \<open>hal_info\<close> is freed.
\<close>

datatype cleaner_pc = Not_called | Told | Noting | Cancelling_cmds | Freed

text \<open>
  Where \<open>wifi_event_loop\<close> is: not called; in \<open>poll\<close>; in \<open>internal_pollin_handler\<close>; before the test of \<open>clean_up\<close>;
  before the answer \<open>Done\<close>; behind the loop.
\<close>

datatype looper_pc = Not_running | In_poll | In_event | Testing | Exiting | Gone

record shutdown =
  cleaner :: cleaner_pc
  looper :: looper_pc
  to_loop :: string
  to_cleaner :: string
  clean_flag :: bool

text \<open>
  The parameter tells whether reading and writing the sockets works. A turn of the loop without a message is a
  failed poll, an error of the event socket, or an unknown event; a hang-up of the event socket ends the loop.
\<close>

inductive shutdown_step :: "bool \<Rightarrow> shutdown \<Rightarrow> shutdown \<Rightarrow> bool" for socks_work where
  tell: "cleaner s = Not_called \<Longrightarrow> shutdown_step socks_work s (s\<lparr>cleaner := Told, to_loop := to_loop s @ ''Exit''\<rparr>)"
| tell_fails: "cleaner s = Not_called \<Longrightarrow> \<not> socks_work \<Longrightarrow> shutdown_step socks_work s (s\<lparr>cleaner := Noting\<rparr>)"
| hear: "cleaner s = Told \<Longrightarrow> to_cleaner s \<noteq> [] \<Longrightarrow> shutdown_step socks_work s (s\<lparr>cleaner := Noting, to_cleaner := []\<rparr>)"
| hear_fails: "cleaner s = Told \<Longrightarrow> \<not> socks_work \<Longrightarrow> shutdown_step socks_work s (s\<lparr>cleaner := Noting\<rparr>)"
| note_end: "cleaner s = Noting \<Longrightarrow> shutdown_step socks_work s (s\<lparr>cleaner := Cancelling_cmds, clean_flag := True\<rparr>)"
| free: "cleaner s = Cancelling_cmds \<Longrightarrow> shutdown_step socks_work s (s\<lparr>cleaner := Freed\<rparr>)"
| enter: "looper s = Not_running \<Longrightarrow> shutdown_step socks_work s (s\<lparr>looper := In_poll\<rparr>)"
| event: "looper s = In_poll \<Longrightarrow> shutdown_step socks_work s (s\<lparr>looper := In_event\<rparr>)"
| event_done: "looper s = In_event \<Longrightarrow> shutdown_step socks_work s (s\<lparr>looper := Testing\<rparr>)"
| no_message: "looper s = In_poll \<Longrightarrow> shutdown_step socks_work s (s\<lparr>looper := Testing\<rparr>)"
| hang_up: "looper s = In_poll \<Longrightarrow> shutdown_step socks_work s (s\<lparr>looper := Gone\<rparr>)"
| message: "looper s = In_poll \<Longrightarrow> to_loop s \<noteq> [] \<Longrightarrow>
    shutdown_step socks_work s
      (s\<lparr>looper := (if strncmp_eq 4 (to_loop s) ''Exit'' then Exiting else Testing), to_loop := []\<rparr>)"
| test: "looper s = Testing \<Longrightarrow> shutdown_step socks_work s (s\<lparr>looper := (if clean_flag s then Gone else In_poll)\<rparr>)"
| tell_done: "looper s = Exiting \<Longrightarrow>
    shutdown_step socks_work s (s\<lparr>looper := Gone, to_cleaner := to_cleaner s @ ''Done''\<rparr>)"
| done_fails: "looper s = Exiting \<Longrightarrow> \<not> socks_work \<Longrightarrow> shutdown_step socks_work s (s\<lparr>looper := Gone\<rparr>)"

inductive_cases shutdown_stepE: "shutdown_step ok s t"

definition both_idle :: shutdown where
  "both_idle = \<lparr>cleaner = Not_called, looper = Not_running, to_loop = [], to_cleaner = [], clean_flag = False\<rparr>"

text \<open>The steps that read or write \<open>hal_info\<close>: the entry of the loop, the handling of events and the test of the flag.\<close>

fun touches_info :: "looper_pc \<Rightarrow> bool" where
  "touches_info pc \<longleftrightarrow> pc \<in> {Not_running, In_event, Testing}"

section \<open>The loop has ended before anything is freed\<close>

definition handshake_inv :: "shutdown \<Rightarrow> bool" where
  "handshake_inv s \<longleftrightarrow> (case cleaner s of
     Not_called \<Rightarrow> to_loop s = [] \<and> to_cleaner s = [] \<and> \<not> clean_flag s \<and> looper s \<noteq> Exiting
   | Told \<Rightarrow> \<not> clean_flag s \<and>
       (to_loop s = ''Exit'' \<and> to_cleaner s = [] \<and> looper s \<noteq> Exiting \<or>
        to_loop s = [] \<and> to_cleaner s = [] \<and> looper s = Exiting \<or>
        to_loop s = [] \<and> to_cleaner s = ''Done'' \<and> looper s = Gone)
   | _ \<Rightarrow> looper s = Gone)"

lemma exit_recognised: "strncmp_eq 4 ''Exit'' ''Exit''"
  by (simp add: strncmp_eq_def)

lemma handshake_step:
  assumes "shutdown_step True s t" "handshake_inv s"
  shows "handshake_inv t"
  using assms
  by (cases rule: shutdown_step.cases) (auto simp: handshake_inv_def exit_recognised split: cleaner_pc.splits)

lemma handshake_reachable: "(shutdown_step True)\<^sup>*\<^sup>* both_idle s \<Longrightarrow> handshake_inv s"
proof (induction rule: rtranclp_induct)
  case base
  show ?case by (simp add: handshake_inv_def both_idle_def)
qed (rule handshake_step)

section \<open>The end is reached\<close>

text \<open>The loop can always come to its \<open>poll\<close>, from there take the message, and answer it.\<close>

lemma loop_polls:
  assumes "looper s \<in> {Not_running, In_poll, In_event, Testing}" "\<not> clean_flag s"
  shows "(shutdown_step ok)\<^sup>*\<^sup>* s (s\<lparr>looper := In_poll\<rparr>)"
proof -
  have test: "(shutdown_step ok)\<^sup>*\<^sup>* u (u\<lparr>looper := In_poll\<rparr>)" if "looper u = Testing" "\<not> clean_flag u" for u
    using shutdown_step.test [OF that(1), of ok] that(2) by auto
  show ?thesis
  proof (cases "looper s")
    case In_event
    have "(shutdown_step ok)\<^sup>*\<^sup>* s (s\<lparr>looper := Testing\<rparr>)" using shutdown_step.event_done [OF In_event] by auto
    also have "(shutdown_step ok)\<^sup>*\<^sup>* \<dots> (s\<lparr>looper := In_poll\<rparr>)" using test [of "s\<lparr>looper := Testing\<rparr>"] assms(2) by simp
    finally show ?thesis .
  next
    case In_poll
    then have "s\<lparr>looper := In_poll\<rparr> = s" by simp
    then show ?thesis by simp
  qed (use assms test shutdown_step.enter [of s ok] in auto)
qed

lemma loop_answers:
  assumes "looper s = In_poll" "to_loop s = ''Exit''" "to_cleaner s = []"
  shows "(shutdown_step ok)\<^sup>*\<^sup>* s (s\<lparr>looper := Gone, to_loop := [], to_cleaner := ''Done''\<rparr>)"
proof -
  have "shutdown_step ok s (s\<lparr>looper := Exiting, to_loop := []\<rparr>)"
    using shutdown_step.message [OF assms(1), of ok] assms(2) by (simp add: exit_recognised)
  moreover have "shutdown_step ok (s\<lparr>looper := Exiting, to_loop := []\<rparr>) (s\<lparr>looper := Gone, to_loop := [], to_cleaner := ''Done''\<rparr>)"
    using shutdown_step.tell_done [of "s\<lparr>looper := Exiting, to_loop := []\<rparr>" ok] assms(3) by (cases s) simp
  ultimately show ?thesis by (meson converse_rtranclp_into_rtranclp rtranclp.rtrancl_refl)
qed

lemma cleaner_frees:
  assumes "cleaner s \<in> {Noting, Cancelling_cmds, Freed} \<or> cleaner s = Told \<and> to_cleaner s \<noteq> []"
  shows "\<exists>t. (shutdown_step ok)\<^sup>*\<^sup>* s t \<and> cleaner t = Freed"
proof -
  have free: "\<exists>t. (shutdown_step ok)\<^sup>*\<^sup>* u t \<and> cleaner t = Freed" if "cleaner u = Cancelling_cmds" for u
    using shutdown_step.free [OF that, of ok] by (intro exI [of _ "u\<lparr>cleaner := Freed\<rparr>"]) auto
  have note_end: "\<exists>t. (shutdown_step ok)\<^sup>*\<^sup>* u t \<and> cleaner t = Freed" if "cleaner u = Noting" for u
    using shutdown_step.note_end [OF that, of ok] free [of "u\<lparr>cleaner := Cancelling_cmds, clean_flag := True\<rparr>"]
    by (auto intro: converse_rtranclp_into_rtranclp)
  from assms consider "cleaner s = Noting" | "cleaner s = Cancelling_cmds" | "cleaner s = Freed" | "cleaner s = Told" "to_cleaner s \<noteq> []"
    by auto
  then show ?thesis
  proof cases
    case 4
    with shutdown_step.hear [of s ok] note_end [of "s\<lparr>cleaner := Noting, to_cleaner := []\<rparr>"] show ?thesis
      by (auto intro: converse_rtranclp_into_rtranclp)
  qed (use free note_end in auto)
qed

text \<open>The loop ended before it saw the message: nobody will answer.\<close>

definition unheard :: "shutdown \<Rightarrow> bool" where
  "unheard s \<longleftrightarrow> cleaner s = Told \<and> looper s = Gone \<and> to_cleaner s = []"

lemma shutdown_completes:
  assumes "handshake_inv s" "cleaner s \<noteq> Not_called" "\<not> unheard s"
  shows "\<exists>t. (shutdown_step ok)\<^sup>*\<^sup>* s t \<and> cleaner t = Freed"
proof (cases "cleaner s = Told \<and> to_cleaner s = []")
  case False
  with assms(2) show ?thesis by (intro cleaner_frees) (cases "cleaner s"; auto)
next
  case True
  have "\<exists>t. (shutdown_step ok)\<^sup>*\<^sup>* s t \<and> cleaner t = Told \<and> to_cleaner t \<noteq> []"
  proof (cases "looper s = Exiting")
    case exiting: True
    with True shutdown_step.tell_done [OF exiting, of ok] show ?thesis
      by (intro exI [of _ "s\<lparr>looper := Gone, to_cleaner := to_cleaner s @ ''Done''\<rparr>"]) auto
  next
    case False
    with assms True have s: "looper s \<in> {Not_running, In_poll, In_event, Testing}" "to_loop s = ''Exit''" "\<not> clean_flag s"
      by (auto simp: handshake_inv_def unheard_def intro: looper_pc.exhaust [of "looper s"])
    from loop_polls [OF s(1,3)] loop_answers [of "s\<lparr>looper := In_poll\<rparr>"] s(2) True
    have "(shutdown_step ok)\<^sup>*\<^sup>* s (s\<lparr>looper := Gone, to_loop := [], to_cleaner := ''Done''\<rparr>)" by (auto intro: rtranclp_trans)
    with True show ?thesis by (intro exI [of _ "s\<lparr>looper := Gone, to_loop := [], to_cleaner := ''Done''\<rparr>"]) auto
  qed
  then obtain t where t: "(shutdown_step ok)\<^sup>*\<^sup>* s t" "cleaner t = Told" "to_cleaner t \<noteq> []" by blast
  with cleaner_frees [of t ok] show ?thesis by (meson rtranclp_trans)
qed

section \<open>Correctness of the shutdown\<close>


lemma told_while_polling:
  "(shutdown_step True)\<^sup>*\<^sup>* both_idle \<lparr>cleaner = Told, looper = In_poll, to_loop = ''Exit'', to_cleaner = [], clean_flag = False\<rparr>"
proof -
  have "shutdown_step True both_idle (both_idle\<lparr>looper := In_poll\<rparr>)" by (rule shutdown_step.enter) (simp add: both_idle_def)
  moreover have "shutdown_step True (both_idle\<lparr>looper := In_poll\<rparr>)
      \<lparr>cleaner = Told, looper = In_poll, to_loop = ''Exit'', to_cleaner = [], clean_flag = False\<rparr>"
    using shutdown_step.tell [of "both_idle\<lparr>looper := In_poll\<rparr>" True] by (simp add: both_idle_def)
  ultimately show ?thesis by (meson converse_rtranclp_into_rtranclp rtranclp.rtrancl_refl)
qed


text \<open>A hang-up of the event socket before the message leaves \<open>wifi_cleanup\<close> waiting for ever.\<close>

lemma hang_up_blocks_cleanup:
  "\<exists>s. (shutdown_step True)\<^sup>*\<^sup>* both_idle s \<and> unheard s \<and> (\<forall>t. \<not> shutdown_step True s t)"
proof -
  let ?s = "\<lparr>cleaner = Told, looper = Gone, to_loop = ''Exit'', to_cleaner = [], clean_flag = False\<rparr>"
  have "(shutdown_step True)\<^sup>*\<^sup>* both_idle ?s"
    using told_while_polling shutdown_step.hang_up [of "?s\<lparr>looper := In_poll\<rparr>" True] by (auto intro: rtranclp.rtrancl_into_rtrancl)
  moreover have "\<not> shutdown_step True ?s t" for t by (auto elim: shutdown_stepE)
  ultimately show ?thesis by (auto simp: unheard_def)
qed

text \<open>
  When \<open>Exit\<close> cannot be written, the flag is no fallback: the loop is in a \<open>poll\<close> without a timeout, and the next
  event it handles finds \<open>hal_info\<close> freed.
\<close>

lemma failed_write_frees_early:
  "\<exists>s. (shutdown_step False)\<^sup>*\<^sup>* both_idle s \<and> cleaner s = Freed \<and> looper s = In_event \<and> touches_info (looper s)"
proof -
  let ?s = "\<lambda>c l f. \<lparr>cleaner = c, looper = l, to_loop = [], to_cleaner = [], clean_flag = f\<rparr>"
  have "shutdown_step False both_idle (?s Not_called In_poll False)"
    using shutdown_step.enter [of both_idle False] by (simp add: both_idle_def)
  moreover have "shutdown_step False (?s Not_called In_poll False) (?s Noting In_poll False)"
    using shutdown_step.tell_fails [of "?s Not_called In_poll False" False] by simp
  moreover have "shutdown_step False (?s Noting In_poll False) (?s Cancelling_cmds In_poll True)"
    using shutdown_step.note_end [of "?s Noting In_poll False" False] by simp
  moreover have "shutdown_step False (?s Cancelling_cmds In_poll True) (?s Freed In_poll True)"
    using shutdown_step.free [of "?s Cancelling_cmds In_poll True" False] by simp
  moreover have "shutdown_step False (?s Freed In_poll True) (?s Freed In_event True)"
    using shutdown_step.event [of "?s Freed In_poll True" False] by simp
  ultimately have "(shutdown_step False)\<^sup>*\<^sup>* both_idle (?s Freed In_event True)"
    by (meson converse_rtranclp_into_rtranclp rtranclp.rtrancl_refl)
  then show ?thesis by (intro exI [of _ "?s Freed In_event True"]) simp
qed

end
