(* ===== verification/Hal_Interface.thy ===== *)
theory Hal_Interface
  imports Hal_Features Hal_Init Rtt
begin

text \<open>
  The outside of the Wi-Fi HAL: the table of functions that \<open>init_wifi_vendor_hal_func_table\<close> fills, the functions
  with fixed answers, the conversions between handles, the small accessors of events, iterators and commands
  in \<open>cpp_bindings.h\<close>, and \<open>parseScanResults\<close> of \<open>gscan.cpp\<close>, which nothing calls.
\<close>

section \<open>The function table\<close>

text \<open>A table gives the function that each member points to, here by name. The assignments in their order.\<close>

type_synonym fn_table = "string \<Rightarrow> string option"

definition vendor_functions :: "(string \<times> string) list" where
  "vendor_functions =
     [(''wifi_initialize'', ''wifi_initialize''),
      (''wifi_cleanup'', ''wifi_cleanup''),
      (''wifi_event_loop'', ''wifi_event_loop''),
      (''wifi_get_supported_feature_set'', ''wifi_get_supported_feature_set''),
      (''wifi_get_concurrency_matrix'', ''wifi_get_concurrency_matrix''),
      (''wifi_set_scanning_mac_oui'', ''wifi_set_scanning_mac_oui_dummy''),
      (''wifi_get_ifaces'', ''wifi_get_ifaces''),
      (''wifi_get_iface_name'', ''wifi_get_iface_name''),
      (''wifi_start_gscan'', ''wifi_start_gscan''),
      (''wifi_stop_gscan'', ''wifi_stop_gscan''),
      (''wifi_get_cached_gscan_results'', ''wifi_get_cached_gscan_results''),
      (''wifi_set_bssid_hotlist'', ''wifi_set_bssid_hotlist''),
      (''wifi_reset_bssid_hotlist'', ''wifi_reset_bssid_hotlist''),
      (''wifi_set_significant_change_handler'', ''wifi_set_significant_change_handler''),
      (''wifi_reset_significant_change_handler'', ''wifi_reset_significant_change_handler''),
      (''wifi_get_valid_channels'', ''wifi_get_valid_channels''),
      (''wifi_rtt_range_request'', ''wifi_rtt_range_request''),
      (''wifi_rtt_range_cancel'', ''wifi_rtt_range_cancel''),
      (''wifi_get_rtt_capabilities'', ''wifi_get_rtt_capabilities''),
      (''wifi_start_logging'', ''wifi_start_logging_dummy''),
      (''wifi_set_epno_list'', ''wifi_set_epno_list''),
      (''wifi_reset_epno_list'', ''wifi_reset_epno_list''),
      (''wifi_set_country_code'', ''wifi_set_country_code''),
      (''wifi_set_log_handler'', ''wifi_set_log_handler_dummy''),
      (''wifi_reset_log_handler'', ''wifi_reset_log_handler_dummy''),
      (''wifi_get_firmware_version'', ''wifi_get_firmware_version_dummy''),
      (''wifi_get_ring_buffers_status'', ''wifi_get_ring_buffers_status_dummy''),
      (''wifi_get_logger_supported_feature_set'', ''wifi_get_logger_supported_feature_set_dummy''),
      (''wifi_get_ring_data'', ''wifi_get_ring_data_dummy''),
      (''wifi_get_driver_version'', ''wifi_get_driver_version_dummy''),
      (''wifi_start_rssi_monitoring'', ''wifi_start_rssi_monitoring''),
      (''wifi_stop_rssi_monitoring'', ''wifi_stop_rssi_monitoring''),
      (''wifi_configure_nd_offload'', ''wifi_configure_nd_offload_dummy''),
      (''wifi_start_sending_offloaded_packet'', ''wifi_start_sending_offloaded_packet''),
      (''wifi_stop_sending_offloaded_packet'', ''wifi_stop_sending_offloaded_packet''),
      (''wifi_start_pkt_fate_monitoring'', ''wifi_start_pkt_fate_monitoring_dummy''),
      (''wifi_get_tx_pkt_fates'', ''wifi_get_tx_pkt_fates_dummy''),
      (''wifi_get_rx_pkt_fates'', ''wifi_get_rx_pkt_fates_dummy''),
      (''wifi_get_packet_filter_capabilities'', ''wifi_get_packet_filter_capabilities_dummy''),
      (''wifi_get_driver_memory_dump'', ''wifi_get_driver_memory_dump_dummy''),
      (''wifi_get_wake_reason_stats'', ''wifi_get_wake_reason_stats_dummy''),
      (''wifi_get_packet_filter_capabilities'', ''wifi_get_packet_filter_capabilities_dummy''),
      (''wifi_get_roaming_capabilities'', ''wifi_get_roaming_capabilities''),
      (''wifi_configure_roaming'', ''wifi_configure_roaming''),
      (''wifi_enable_firmware_roaming'', ''wifi_enable_firmware_roaming'')]"

definition init_wifi_vendor_hal_func_table :: "fn_table option \<Rightarrow> wifi_error \<times> fn_table option" where
  "init_wifi_vendor_hal_func_table fn =
     (case fn of
        None \<Rightarrow> (WIFI_ERROR_UNKNOWN, None)
      | Some t \<Rightarrow> (WIFI_SUCCESS, Some (foldl (\<lambda>t (m, f). t(m \<mapsto> f)) t vendor_functions)))"

text \<open>
  Each member of the list gets the function of its own name, or the fixed answer that stands for it; no other
  member changes, so that the responder functions, the link statistics and the passpoint lists stay what the
  framework put there.
\<close>

lemma foldl_update:
  "foldl (\<lambda>t (m, f). t(m \<mapsto> f)) t ps m = (case map_of (rev ps) m of None \<Rightarrow> t m | Some f \<Rightarrow> Some f)"
  by (induction ps arbitrary: t) (auto simp: map_add_def split: option.splits)

lemma vendor_functions_names:
  "list_all (\<lambda>(m, f). f = m \<or> f = m @ ''_dummy'') vendor_functions"
  by (simp add: vendor_functions_def)

lemma func_table_installed:
  assumes "init_wifi_vendor_hal_func_table (Some t) = (res, Some t')"
  shows "res = WIFI_SUCCESS \<and>
    (m \<in> fst ` set vendor_functions \<longrightarrow> t' m = Some m \<or> t' m = Some (m @ ''_dummy'')) \<and>
    (m \<notin> fst ` set vendor_functions \<longrightarrow> t' m = t m)"
proof -
  from assms have t': "res = WIFI_SUCCESS" "t' m = (case map_of (rev vendor_functions) m of None \<Rightarrow> t m | Some f \<Rightarrow> Some f)"
    by (auto simp: init_wifi_vendor_hal_func_table_def foldl_update)
  show ?thesis
  proof (cases "map_of (rev vendor_functions) m")
    case None
    then have "m \<notin> fst ` set vendor_functions" by (simp add: map_of_eq_None_iff)
    with t' None show ?thesis by simp
  next
    case (Some f)
    from map_of_SomeD [OF Some] have f: "(m, f) \<in> set vendor_functions" by simp
    with vendor_functions_names have "f = m \<or> f = m @ ''_dummy''" by (auto simp: list_all_iff)
    moreover from f have "m \<in> fst ` set vendor_functions" by force
    ultimately show ?thesis using t' Some by auto
  qed
qed

section \<open>Fixed answers\<close>

definition wifi_set_log_handler_dummy :: wifi_error where "wifi_set_log_handler_dummy = dummy_success"
definition wifi_reset_log_handler_dummy :: wifi_error where "wifi_reset_log_handler_dummy = dummy_success"
definition wifi_configure_nd_offload_dummy :: wifi_error where "wifi_configure_nd_offload_dummy = dummy_success"
definition wifi_start_pkt_fate_monitoring_dummy :: wifi_error where "wifi_start_pkt_fate_monitoring_dummy = dummy_success"
definition wifi_get_driver_memory_dump_dummy :: wifi_error where "wifi_get_driver_memory_dump_dummy = dummy_success"

text \<open>The wake reasons as the bytes of their structure.\<close>

definition wifi_get_wake_reason_stats_dummy :: "u8 list option \<Rightarrow> wifi_error \<times> u8 list option" where
  "wifi_get_wake_reason_stats_dummy cnt =
     (case cnt of None \<Rightarrow> (WIFI_ERROR_INVALID_ARGS, None) | Some bs \<Rightarrow> (WIFI_SUCCESS, Some (replicate (length bs) 0)))"

definition wifi_get_logger_supported_feature_set_dummy :: "u32 option \<Rightarrow> wifi_error \<times> u32 option" where
  "wifi_get_logger_supported_feature_set_dummy support = dummy_store 0 support"

definition wifi_start_logging_dummy :: "string option \<Rightarrow> wifi_error" where
  "wifi_start_logging_dummy ring_name = need_pointer (ring_name \<noteq> None)"

section \<open>Handles\<close>

text \<open>
  A handle is the address of its structure. \<open>ifaces\<close> gives the member \<open>handle\<close> of the interface at an address;
  \<open>None\<close> where there is no interface.
\<close>

definition getIfaceInfo :: "ptr \<Rightarrow> ptr" where "getIfaceInfo handle = handle"

definition getWifiHandle :: "(ptr \<Rightarrow> ptr option) \<Rightarrow> ptr \<Rightarrow> ub + ptr" where
  "getWifiHandle ifaces handle = (case ifaces (getIfaceInfo handle) of None \<Rightarrow> Inl Null_deref | Some h \<Rightarrow> Inr h)"

definition getHalInfo :: "ptr \<Rightarrow> ptr" where "getHalInfo handle = handle"

definition iface_getHalInfo :: "(ptr \<Rightarrow> ptr option) \<Rightarrow> ptr \<Rightarrow> ub + ptr" where
  "iface_getHalInfo ifaces handle = map_sum id getHalInfo (getWifiHandle ifaces handle)"

definition info_getWifiHandle :: "ptr \<Rightarrow> ptr" where "info_getWifiHandle info = info"

definition getIfaceHandle :: "ptr \<Rightarrow> ptr" where "getIfaceHandle info = info"

lemma handles_agree:
  "getHalInfo (info_getWifiHandle info) = info" "getIfaceInfo (getIfaceHandle iface) = iface"
  "ifaces iface = Some info \<Longrightarrow> iface_getHalInfo ifaces (getIfaceHandle iface) = Inr info"
  by (simp_all add: getHalInfo_def info_getWifiHandle_def getIfaceInfo_def getIfaceHandle_def iface_getHalInfo_def
      getWifiHandle_def)

section \<open>Accessors\<close>

definition get_vendor_id :: "wifi_event \<Rightarrow> ub + u32" where
  "get_vendor_id ev = get_u32 NL80211_ATTR_VENDOR_ID ev"

definition get_vendor_subcmd :: "wifi_event \<Rightarrow> ub + u32" where
  "get_vendor_subcmd ev = get_u32 NL80211_ATTR_VENDOR_SUBCMD ev"

definition event_get_len :: "nat \<Rightarrow> wifi_event \<Rightarrow> ub + nat" where
  "event_get_len a ev = map_sum id (\<lambda>x. case x of None \<Rightarrow> 0 | Some pl \<Rightarrow> length pl) (get_attribute a ev)"

definition event_get_data :: "nat \<Rightarrow> wifi_event \<Rightarrow> ub + u8 list option" where
  "event_get_data a ev = get_attribute a ev"

text \<open>The numbers at the position of an iterator; the payload is not checked against their size.\<close>

definition payload_word :: "nat \<Rightarrow> u8 list \<Rightarrow> ub + nat" where
  "payload_word n pl = (if length pl < n then Inl Out_of_bounds else Inr (le_val (take n pl)))"

definition iterator_u8 :: "libnl \<Rightarrow> nl_iterator \<Rightarrow> ub + nat" where
  "iterator_u8 lib it = payload_word 1 (iterator_payload lib it)"

definition iterator_u16 :: "libnl \<Rightarrow> nl_iterator \<Rightarrow> ub + nat" where
  "iterator_u16 lib it = payload_word 2 (iterator_payload lib it)"

definition iterator_u32 :: "libnl \<Rightarrow> nl_iterator \<Rightarrow> ub + nat" where
  "iterator_u32 lib it = payload_word 4 (iterator_payload lib it)"

definition iterator_u64 :: "libnl \<Rightarrow> nl_iterator \<Rightarrow> ub + nat" where
  "iterator_u64 lib it = payload_word 8 (iterator_payload lib it)"

text \<open>\<open>create (cmd)\<close> of a request, and the index of the interface; the methods of a command that register its
  event handler. \<open>event_handler\<close> is the address of the callback and \<open>this\<close> that of the command.\<close>

definition create_cmd :: "req_env \<Rightarrow> int \<Rightarrow> wifi_request \<Rightarrow> int \<times> wifi_request" where
  "create_cmd env cmd r = req_create env (mFamily r) cmd r"

definition set_iface_id :: "req_env \<Rightarrow> u32 \<Rightarrow> wifi_request \<Rightarrow> int \<times> wifi_request" where
  "set_iface_id env ifindex r = req_put_u32 env NL80211_ATTR_IFINDEX_id ifindex r"

definition registerHandler :: "ptr \<Rightarrow> ptr \<Rightarrow> int \<Rightarrow> hal_tabs \<Rightarrow> wifi_error \<times> hal_tabs" where
  "registerHandler event_handler this cmd t = wifi_register_handler cmd event_handler this t"

definition unregisterHandler :: "int \<Rightarrow> hal_tabs \<Rightarrow> hal_tabs" where
  "unregisterHandler cmd t = wifi_unregister_handler cmd t"

definition registerVendorHandler :: "ptr \<Rightarrow> ptr \<Rightarrow> u32 \<Rightarrow> int \<Rightarrow> hal_tabs \<Rightarrow> wifi_error \<times> hal_tabs" where
  "registerVendorHandler event_handler this i subcmd t = wifi_register_vendor_handler i subcmd event_handler this t"

definition unregisterVendorHandler :: "u32 \<Rightarrow> int \<Rightarrow> hal_tabs \<Rightarrow> hal_tabs" where
  "unregisterVendorHandler i subcmd t = wifi_unregister_vendor_handler i subcmd t"

section \<open>Scan results\<close>

text \<open>One attribute of a scan result. \<open>strncpy\<close> stops at a NUL and fills up with zeros.\<close>

definition strncpy_bytes :: "u8 list \<Rightarrow> u8 list" where
  "strncpy_bytes bs = (let s = takeWhile (\<lambda>b. b \<noteq> 0) bs in s @ replicate (length bs - length s) 0)"

definition parse_attr :: "nat \<times> u8 list \<Rightarrow> scan_result \<Rightarrow> ub + scan_result" where
  "parse_attr a r =
     (case a of (ty, pl) \<Rightarrow>
      if ty = GSCAN_ATTRIBUTE_SSID then
        (if length pl > DOT11_MAX_SSID_LEN then Inl Out_of_bounds
         else Inr (r\<lparr>sr_ssid := copy_over (strncpy_bytes pl @ [0]) (sr_ssid r)\<rparr>))
      else if ty = GSCAN_ATTRIBUTE_BSSID then
        (if length pl < 6 then Inl Out_of_bounds else Inr (r\<lparr>sr_bssid := take 6 pl\<rparr>))
      else if ty = GSCAN_ATTRIBUTE_TIMESTAMP then map_sum id (\<lambda>n. r\<lparr>sr_ts := word_of_nat n\<rparr>) (payload_word 8 pl)
      else if ty = GSCAN_ATTRIBUTE_CHANNEL then map_sum id (\<lambda>n. r\<lparr>sr_ts := word_of_nat n\<rparr>) (payload_word 2 pl)
      else if ty = GSCAN_ATTRIBUTE_RSSI then map_sum id (\<lambda>n. r\<lparr>sr_rssi := int n\<rparr>) (payload_word 1 pl)
      else if ty = GSCAN_ATTRIBUTE_RTT then map_sum id (\<lambda>n. r\<lparr>sr_rtt := word_of_nat n\<rparr>) (payload_word 8 pl)
      else if ty = GSCAN_ATTRIBUTE_RTTSD then map_sum id (\<lambda>n. r\<lparr>sr_rtt_sd := word_of_nat n\<rparr>) (payload_word 8 pl)
      else Inr r)"

fun parse_attrs :: "(nat \<times> u8 list) list \<Rightarrow> scan_result \<Rightarrow> ub + scan_result" where
  "parse_attrs [] r = Inr r"
| "parse_attrs (a # as) r = (case parse_attr a r of Inl e \<Rightarrow> Inl e | Inr r' \<Rightarrow> parse_attrs as r')"

definition zero_result :: scan_result where
  "zero_result = \<lparr>sr_ts = 0, sr_ssid = replicate (DOT11_MAX_SSID_LEN + 1) 0, sr_bssid = replicate 6 0, sr_channel = 0,
     sr_rssi = 0, sr_rtt = 0, sr_rtt_sd = 0, sr_beacon_period = 0, sr_capability = 0, sr_ie_length = 0\<rparr>"

text \<open>
  The outer loop: \<open>nested\<close> gives the attributes that the inner iterator visits, which takes the payload for an
  attribute with a header of its own. The array has \<open>num\<close> entries.
\<close>

fun parse_results ::
  "(u8 list \<Rightarrow> (nat \<times> u8 list) list) \<Rightarrow> (nat \<times> u8 list) list \<Rightarrow> nat \<Rightarrow> scan_result list \<Rightarrow> ub + nat \<times> scan_result list" where
  "parse_results nested as i results =
     (case as of
        [] \<Rightarrow> Inr (i, results)
      | (index, sc_data) # as' \<Rightarrow>
          if i < length results then
            (case parse_attrs (nested sc_data) (results ! i) of
               Inl e \<Rightarrow> Inl e
             | Inr r \<Rightarrow> parse_results nested as' (i + 1) (results[i := r]))
          else Inr (i, results))"

declare parse_results.simps [simp del]

definition parseScanResults ::
  "(u8 list \<Rightarrow> (nat \<times> u8 list) list) \<Rightarrow> (u8 list \<Rightarrow> (nat \<times> u8 list) list) \<Rightarrow> nat \<Rightarrow> u8 list \<Rightarrow> ub + nat \<times> scan_result list" where
  "parseScanResults iter nested num attr = parse_results nested (iter attr) 0 (replicate num zero_result)"

text \<open>Results never leave the array: as many are stored as there are attributes, up to the size of the array.\<close>

lemma parse_results_bounded:
  assumes "parse_results nested as i results = Inr (n, results')" "i \<le> length results"
  shows "n = min (i + length as) (length results) \<and> length results' = length results \<and>
    take i results' = take i results \<and> drop n results' = drop n results"
  using assms
proof (induction as arbitrary: i results)
  case Nil
  then show ?case by (simp add: parse_results.simps)
next
  case (Cons a as)
  obtain index pl where a: "a = (index, pl)" by (cases a)
  show ?case
  proof (cases "i < length results")
    case False
    with Cons.prems show ?thesis by (subst (asm) parse_results.simps) (simp add: a)
  next
    case True
    with Cons.prems obtain r where r: "parse_results nested as (i + 1) (results[i := r]) = Inr (n, results')"
      by (subst (asm) parse_results.simps) (auto simp: a split: sum.splits)
    from Cons.IH [OF r] True have IH: "n = min (i + 1 + length as) (length results)" "length results' = length results"
      "take (i + 1) results' = take (i + 1) (results[i := r])" "drop n results' = drop n (results[i := r])" by auto
    from arg_cong [OF IH(3), of "take i"] have "take i results' = take i results" by simp
    moreover have "n > i" using IH(1) True by simp
    ultimately show ?thesis using IH(1,2,4) by simp
  qed
qed

lemma scan_results_bounded:
  assumes "parseScanResults iter nested num attr = Inr (n, results)"
  shows "n = min (length (iter attr)) num \<and> length results = num \<and> drop n results = replicate (num - n) zero_result"
  using parse_results_bounded [OF assms [unfolded parseScanResults_def]] by auto

text \<open>The channel is stored over the time stamp, so that the time is lost and the channel stays 0.\<close>

lemma channel_over_timestamp:
  "parse_attrs [(GSCAN_ATTRIBUTE_TIMESTAMP, le_bytes 8 123456), (GSCAN_ATTRIBUTE_CHANNEL, le_bytes 2 2437)] zero_result =
     Inr (zero_result\<lparr>sr_ts := 2437\<rparr>)"
  by (simp add: parse_attr_def payload_word_def le_val_bytes GSCAN_ATTRIBUTE_SSID_def GSCAN_ATTRIBUTE_BSSID_def
      GSCAN_ATTRIBUTE_TIMESTAMP_def GSCAN_ATTRIBUTE_CHANNEL_def)

text \<open>An SSID that is too long is written past its field.\<close>

lemma parse_long_ssid: "32 < length pl \<Longrightarrow> parse_attrs ((GSCAN_ATTRIBUTE_SSID, pl) # as) r = Inl Out_of_bounds"
  by (simp add: parse_attr_def DOT11_MAX_SSID_LEN_def)

end
