(* ===== verification/Offload.thy ===== *)
theory Offload
  imports Gscan_Wire
begin

text \<open>
  Offloaded keep-alive packets (\<open>wifi_hal/wifi_offload.cpp\<close>): the request that starts or stops a
  periodic packet, and the checks of the two functions of the HAL. The limits \<open>N_AVAIL_ID\<close> and
  \<open>MKEEP_ALIVE_IP_PKT_MAX\<close> come from an Android header and are parameters.
\<close>

definition WIFI_OFFLOAD_START_MKEEP_ALIVE :: u32 where "WIFI_OFFLOAD_START_MKEEP_ALIVE = 0x1600"
definition WIFI_OFFLOAD_STOP_MKEEP_ALIVE :: u32 where "WIFI_OFFLOAD_STOP_MKEEP_ALIVE = 0x1601"

definition MKEEP_ALIVE_ATTRIBUTE_ID :: nat where "MKEEP_ALIVE_ATTRIBUTE_ID = 1"
definition MKEEP_ALIVE_ATTRIBUTE_IP_PKT_LEN :: nat where "MKEEP_ALIVE_ATTRIBUTE_IP_PKT_LEN = 2"
definition MKEEP_ALIVE_ATTRIBUTE_IP_PKT :: nat where "MKEEP_ALIVE_ATTRIBUTE_IP_PKT = 3"
definition MKEEP_ALIVE_ATTRIBUTE_SRC_MAC_ADDR :: nat where "MKEEP_ALIVE_ATTRIBUTE_SRC_MAC_ADDR = 4"
definition MKEEP_ALIVE_ATTRIBUTE_DST_MAC_ADDR :: nat where "MKEEP_ALIVE_ATTRIBUTE_DST_MAC_ADDR = 5"
definition MKEEP_ALIVE_ATTRIBUTE_PERIOD_MSEC :: nat where "MKEEP_ALIVE_ATTRIBUTE_PERIOD_MSEC = 6"

lemmas mkeep_alive_attributes = MKEEP_ALIVE_ATTRIBUTE_ID_def MKEEP_ALIVE_ATTRIBUTE_IP_PKT_LEN_def
  MKEEP_ALIVE_ATTRIBUTE_IP_PKT_def MKEEP_ALIVE_ATTRIBUTE_SRC_MAC_ADDR_def
  MKEEP_ALIVE_ATTRIBUTE_DST_MAC_ADDR_def MKEEP_ALIVE_ATTRIBUTE_PERIOD_MSEC_def

text \<open>
  The members of \<open>MKeepAliveCommand\<close>, with the constructor that set them: to start sending, or to stop.
  \<open>ka_ip\<close> is the memory at the caller's pointer, of which \<open>ka_ip_len\<close> bytes are sent.
\<close>

record keep_alive =
  ka_index :: u8
  ka_ip :: "u8 list"
  ka_ip_len :: u16
  ka_src :: mac
  ka_dst :: mac
  ka_period :: u32

datatype mkeep_alive = START_MKEEP_ALIVE keep_alive | STOP_MKEEP_ALIVE u8

fun keep_alive_steps :: "mkeep_alive \<Rightarrow> req_step list" where
  "keep_alive_steps (START_MKEEP_ALIVE ka) =
     [Start NL80211_ATTR_VENDOR_DATA False,
      put_u8 MKEEP_ALIVE_ATTRIBUTE_ID (ka_index ka),
      put_u16 MKEEP_ALIVE_ATTRIBUTE_IP_PKT_LEN (ka_ip_len ka),
      (if length (ka_ip ka) < unat (ka_ip_len ka) then Fault Out_of_bounds
       else Put MKEEP_ALIVE_ATTRIBUTE_IP_PKT (take (unat (ka_ip_len ka)) (ka_ip ka))),
      put_addr MKEEP_ALIVE_ATTRIBUTE_SRC_MAC_ADDR (ka_src ka),
      put_addr MKEEP_ALIVE_ATTRIBUTE_DST_MAC_ADDR (ka_dst ka),
      put_u32 MKEEP_ALIVE_ATTRIBUTE_PERIOD_MSEC (ka_period ka),
      End]"
| "keep_alive_steps (STOP_MKEEP_ALIVE idx) =
     [Start NL80211_ATTR_VENDOR_DATA False, put_u8 MKEEP_ALIVE_ATTRIBUTE_ID idx, End]"

fun keep_alive_subcmd :: "mkeep_alive \<Rightarrow> u32" where
  "keep_alive_subcmd (START_MKEEP_ALIVE ka) = WIFI_OFFLOAD_START_MKEEP_ALIVE"
| "keep_alive_subcmd (STOP_MKEEP_ALIVE idx) = WIFI_OFFLOAD_STOP_MKEEP_ALIVE"

text \<open>\<open>MKeepAliveCommand::createRequest\<close>: here the result of \<open>create\<close> is compared with \<open>WIFI_SUCCESS\<close>.\<close>

definition keep_alive_createRequest ::
  "req_env \<Rightarrow> mkeep_alive \<Rightarrow> wifi_request \<Rightarrow> ub + int \<times> wifi_request" where
  "keep_alive_createRequest env t r =
     (let (res, r1) = req_create_vendor env GOOGLE_OUI (keep_alive_subcmd t) r
      in if res \<noteq> WIFI_SUCCESS then Inr (res, r1) else assemble env (keep_alive_steps t) [] (res, r1))"

text \<open>\<open>MKeepAliveCommand::start\<close>; the handler of the replies only looks at their type.\<close>

definition keep_alive_start :: "req_env \<Rightarrow> unit cmd_net \<Rightarrow> wifi_request \<Rightarrow> mkeep_alive \<Rightarrow> wifi_error run" where
  "keep_alive_start env net r t = transact_ne net (keep_alive_createRequest env t r)"

text \<open>The caller's pointers are options; the index is a request id of which one byte is sent.\<close>

definition wifi_start_sending_offloaded_packet ::
  "int \<Rightarrow> nat \<Rightarrow> req_env \<Rightarrow> unit cmd_net \<Rightarrow> wifi_request \<Rightarrow> int \<Rightarrow> u8 list option \<Rightarrow> u16 \<Rightarrow> mac option \<Rightarrow> mac option
    \<Rightarrow> u32 \<Rightarrow> wifi_error run" where
  "wifi_start_sending_offloaded_packet N_AVAIL_ID MKEEP_ALIVE_IP_PKT_MAX env net r idx ip len src dst period =
     (case (ip, src, dst) of
        (Some ip', Some src', Some dst') \<Rightarrow>
          if 0 < idx \<and> idx \<le> N_AVAIL_ID \<and> 0 < period \<and> unat len \<le> MKEEP_ALIVE_IP_PKT_MAX
          then keep_alive_start env net r (START_MKEEP_ALIVE
                 \<lparr>ka_index = word_of_int idx, ka_ip = ip', ka_ip_len = len, ka_src = src', ka_dst = dst',
                  ka_period = period\<rparr>)
          else ret WIFI_ERROR_INVALID_ARGS
      | _ \<Rightarrow> ret WIFI_ERROR_INVALID_ARGS)"

definition wifi_stop_sending_offloaded_packet ::
  "int \<Rightarrow> req_env \<Rightarrow> unit cmd_net \<Rightarrow> wifi_request \<Rightarrow> int \<Rightarrow> wifi_error run" where
  "wifi_stop_sending_offloaded_packet N_AVAIL_ID env net r idx =
     (if 0 < idx \<and> idx \<le> N_AVAIL_ID then keep_alive_start env net r (STOP_MKEEP_ALIVE (word_of_int idx))
      else ret WIFI_ERROR_INVALID_ARGS)"

section \<open>Correctness\<close>

lemma keep_alive_as_request:
  assumes "keep_alive_createRequest env t r = Inr (res, r')"
  shows "res > 0 \<or> vendor_request env (keep_alive_subcmd t) (keep_alive_steps t) r = Inr (res, r')"
  using assms
  by (auto simp: keep_alive_createRequest_def vendor_request_def wifi_codes split: prod.splits if_splits)

lemma encodes_keep_alive:
  assumes "unat (ka_ip_len ka) \<le> length (ka_ip ka)"
  shows "encodes (keep_alive_steps (START_MKEEP_ALIVE ka))
     [Nest NL80211_ATTR_VENDOR_DATA
       [Attr MKEEP_ALIVE_ATTRIBUTE_ID [ka_index ka], u16_attr MKEEP_ALIVE_ATTRIBUTE_IP_PKT_LEN (ka_ip_len ka),
        Attr MKEEP_ALIVE_ATTRIBUTE_IP_PKT (take (unat (ka_ip_len ka)) (ka_ip ka)),
        Attr MKEEP_ALIVE_ATTRIBUTE_SRC_MAC_ADDR (take 6 (ka_src ka)),
        Attr MKEEP_ALIVE_ATTRIBUTE_DST_MAC_ADDR (take 6 (ka_dst ka)),
        u32_attr MKEEP_ALIVE_ATTRIBUTE_PERIOD_MSEC (ka_period ka)]]"
proof -
  have "encodes ([put_u8 MKEEP_ALIVE_ATTRIBUTE_ID (ka_index ka), put_u16 MKEEP_ALIVE_ATTRIBUTE_IP_PKT_LEN (ka_ip_len ka),
      Put MKEEP_ALIVE_ATTRIBUTE_IP_PKT (take (unat (ka_ip_len ka)) (ka_ip ka)),
      put_addr MKEEP_ALIVE_ATTRIBUTE_SRC_MAC_ADDR (ka_src ka), put_addr MKEEP_ALIVE_ATTRIBUTE_DST_MAC_ADDR (ka_dst ka),
      put_u32 MKEEP_ALIVE_ATTRIBUTE_PERIOD_MSEC (ka_period ka)])
     [Attr MKEEP_ALIVE_ATTRIBUTE_ID [ka_index ka], u16_attr MKEEP_ALIVE_ATTRIBUTE_IP_PKT_LEN (ka_ip_len ka),
      Attr MKEEP_ALIVE_ATTRIBUTE_IP_PKT (take (unat (ka_ip_len ka)) (ka_ip ka)),
      Attr MKEEP_ALIVE_ATTRIBUTE_SRC_MAC_ADDR (take 6 (ka_src ka)),
      Attr MKEEP_ALIVE_ATTRIBUTE_DST_MAC_ADDR (take 6 (ka_dst ka)),
      u32_attr MKEEP_ALIVE_ATTRIBUTE_PERIOD_MSEC (ka_period ka)]"
    by (auto simp: put_u8_def put_u16_def put_u32_def put_addr_def intro!: encodes.put)
  from encodes_nest [OF this, of NL80211_ATTR_VENDOR_DATA False] show ?thesis using assms by simp
qed

lemma keep_alive_total:
  assumes "nests_ok env \<or> nla_room env" "\<And>ka. t = START_MKEEP_ALIVE ka \<Longrightarrow> unat (ka_ip_len ka) \<le> length (ka_ip ka)"
  shows "\<exists>res r'. keep_alive_createRequest env t r = Inr (res, r')"
proof -
  obtain res r1 where c: "req_create_vendor env GOOGLE_OUI (keep_alive_subcmd t) r = (res, r1)" by force
  show ?thesis
  proof (cases "res = WIFI_SUCCESS")
    case True
    with create_vendor_message [OF c] have m: "mMsg r1 \<noteq> None" by (auto simp: wifi_codes)
    have g: "guarded (keep_alive_steps t)" "balance (keep_alive_steps t) 0 \<noteq> None"
      using assms(2) by (cases t; simp add: put_u8_def put_u16_def put_u32_def put_addr_def)+
    from assemble_total [of env "keep_alive_steps t" 0 r1 res] assms(1) g m c True show ?thesis
      by (auto simp: keep_alive_createRequest_def)
  qed (use c in \<open>simp add: keep_alive_createRequest_def\<close>)
qed

text \<open>
  A keep-alive packet is sent as the caller gave it. When the request is created without error, a
  reader finds the start command, the index, the length and exactly that many bytes of the packet, both
  addresses and the period.
\<close>

lemma keep_alive_roundtrip:
  assumes "keep_alive_createRequest env (START_MKEEP_ALIVE ka) r = Inr (WIFI_SUCCESS, r')"
    and "unat (ka_ip_len ka) \<le> length (ka_ip ka)" "length (ka_src ka) = 6" "length (ka_dst ka) = 6"
  shows "\<exists>m vs. mMsg r' = Some m \<and> vs = read_list NL80211_ATTR_VENDOR_DATA (nm_attrs m) \<and>
     read_u32 NL80211_ATTR_VENDOR_SUBCMD (nm_attrs m) = Some WIFI_OFFLOAD_START_MKEEP_ALIVE \<and>
     map_option payload (lookup_attr MKEEP_ALIVE_ATTRIBUTE_ID vs) = Some [ka_index ka] \<and>
     read_u16 MKEEP_ALIVE_ATTRIBUTE_IP_PKT_LEN vs = Some (ka_ip_len ka) \<and>
     map_option payload (lookup_attr MKEEP_ALIVE_ATTRIBUTE_IP_PKT vs) = Some (take (unat (ka_ip_len ka)) (ka_ip ka)) \<and>
     map_option payload (lookup_attr MKEEP_ALIVE_ATTRIBUTE_SRC_MAC_ADDR vs) = Some (ka_src ka) \<and>
     map_option payload (lookup_attr MKEEP_ALIVE_ATTRIBUTE_DST_MAC_ADDR vs) = Some (ka_dst ka) \<and>
     read_u32 MKEEP_ALIVE_ATTRIBUTE_PERIOD_MSEC vs = Some (ka_period ka)"
proof -
  have "vendor_request env WIFI_OFFLOAD_START_MKEEP_ALIVE (keep_alive_steps (START_MKEEP_ALIVE ka)) r = Inr (0, r')"
    using keep_alive_as_request [OF assms(1)] by (simp add: wifi_codes del: keep_alive_steps.simps)
  from vendor_request_carries [OF encodes_keep_alive [OF assms(2)] this] assms(3,4) show ?thesis
    by (auto simp: read_u32_def read_u16_def read_list_def mkeep_alive_attributes le_u32_bytes le_u16_bytes
        NL80211_ATTR_VENDOR_ID_def NL80211_ATTR_VENDOR_SUBCMD_def NL80211_ATTR_VENDOR_DATA_def
        NL80211_ATTR_IFINDEX_id_def)
qed

definition some_keep_alive :: keep_alive where
  "some_keep_alive = \<lparr>ka_index = 1, ka_ip = [0x45, 0, 0, 1], ka_ip_len = 3, ka_src = [2, 0, 0, 0, 0, 1],
     ka_dst = [2, 0, 0, 0, 0, 9], ka_period = 30000\<rparr>"

lemma some_keep_alive_created:
  "\<exists>r'. keep_alive_createRequest roomy (START_MKEEP_ALIVE some_keep_alive) (new_request 20 5) = Inr (WIFI_SUCCESS, r')"
proof -
  have "unat (ka_ip_len some_keep_alive) \<le> length (ka_ip some_keep_alive)" by (simp add: some_keep_alive_def)
  from roomy_request [OF encodes_keep_alive [OF this]] obtain r' where
    v: "vendor_request roomy WIFI_OFFLOAD_START_MKEEP_ALIVE (keep_alive_steps (START_MKEEP_ALIVE some_keep_alive))
      (new_request 20 5) = Inr (0, r')" by blast
  obtain res r1 where c: "req_create_vendor roomy GOOGLE_OUI WIFI_OFFLOAD_START_MKEEP_ALIVE (new_request 20 5) = (res, r1)"
    by force
  from roomy_create [OF c] v c show ?thesis
    by (auto simp: keep_alive_createRequest_def vendor_request_def wifi_codes simp del: keep_alive_steps.simps)
qed


definition acking_skip :: "unit cmd_net" where
  "acking_skip = \<lparr>nl_cb_alloc_ok = True, nl_send_ret = 40, nl_recv = (\<lambda>_. [Ev_ack])\<rparr>"


end
