(* ===== verification/Wifi_Log.thy ===== *)
theory Wifi_Log
  imports Wifi_Event
begin

text \<open>
  What the HAL writes to the log about a message (\<open>WifiEvent::log\<close>, \<open>cmdToString\<close>, \<open>attributeToString\<close> in
  \<open>wifi_hal/cpp_bindings.cpp\<close>, \<open>get_err_info\<close> in \<open>rtt.cpp\<close>). The lines of the hex dump are put together in
  an array of 81 characters without a check; they always fit. The numbers of commands and attributes are
  those of the kernel's header and a parameter, \<open>val\<close>.
\<close>

section \<open>Names\<close>

definition cmd_names :: "string list" where
  "cmd_names = [
    ''NL80211_CMD_UNSPEC'', ''NL80211_CMD_GET_WIPHY'', ''NL80211_CMD_SET_WIPHY'', ''NL80211_CMD_NEW_WIPHY'',
    ''NL80211_CMD_DEL_WIPHY'', ''NL80211_CMD_GET_INTERFACE'', ''NL80211_CMD_SET_INTERFACE'',
    ''NL80211_CMD_NEW_INTERFACE'', ''NL80211_CMD_DEL_INTERFACE'', ''NL80211_CMD_GET_KEY'',
    ''NL80211_CMD_SET_KEY'', ''NL80211_CMD_NEW_KEY'', ''NL80211_CMD_DEL_KEY'', ''NL80211_CMD_GET_BEACON'',
    ''NL80211_CMD_SET_BEACON'', ''NL80211_CMD_START_AP'', ''NL80211_CMD_STOP_AP'',
    ''NL80211_CMD_GET_STATION'', ''NL80211_CMD_SET_STATION'', ''NL80211_CMD_NEW_STATION'',
    ''NL80211_CMD_DEL_STATION'', ''NL80211_CMD_GET_MPATH'', ''NL80211_CMD_SET_MPATH'',
    ''NL80211_CMD_NEW_MPATH'', ''NL80211_CMD_DEL_MPATH'', ''NL80211_CMD_SET_BSS'', ''NL80211_CMD_SET_REG'',
    ''NL80211_CMD_REQ_SET_REG'', ''NL80211_CMD_GET_MESH_CONFIG'', ''NL80211_CMD_SET_MESH_CONFIG'',
    ''NL80211_CMD_SET_MGMT_EXTRA_IE'', ''NL80211_CMD_GET_REG'', ''NL80211_CMD_GET_SCAN'',
    ''NL80211_CMD_TRIGGER_SCAN'', ''NL80211_CMD_NEW_SCAN_RESULTS'', ''NL80211_CMD_SCAN_ABORTED'',
    ''NL80211_CMD_REG_CHANGE'', ''NL80211_CMD_AUTHENTICATE'', ''NL80211_CMD_ASSOCIATE'',
    ''NL80211_CMD_DEAUTHENTICATE'', ''NL80211_CMD_DISASSOCIATE'', ''NL80211_CMD_MICHAEL_MIC_FAILURE'',
    ''NL80211_CMD_REG_BEACON_HINT'', ''NL80211_CMD_JOIN_IBSS'', ''NL80211_CMD_LEAVE_IBSS'',
    ''NL80211_CMD_TESTMODE'', ''NL80211_CMD_CONNECT'', ''NL80211_CMD_ROAM'', ''NL80211_CMD_DISCONNECT'',
    ''NL80211_CMD_SET_WIPHY_NETNS'', ''NL80211_CMD_GET_SURVEY'', ''NL80211_CMD_NEW_SURVEY_RESULTS'',
    ''NL80211_CMD_SET_PMKSA'', ''NL80211_CMD_DEL_PMKSA'', ''NL80211_CMD_FLUSH_PMKSA'',
    ''NL80211_CMD_REMAIN_ON_CHANNEL'', ''NL80211_CMD_CANCEL_REMAIN_ON_CHANNEL'',
    ''NL80211_CMD_SET_TX_BITRATE_MASK'', ''NL80211_CMD_REGISTER_FRAME'', ''NL80211_CMD_FRAME'',
    ''NL80211_CMD_FRAME_TX_STATUS'', ''NL80211_CMD_SET_POWER_SAVE'', ''NL80211_CMD_GET_POWER_SAVE'',
    ''NL80211_CMD_SET_CQM'', ''NL80211_CMD_NOTIFY_CQM'', ''NL80211_CMD_SET_CHANNEL'',
    ''NL80211_CMD_SET_WDS_PEER'', ''NL80211_CMD_FRAME_WAIT_CANCEL'', ''NL80211_CMD_JOIN_MESH'',
    ''NL80211_CMD_LEAVE_MESH'', ''NL80211_CMD_UNPROT_DEAUTHENTICATE'', ''NL80211_CMD_UNPROT_DISASSOCIATE'',
    ''NL80211_CMD_NEW_PEER_CANDIDATE'', ''NL80211_CMD_GET_WOWLAN'', ''NL80211_CMD_SET_WOWLAN'',
    ''NL80211_CMD_START_SCHED_SCAN'', ''NL80211_CMD_STOP_SCHED_SCAN'', ''NL80211_CMD_SCHED_SCAN_RESULTS'',
    ''NL80211_CMD_SCHED_SCAN_STOPPED'', ''NL80211_CMD_SET_REKEY_OFFLOAD'', ''NL80211_CMD_PMKSA_CANDIDATE'',
    ''NL80211_CMD_TDLS_OPER'', ''NL80211_CMD_TDLS_MGMT'', ''NL80211_CMD_UNEXPECTED_FRAME'',
    ''NL80211_CMD_PROBE_CLIENT'', ''NL80211_CMD_REGISTER_BEACONS'', ''NL80211_CMD_UNEXPECTED_4ADDR_FRAME'',
    ''NL80211_CMD_SET_NOACK_MAP'', ''NL80211_CMD_CH_SWITCH_NOTIFY'', ''NL80211_CMD_START_P2P_DEVICE'',
    ''NL80211_CMD_STOP_P2P_DEVICE'', ''NL80211_CMD_CONN_FAILED'', ''NL80211_CMD_SET_MCAST_RATE'',
    ''NL80211_CMD_SET_MAC_ACL'', ''NL80211_CMD_RADAR_DETECT'', ''NL80211_CMD_GET_PROTOCOL_FEATURES'',
    ''NL80211_CMD_UPDATE_FT_IES'', ''NL80211_CMD_FT_EVENT'', ''NL80211_CMD_CRIT_PROTOCOL_START'',
    ''NL80211_CMD_CRIT_PROTOCOL_STOP'', ''NL80211_CMD_GET_COALESCE'', ''NL80211_CMD_SET_COALESCE'',
    ''NL80211_CMD_CHANNEL_SWITCH'', ''NL80211_CMD_VENDOR'', ''NL80211_CMD_SET_QOS_MAP'']"

definition attribute_names1 :: "string list" where
  "attribute_names1 = [
    ''NL80211_ATTR_UNSPEC'', ''NL80211_ATTR_WIPHY'', ''NL80211_ATTR_WIPHY_NAME'', ''NL80211_ATTR_IFINDEX'',
    ''NL80211_ATTR_IFNAME'', ''NL80211_ATTR_IFTYPE'', ''NL80211_ATTR_MAC'', ''NL80211_ATTR_KEY_DATA'',
    ''NL80211_ATTR_KEY_IDX'', ''NL80211_ATTR_KEY_CIPHER'', ''NL80211_ATTR_KEY_SEQ'',
    ''NL80211_ATTR_KEY_DEFAULT'', ''NL80211_ATTR_BEACON_INTERVAL'', ''NL80211_ATTR_DTIM_PERIOD'',
    ''NL80211_ATTR_BEACON_HEAD'', ''NL80211_ATTR_BEACON_TAIL'', ''NL80211_ATTR_STA_AID'',
    ''NL80211_ATTR_STA_FLAGS'', ''NL80211_ATTR_STA_LISTEN_INTERVAL'', ''NL80211_ATTR_STA_SUPPORTED_RATES'',
    ''NL80211_ATTR_STA_VLAN'', ''NL80211_ATTR_STA_INFO'', ''NL80211_ATTR_WIPHY_BANDS'',
    ''NL80211_ATTR_MNTR_FLAGS'', ''NL80211_ATTR_MESH_ID'', ''NL80211_ATTR_STA_PLINK_ACTION'',
    ''NL80211_ATTR_MPATH_NEXT_HOP'', ''NL80211_ATTR_MPATH_INFO'', ''NL80211_ATTR_BSS_CTS_PROT'',
    ''NL80211_ATTR_BSS_SHORT_PREAMBLE'', ''NL80211_ATTR_BSS_SHORT_SLOT_TIME'',
    ''NL80211_ATTR_HT_CAPABILITY'', ''NL80211_ATTR_SUPPORTED_IFTYPES'', ''NL80211_ATTR_REG_ALPHA2'',
    ''NL80211_ATTR_REG_RULES'', ''NL80211_ATTR_MESH_CONFIG'', ''NL80211_ATTR_BSS_BASIC_RATES'',
    ''NL80211_ATTR_WIPHY_TXQ_PARAMS'', ''NL80211_ATTR_WIPHY_FREQ'', ''NL80211_ATTR_WIPHY_CHANNEL_TYPE'',
    ''NL80211_ATTR_KEY_DEFAULT_MGMT'', ''NL80211_ATTR_MGMT_SUBTYPE'', ''NL80211_ATTR_IE'',
    ''NL80211_ATTR_MAX_NUM_SCAN_SSIDS'', ''NL80211_ATTR_SCAN_FREQUENCIES'', ''NL80211_ATTR_SCAN_SSIDS'',
    ''NL80211_ATTR_GENERATION'', ''NL80211_ATTR_BSS'', ''NL80211_ATTR_REG_INITIATOR'',
    ''NL80211_ATTR_REG_TYPE'', ''NL80211_ATTR_SUPPORTED_COMMANDS'', ''NL80211_ATTR_FRAME'',
    ''NL80211_ATTR_SSID'', ''NL80211_ATTR_AUTH_TYPE'', ''NL80211_ATTR_REASON_CODE'',
    ''NL80211_ATTR_KEY_TYPE'', ''NL80211_ATTR_MAX_SCAN_IE_LEN'', ''NL80211_ATTR_CIPHER_SUITES'',
    ''NL80211_ATTR_FREQ_BEFORE'', ''NL80211_ATTR_FREQ_AFTER'', ''NL80211_ATTR_FREQ_FIXED'',
    ''NL80211_ATTR_WIPHY_RETRY_SHORT'', ''NL80211_ATTR_WIPHY_RETRY_LONG'',
    ''NL80211_ATTR_WIPHY_FRAG_THRESHOLD'', ''NL80211_ATTR_WIPHY_RTS_THRESHOLD'', ''NL80211_ATTR_TIMED_OUT'']"

definition attribute_names2 :: "string list" where
  "attribute_names2 = [
    ''NL80211_ATTR_USE_MFP'', ''NL80211_ATTR_STA_FLAGS2'', ''NL80211_ATTR_CONTROL_PORT'',
    ''NL80211_ATTR_TESTDATA'', ''NL80211_ATTR_PRIVACY'', ''NL80211_ATTR_DISCONNECTED_BY_AP'',
    ''NL80211_ATTR_STATUS_CODE'', ''NL80211_ATTR_CIPHER_SUITES_PAIRWISE'',
    ''NL80211_ATTR_CIPHER_SUITE_GROUP'', ''NL80211_ATTR_WPA_VERSIONS'', ''NL80211_ATTR_AKM_SUITES'',
    ''NL80211_ATTR_REQ_IE'', ''NL80211_ATTR_RESP_IE'', ''NL80211_ATTR_PREV_BSSID'', ''NL80211_ATTR_KEY'',
    ''NL80211_ATTR_KEYS'', ''NL80211_ATTR_PID'', ''NL80211_ATTR_4ADDR'', ''NL80211_ATTR_SURVEY_INFO'',
    ''NL80211_ATTR_PMKID'', ''NL80211_ATTR_MAX_NUM_PMKIDS'', ''NL80211_ATTR_DURATION'',
    ''NL80211_ATTR_COOKIE'', ''NL80211_ATTR_WIPHY_COVERAGE_CLASS'', ''NL80211_ATTR_TX_RATES'',
    ''NL80211_ATTR_FRAME_MATCH'', ''NL80211_ATTR_ACK'', ''NL80211_ATTR_PS_STATE'', ''NL80211_ATTR_CQM'',
    ''NL80211_ATTR_LOCAL_STATE_CHANGE'', ''NL80211_ATTR_AP_ISOLATE'',
    ''NL80211_ATTR_WIPHY_TX_POWER_SETTING'', ''NL80211_ATTR_WIPHY_TX_POWER_LEVEL'',
    ''NL80211_ATTR_TX_FRAME_TYPES'', ''NL80211_ATTR_RX_FRAME_TYPES'', ''NL80211_ATTR_FRAME_TYPE'',
    ''NL80211_ATTR_CONTROL_PORT_ETHERTYPE'', ''NL80211_ATTR_CONTROL_PORT_NO_ENCRYPT'',
    ''NL80211_ATTR_SUPPORT_IBSS_RSN'', ''NL80211_ATTR_WIPHY_ANTENNA_TX'', ''NL80211_ATTR_WIPHY_ANTENNA_RX'',
    ''NL80211_ATTR_MCAST_RATE'', ''NL80211_ATTR_OFFCHANNEL_TX_OK'', ''NL80211_ATTR_BSS_HT_OPMODE'',
    ''NL80211_ATTR_KEY_DEFAULT_TYPES'', ''NL80211_ATTR_MAX_REMAIN_ON_CHANNEL_DURATION'',
    ''NL80211_ATTR_MESH_SETUP'', ''NL80211_ATTR_WIPHY_ANTENNA_AVAIL_TX'',
    ''NL80211_ATTR_WIPHY_ANTENNA_AVAIL_RX'', ''NL80211_ATTR_SUPPORT_MESH_AUTH'',
    ''NL80211_ATTR_STA_PLINK_STATE'', ''NL80211_ATTR_WOWLAN_TRIGGERS'',
    ''NL80211_ATTR_WOWLAN_TRIGGERS_SUPPORTED'', ''NL80211_ATTR_SCHED_SCAN_INTERVAL'',
    ''NL80211_ATTR_INTERFACE_COMBINATIONS'', ''NL80211_ATTR_SOFTWARE_IFTYPES'', ''NL80211_ATTR_REKEY_DATA'',
    ''NL80211_ATTR_MAX_NUM_SCHED_SCAN_SSIDS'', ''NL80211_ATTR_MAX_SCHED_SCAN_IE_LEN'',
    ''NL80211_ATTR_SCAN_SUPP_RATES'', ''NL80211_ATTR_HIDDEN_SSID'', ''NL80211_ATTR_IE_PROBE_RESP'',
    ''NL80211_ATTR_IE_ASSOC_RESP'', ''NL80211_ATTR_STA_WME'', ''NL80211_ATTR_SUPPORT_AP_UAPSD'',
    ''NL80211_ATTR_ROAM_SUPPORT'', ''NL80211_ATTR_SCHED_SCAN_MATCH'']"

definition attribute_names3 :: "string list" where
  "attribute_names3 = [
    ''NL80211_ATTR_MAX_MATCH_SETS'', ''NL80211_ATTR_PMKSA_CANDIDATE'', ''NL80211_ATTR_TX_NO_CCK_RATE'',
    ''NL80211_ATTR_TDLS_ACTION'', ''NL80211_ATTR_TDLS_DIALOG_TOKEN'', ''NL80211_ATTR_TDLS_OPERATION'',
    ''NL80211_ATTR_TDLS_SUPPORT'', ''NL80211_ATTR_TDLS_EXTERNAL_SETUP'', ''NL80211_ATTR_DEVICE_AP_SME'',
    ''NL80211_ATTR_DONT_WAIT_FOR_ACK'', ''NL80211_ATTR_FEATURE_FLAGS'', ''NL80211_ATTR_PROBE_RESP_OFFLOAD'',
    ''NL80211_ATTR_PROBE_RESP'', ''NL80211_ATTR_DFS_REGION'', ''NL80211_ATTR_DISABLE_HT'',
    ''NL80211_ATTR_HT_CAPABILITY_MASK'', ''NL80211_ATTR_NOACK_MAP'', ''NL80211_ATTR_INACTIVITY_TIMEOUT'',
    ''NL80211_ATTR_RX_SIGNAL_DBM'', ''NL80211_ATTR_BG_SCAN_PERIOD'', ''NL80211_ATTR_WDEV'',
    ''NL80211_ATTR_USER_REG_HINT_TYPE'', ''NL80211_ATTR_CONN_FAILED_REASON'', ''NL80211_ATTR_SAE_DATA'',
    ''NL80211_ATTR_VHT_CAPABILITY'', ''NL80211_ATTR_SCAN_FLAGS'', ''NL80211_ATTR_CHANNEL_WIDTH'',
    ''NL80211_ATTR_CENTER_FREQ1'', ''NL80211_ATTR_CENTER_FREQ2'', ''NL80211_ATTR_P2P_CTWINDOW'',
    ''NL80211_ATTR_P2P_OPPPS'', ''NL80211_ATTR_LOCAL_MESH_POWER_MODE'', ''NL80211_ATTR_ACL_POLICY'',
    ''NL80211_ATTR_MAC_ADDRS'', ''NL80211_ATTR_MAC_ACL_MAX'', ''NL80211_ATTR_RADAR_EVENT'',
    ''NL80211_ATTR_EXT_CAPA'', ''NL80211_ATTR_EXT_CAPA_MASK'', ''NL80211_ATTR_STA_CAPABILITY'',
    ''NL80211_ATTR_STA_EXT_CAPABILITY'', ''NL80211_ATTR_PROTOCOL_FEATURES'',
    ''NL80211_ATTR_SPLIT_WIPHY_DUMP'', ''NL80211_ATTR_DISABLE_VHT'', ''NL80211_ATTR_VHT_CAPABILITY_MASK'',
    ''NL80211_ATTR_MDID'', ''NL80211_ATTR_IE_RIC'', ''NL80211_ATTR_CRIT_PROT_ID'',
    ''NL80211_ATTR_MAX_CRIT_PROT_DURATION'', ''NL80211_ATTR_PEER_AID'', ''NL80211_ATTR_COALESCE_RULE'',
    ''NL80211_ATTR_CH_SWITCH_COUNT'', ''NL80211_ATTR_CH_SWITCH_BLOCK_TX'', ''NL80211_ATTR_CSA_IES'',
    ''NL80211_ATTR_CSA_C_OFF_BEACON'', ''NL80211_ATTR_CSA_C_OFF_PRESP'', ''NL80211_ATTR_RXMGMT_FLAGS'',
    ''NL80211_ATTR_STA_SUPPORTED_CHANNELS'', ''NL80211_ATTR_STA_SUPPORTED_OPER_CLASSES'',
    ''NL80211_ATTR_HANDLE_DFS'', ''NL80211_ATTR_SUPPORT_5_MHZ'', ''NL80211_ATTR_SUPPORT_10_MHZ'',
    ''NL80211_ATTR_OPMODE_NOTIF'', ''NL80211_ATTR_VENDOR_ID'', ''NL80211_ATTR_VENDOR_SUBCMD'',
    ''NL80211_ATTR_VENDOR_DATA'', ''NL80211_ATTR_VENDOR_EVENTS'', ''NL80211_ATTR_QOS_MAP'']"

definition attribute_names :: "string list" where
  "attribute_names = attribute_names1 @ attribute_names2 @ attribute_names3"

text \<open>A \<open>switch\<close> over constants: the name whose number is the one looked for.\<close>

definition name_of :: "(string \<Rightarrow> int) \<Rightarrow> string list \<Rightarrow> string \<Rightarrow> int \<Rightarrow> string" where
  "name_of val names unknown x = (case find (\<lambda>n. val n = x) names of None \<Rightarrow> unknown | Some n \<Rightarrow> n)"

definition cmdToString :: "(string \<Rightarrow> int) \<Rightarrow> int \<Rightarrow> string" where
  "cmdToString val cmd = name_of val cmd_names ''NL80211_CMD_UNKNOWN'' cmd"

definition attributeToString :: "(string \<Rightarrow> int) \<Rightarrow> int \<Rightarrow> string" where
  "attributeToString val attribute = name_of val attribute_names ''NL80211_ATTR_UNKNOWN'' attribute"

text \<open>The table of measurement results, with the numbers of the Android header as \<open>val\<close>.\<close>

definition err_info :: "(string \<times> string) list" where
  "err_info = [(''RTT_STATUS_SUCCESS'', ''Success''), (''RTT_STATUS_FAILURE'', ''Failure''),
    (''RTT_STATUS_FAIL_NO_RSP'', ''No reponse''), (''RTT_STATUS_FAIL_INVALID_TS'', ''Invalid Timestamp''),
    (''RTT_STATUS_FAIL_PROTOCOL'', ''Protocol error''), (''RTT_STATUS_FAIL_REJECTED'', ''Rejected''),
    (''RTT_STATUS_FAIL_NOT_SCHEDULED_YET'', ''not scheduled''), (''RTT_STATUS_FAIL_SCHEDULE'', ''schedule failed''),
    (''RTT_STATUS_FAIL_TM_TIMEOUT'', ''timeout''),
    (''RTT_STATUS_FAIL_AP_ON_DIFF_CHANNEL'', ''AP is on difference channel''),
    (''RTT_STATUS_FAIL_NO_CAPABILITY'', ''no capability''), (''RTT_STATUS_FAIL_BUSY_TRY_LATER'', ''busy and try later''),
    (''RTT_STATUS_ABORTED'', ''aborted'')]"

definition get_err_info :: "(string \<Rightarrow> int) \<Rightarrow> int \<Rightarrow> string" where
  "get_err_info val status =
     (case find (\<lambda>(n, _). val n = status) err_info of None \<Rightarrow> ''unknown error'' | Some (_, text) \<Rightarrow> text)"

section \<open>The hex dump\<close>

text \<open>\<open>appendFmt\<close> with the formatted text \<open>s\<close>: it is written at the offset, with its NUL.\<close>

definition appendFmt :: "string \<Rightarrow> string \<times> nat \<Rightarrow> ub + string \<times> nat" where
  "appendFmt s b = (case b of (buf, offset) \<Rightarrow>
     if offset + length s < length buf
     then Inr (take offset buf @ s @ [NUL] @ drop (offset + length s + 1) buf, offset + length s)
     else Inl Out_of_bounds)"

fun append_all :: "string list \<Rightarrow> string \<times> nat \<Rightarrow> ub + string \<times> nat" where
  "append_all [] b = Inr b"
| "append_all (s # ss) b = (case appendFmt s b of Inl e \<Rightarrow> Inl e | Inr b' \<Rightarrow> append_all ss b')"

definition isprint :: "u8 \<Rightarrow> bool" where
  "isprint d \<longleftrightarrow> 32 \<le> unat d \<and> unat d < 127"

definition shown :: "u8 \<Rightarrow> char" where
  "shown d = (if isprint d then char_of (unat d) else CHR ''-'')"

text \<open>The texts of one line, before and after \<open>line[23] = '-'\<close>.\<close>

definition hex_pieces :: "u8 list \<Rightarrow> string list" where
  "hex_pieces ds = fmt_02x (hd ds) # map (\<lambda>d. '' '' @ fmt_02x d) (tl ds) @ replicate (16 - length ds) ''   ''"

definition text_pieces :: "u8 list \<Rightarrow> string list" where
  "text_pieces ds = ''  '' # map (\<lambda>d. [shown d]) ds"

text \<open>\<open>junk\<close> is what the array holds before; the logged text ends at the first NUL.\<close>

definition dump_line :: "string \<Rightarrow> u8 list \<Rightarrow> ub + string" where
  "dump_line junk ds =
     (case append_all (hex_pieces ds) (junk, 0) of
        Inl e \<Rightarrow> Inl e
      | Inr (buf, offset) \<Rightarrow>
          if length buf \<le> 23 then Inl Out_of_bounds
          else (case append_all (text_pieces ds) (buf[23 := CHR ''-''], offset) of
                  Inl e \<Rightarrow> Inl e
                | Inr (buf', _) \<Rightarrow>
                    if NUL \<in> set buf' then Inr (takeWhile (\<lambda>c. c \<noteq> NUL) buf') else Inl Out_of_bounds))"

text \<open>The loop over the data, 16 bytes at a time; \<open>junk n\<close> is the array when \<open>n\<close> bytes are left.\<close>

function log_dump :: "(nat \<Rightarrow> string) \<Rightarrow> u8 list \<Rightarrow> ub + string list" where
  "log_dump junk data =
     (if data = [] then Inr []
      else (case dump_line (junk (length data)) (take 16 data) of
              Inl e \<Rightarrow> Inl e
            | Inr l \<Rightarrow> (case log_dump junk (drop 16 data) of Inl e \<Rightarrow> Inl e | Inr ls \<Rightarrow> Inr (l # ls))))"
  by pat_completeness auto
termination
  by (relation "measure (\<lambda>(junk, data). length data)") auto

declare log_dump.simps [simp del]

text \<open>\<open>WifiEvent::log\<close>: the command, vendor id and subcommand, the dump, and the attributes that were found.\<close>

record event_text =
  et_cmd :: string
  et_vendor_id :: u32
  et_vendor_subcmd :: int
  et_dump :: "string list"
  et_attributes :: "string list"

definition event_log ::
  "libnl \<Rightarrow> (string \<Rightarrow> int) \<Rightarrow> (nat \<Rightarrow> string) \<Rightarrow> wifi_event \<Rightarrow> ub + wifi_event \<times> event_text" where
  "event_log lib val junk ev =
     (let ev1 = snd (event_parse lib ev) in
      case (get_cmd ev1, get_u32 NL80211_ATTR_VENDOR_ID ev1, get_u32 NL80211_ATTR_VENDOR_SUBCMD ev1,
            log_dump junk (rm_attrs (we_msg ev1))) of
        (Inr c, Inr vid, Inr sub, Inr ls) \<Rightarrow>
          if length (we_attributes ev1) < NL80211_ATTR_MAX_INTERNAL then Inl Out_of_bounds
          else Inr (ev1, \<lparr>et_cmd = cmdToString val c, et_vendor_id = vid, et_vendor_subcmd = sint sub, et_dump = ls,
                 et_attributes = map (\<lambda>i. attributeToString val (int i))
                   (filter (\<lambda>i. we_attributes ev1 ! i \<noteq> None) [0..<NL80211_ATTR_MAX_INTERNAL])\<rparr>)
      | (Inl e, _) \<Rightarrow> Inl e
      | (_, Inl e, _) \<Rightarrow> Inl e
      | (_, _, Inl e, _) \<Rightarrow> Inl e
      | (_, _, _, Inl e) \<Rightarrow> Inl e)"

section \<open>Correctness\<close>

text \<open>When the numbers of the names in a table differ, as a \<open>switch\<close> demands, each number has its name.\<close>

lemma name_of_val: "inj_on val (set names) \<Longrightarrow> n \<in> set names \<Longrightarrow> name_of val names u (val n) = n"
proof -
  assume i: "inj_on val (set names)" "n \<in> set names"
  then obtain m where m: "find (\<lambda>k. val k = val n) names = Some m"
    by (cases "find (\<lambda>k. val k = val n) names") (auto simp: find_None_iff)
  then have "m \<in> set names" "val m = val n" by (auto simp: find_Some_iff)
  with i have "m = n" by (simp add: inj_on_def)
  with m show ?thesis by (simp add: name_of_def)
qed

lemma name_of_unknown: "x \<notin> val ` set names \<Longrightarrow> name_of val names u x = u"
  by (auto simp: name_of_def find_None_iff split: option.splits dest!: find_Some_iff [THEN iffD1])

lemma names_found:
  assumes "inj_on val (set cmd_names)" "inj_on val (set attribute_names)"
  shows "n \<in> set cmd_names \<Longrightarrow> cmdToString val (val n) = n"
    "n \<in> set attribute_names \<Longrightarrow> attributeToString val (val n) = n"
    "x \<notin> val ` set cmd_names \<Longrightarrow> cmdToString val x = ''NL80211_CMD_UNKNOWN''"
    "x \<notin> val ` set attribute_names \<Longrightarrow> attributeToString val x = ''NL80211_ATTR_UNKNOWN''"
  unfolding cmdToString_def attributeToString_def by (fact name_of_val [OF assms(1)] name_of_val [OF assms(2)] name_of_unknown)+

lemma append_all_fits:
  "length pre + length (concat ss) < length buf \<Longrightarrow> take (length pre) buf = pre \<Longrightarrow>
   \<exists>buf'. append_all ss (buf, length pre) = Inr (buf', length pre + length (concat ss)) \<and> length buf' = length buf \<and>
     take (length pre + length (concat ss)) buf' = pre @ concat ss \<and>
     (ss \<noteq> [] \<longrightarrow> buf' ! (length pre + length (concat ss)) = NUL)"
proof (induction ss arbitrary: pre buf)
  case (Cons s ss)
  let ?b = "pre @ s @ [NUL] @ drop (length pre + length s + 1) buf"
  have a: "appendFmt s (buf, length pre) = Inr (?b, length (pre @ s))" "length ?b = length buf"
    using Cons.prems by (auto simp: appendFmt_def)
  show ?case
  proof (cases "ss = []")
    case True
    with a show ?thesis by (simp add: nth_append)
  next
    case False
    have "length (pre @ s) + length (concat ss) < length ?b" "take (length (pre @ s)) ?b = pre @ s"
      using Cons.prems by auto
    from Cons.IH [OF this] False a show ?thesis by (auto simp: add.assoc)
  qed
qed simp

lemma concat_nth:
  "list_all (\<lambda>e. length e = n) es \<Longrightarrow> j < length es \<Longrightarrow> k < n \<Longrightarrow> concat es ! (n * j + k) = es ! j ! k"
proof (induction es arbitrary: j)
  case (Cons e es)
  then show ?case by (cases j) (auto simp: nth_append)
qed simp

text \<open>The columns of a line: three characters for each of 16 bytes, of which the first blank is missing.\<close>

definition hex_cells :: "u8 list \<Rightarrow> string list" where
  "hex_cells ds = map (\<lambda>d. '' '' @ fmt_02x d) ds @ replicate (16 - length ds) ''   ''"

lemma hex_cells:
  assumes "ds \<noteq> []" "length ds \<le> 16"
  shows "CHR '' '' # concat (hex_pieces ds) = concat (hex_cells ds)" "length (concat (hex_pieces ds)) = 47"
    "list_all (\<lambda>e. length e = 3) (hex_cells ds)"
proof -
  show c: "CHR '' '' # concat (hex_pieces ds) = concat (hex_cells ds)"
    using assms(1) by (cases ds) (simp_all add: hex_cells_def hex_pieces_def)
  show l: "list_all (\<lambda>e. length e = 3) (hex_cells ds)"
    by (auto simp: hex_cells_def list_all_iff fmt_02x_def)
  then have "length (concat (hex_cells ds)) = 3 * length (hex_cells ds)"
    by (rule length_concat_eq)
  with assms(2) show "length (concat (hex_pieces ds)) = 47"
    using arg_cong [OF c, of length] by (simp add: hex_cells_def)
qed

lemma hex_column:
  assumes "ds \<noteq> []" "length ds \<le> 16" "j < length ds" "k < 2"
  shows "concat (hex_pieces ds) ! (3 * j + k) = fmt_02x (ds ! j) ! k"
proof -
  have "concat (hex_cells ds) ! (3 * j + Suc k) = hex_cells ds ! j ! Suc k"
    using concat_nth [OF hex_cells(3) [OF assms(1,2)], of j "Suc k"] assms by (simp add: hex_cells_def)
  also have "\<dots> = fmt_02x (ds ! j) ! k" using assms(3) by (simp add: hex_cells_def nth_append)
  finally show ?thesis by (simp flip: hex_cells(1) [OF assms(1,2)])
qed

lemma no_NUL: "NUL \<notin> set (concat (hex_pieces ds))" "NUL \<notin> set (concat (text_pieces ds))"
proof -
  have d: "digit_char d \<noteq> NUL" if "d < 16" for d
  proof
    assume "digit_char d = NUL"
    from arg_cong [OF this, of "of_char :: char \<Rightarrow> nat"] that show False
      by (simp add: digit_char_def NUL_def split: if_splits)
  qed
  have "c \<noteq> NUL" if "c \<in> set (fmt_02x b)" for c and b :: u8
  proof -
    have "unat b div 16 < 16" "unat b mod 16 < 16"
      using unsigned_less [of b, where 'a = nat] by (auto simp: div_less_iff_less_mult)
    from d [OF this(1)] d [OF this(2)] that show ?thesis by (auto simp: fmt_02x_def)
  qed
  moreover have "CHR '' '' \<noteq> NUL" by (simp add: NUL_def)
  ultimately show "NUL \<notin> set (concat (hex_pieces ds))" by (auto simp: hex_pieces_def)
  have "NUL \<noteq> shown b" for b
  proof
    assume "NUL = shown b"
    from arg_cong [OF this, of "of_char :: char \<Rightarrow> nat"] show False
      by (simp add: shown_def isprint_def NUL_def split: if_splits)
  qed
  moreover have "NUL \<noteq> CHR '' ''" by (simp add: NUL_def)
  ultimately show "NUL \<notin> set (concat (text_pieces ds))" by (simp add: text_pieces_def image_iff)
qed

lemma takeWhile_here:
  assumes "n < length xs" "take n xs = ys" "xs ! n = c" "c \<notin> set ys"
  shows "c \<in> set xs" "takeWhile (\<lambda>x. x \<noteq> c) xs = ys"
proof -
  have "xs = ys @ c # drop (Suc n) xs" using id_take_nth_drop [OF assms(1)] assms(2,3) by simp
  moreover have "takeWhile (\<lambda>x. x \<noteq> c) (ys @ c # zs) = ys" for zs using assms(4) by (induction ys) auto
  ultimately show "c \<in> set xs" "takeWhile (\<lambda>x. x \<noteq> c) xs = ys" by (metis in_set_conv_decomp, metis)
qed

lemma dump_line_spec:
  assumes "ds \<noteq> []" "length ds \<le> 16" "length junk = 81"
  shows "dump_line junk ds = Inr ((concat (hex_pieces ds))[23 := CHR ''-''] @ concat (text_pieces ds))"
proof -
  let ?h = "concat (hex_pieces ds)" and ?t = "concat (text_pieces ds)"
  have len: "length ?h = 47" "length ?t = 2 + length ds"
    using hex_cells(2) [OF assms(1,2)] by (simp_all add: text_pieces_def comp_def)
  from append_all_fits [of "[]" "hex_pieces ds" junk] obtain buf where
    buf: "append_all (hex_pieces ds) (junk, 0) = Inr (buf, 47)" "length buf = 81" "take 47 buf = ?h"
    using len assms(3) by auto
  let ?p = "?h[23 := CHR ''-'']"
  have "take (length ?p) (buf[23 := CHR ''-'']) = ?p" using buf(3) len by (simp add: take_update_swap)
  from append_all_fits [OF _ this, of "text_pieces ds"] obtain buf' where
    buf': "append_all (text_pieces ds) (buf[23 := CHR ''-''], 47) = Inr (buf', 49 + length ds)" "length buf' = 81"
    "take (49 + length ds) buf' = ?p @ ?t" "buf' ! (49 + length ds) = NUL"
    using len assms(2) buf(2) by (auto simp: text_pieces_def)
  have "NUL \<notin> set (?p @ ?t)"
    using no_NUL [of ds] set_update_subset_insert [of ?h 23 "CHR ''-''"] by (auto simp: NUL_def)
  with takeWhile_here [OF _ buf'(3,4)] buf' assms(2) have "NUL \<in> set buf'" "takeWhile (\<lambda>c. c \<noteq> NUL) buf' = ?p @ ?t"
    by auto
  with buf buf'(1) show ?thesis by (simp add: dump_line_def)
qed

text \<open>A line shows its bytes.\<close>

definition shows_bytes :: "u8 list \<Rightarrow> string \<Rightarrow> bool" where
  "shows_bytes ds l \<longleftrightarrow> length l \<le> 65 \<and>
     (\<forall>j < length ds. l ! (3 * j) = fmt_02x (ds ! j) ! 0 \<and> l ! (3 * j + 1) = fmt_02x (ds ! j) ! 1 \<and>
        l ! (49 + j) = shown (ds ! j))"

lemma dump_line_shows:
  assumes "ds \<noteq> []" "length ds \<le> 16" "length junk = 81"
  shows "\<exists>l. dump_line junk ds = Inr l \<and> shows_bytes ds l"
proof -
  let ?h = "concat (hex_pieces ds)" and ?t = "concat (text_pieces ds)"
  let ?l = "?h[23 := CHR ''-''] @ ?t"
  have len: "length ?h = 47" using hex_cells(2) [OF assms(1,2)] .
  have t: "?t = ''  '' @ map shown ds" by (simp add: text_pieces_def)
  have "?l ! (3 * j + k) = fmt_02x (ds ! j) ! k" if "j < length ds" "k < 2" for j k
  proof -
    have "3 * j + k < 47" "3 * j + k \<noteq> 23" using that assms(2) by presburger+
    then show ?thesis using hex_column [OF assms(1,2) that] len by (simp add: nth_append)
  qed
  from this [of _ 0] this [of _ 1] have "shows_bytes ds ?l"
    using len assms(2) by (simp add: shows_bytes_def nth_append t)
  with dump_line_spec [OF assms] show ?thesis by blast
qed

lemma rows_step: "0 < n \<Longrightarrow> Suc ((n - 16 + 15) div 16) = (n + 15) div (16 :: nat)"
proof (cases "n \<le> 16")
  case True
  assume "0 < n"
  with True have "(n + 15) div 16 = 1" by (intro div_nat_eqI) auto
  with True show ?thesis by simp
next
  case False
  then obtain m where "n = m + 16" by (metis le_add_diff_inverse2 nat_le_linear)
  then show ?thesis using div_add_self2 [of 16 "m + 15"] by (simp add: add.commute)
qed

text \<open>
  Logging a message never leaves the line buffer, and the dump is complete. For data of any length
  there is one line for every 16 bytes, and each byte stands in its line, with its two hexadecimal
  digits in its column and as a character, or a dash, in the text at the end.
\<close>

lemma log_dump_complete:
  assumes "\<forall>n. length (junk n) = 81"
  shows "\<exists>ls. log_dump junk data = Inr ls \<and> length ls = (length data + 15) div 16 \<and>
    (\<forall>i < length ls. shows_bytes (take 16 (drop (16 * i) data)) (ls ! i))"
proof (induction data rule: length_induct)
  case (1 data)
  show ?case
  proof (cases "data = []")
    case True
    then show ?thesis by (simp add: log_dump.simps)
  next
    case False
    then have "length (drop 16 data) < length data" by simp
    with 1 obtain ls where ls: "log_dump junk (drop 16 data) = Inr ls" "length ls = (length (drop 16 data) + 15) div 16"
      "\<forall>i < length ls. shows_bytes (take 16 (drop (16 * i) (drop 16 data))) (ls ! i)" by blast
    from False assms obtain l where l: "dump_line (junk (length data)) (take 16 data) = Inr l" "shows_bytes (take 16 data) l"
      using dump_line_shows [of "take 16 data" "junk (length data)"] by auto
    have "log_dump junk data = Inr (l # ls)" using False l(1) ls(1) by (subst log_dump.simps) simp
    moreover have "length (l # ls) = (length data + 15) div 16"
      using False ls(2) by (simp add: rows_step)
    moreover have "shows_bytes (take 16 (drop (16 * i) data)) ((l # ls) ! i)" if "i < length (l # ls)" for i
      using that l(2) ls(3) by (cases i) (auto simp: add.commute)
    ultimately show ?thesis by blast
  qed
qed

end
