(* ===== verification/Omx_Plugin.thy ===== *)
theory Omx_Plugin
  imports Mtk_Prelude
begin

text \<open>
  The OMX plugin (\<open>omx/MtkOMXPlugin.cpp\<close>): it loads MediaTek's codec core, hides the components that do
  not work with this Android version, and passes everything else on. The core is a library that is
  loaded at run time; its functions and the dynamic loader are parameters.
\<close>

section \<open>The plugin\<close>

type_synonym omx_error = int

text \<open>The error codes of the OMX headers that the plugin uses.\<close>

record omx_codes =
  OMX_ErrorUndefined :: omx_error
  OMX_ErrorComponentNotFound :: omx_error

definition OMX_ErrorNone :: omx_error where "OMX_ErrorNone = 0"

text \<open>
  The core: what \<open>Mtk_OMX_Init\<close> returns; \<open>core_enum i\<close> the error and the name that
  \<open>Mtk_OMX_ComponentNameEnum\<close> gives for index \<open>i\<close>; \<open>core_get\<close> the result of \<open>Mtk_OMX_GetHandle\<close>;
  \<open>core_free\<close> that of \<open>Mtk_OMX_FreeHandle\<close>; \<open>core_role_count\<close> error and count of the first, and
  \<open>core_roles n\<close> error, count and names of the second call of \<open>Mtk_OMX_GetRolesOfComponent\<close>.
\<close>

record 'h omx_core =
  core_init :: omx_error
  core_enum :: "u32 \<Rightarrow> omx_error \<times> string"
  core_get :: "string option \<Rightarrow> omx_error \<times> 'h"
  core_free :: "'h \<Rightarrow> omx_error"
  core_role_count :: "string \<Rightarrow> omx_error \<times> u32"
  core_roles :: "string \<Rightarrow> u32 \<Rightarrow> omx_error \<times> u32 \<times> string list"

text \<open>
  The members: the handle of the library and which of the six symbols were found, in the order in which
  they are loaded. \<open>opened\<close> counts the references to the library that the plugin has to close.
\<close>

record omx_plugin =
  mHandle :: bool
  symbols :: "bool list"
  opened :: nat

definition new_plugin :: "bool \<Rightarrow> bool list \<Rightarrow> 'h omx_core \<Rightarrow> omx_plugin" where
  "new_plugin dlopen_ok found core =
     (if \<not> dlopen_ok then \<lparr>mHandle = False, symbols = replicate 6 False, opened = 0\<rparr>
      else if \<not> list_all (\<lambda>b. b) found \<or> core_init core \<noteq> OMX_ErrorNone
      then \<lparr>mHandle = False, symbols = found, opened = 0\<rparr>
      else \<lparr>mHandle = True, symbols = found, opened = 1\<rparr>)"

text \<open>The destructor; \<open>mDeinit\<close> is called through its pointer.\<close>

definition delete_plugin :: "omx_plugin \<Rightarrow> ub + nat" where
  "delete_plugin p =
     (if mHandle p then (if symbols p ! 1 then Inr (opened p - 1) else Inl Null_deref) else Inr (opened p))"

definition isBrokenComponent :: "string option \<Rightarrow> bool" where
  "isBrokenComponent name = (case name of
     None \<Rightarrow> False
   | Some n \<Rightarrow> n = ''OMX.MTK.VIDEO.ENCODER.AVC'' \<or>
       take (length ''OMX.MTK.VIDEO.DECODER.'') n = ''OMX.MTK.VIDEO.DECODER.'')"

definition makeComponentInstance ::
  "omx_codes \<Rightarrow> 'h omx_core \<Rightarrow> omx_plugin \<Rightarrow> string option \<Rightarrow> ub + omx_error \<times> 'h option" where
  "makeComponentInstance codes core p name =
     (if \<not> mHandle p then Inr (OMX_ErrorUndefined codes, None)
      else if isBrokenComponent name then Inr (OMX_ErrorComponentNotFound codes, None)
      else if \<not> symbols p ! 3 then Inl Null_deref
      else (let (err, h) = core_get core name in Inr (err, Some h)))"

definition destroyComponentInstance :: "omx_codes \<Rightarrow> 'h omx_core \<Rightarrow> omx_plugin \<Rightarrow> 'h \<Rightarrow> ub + omx_error" where
  "destroyComponentInstance codes core p h =
     (if mHandle p then (if symbols p ! 4 then Inr (core_free core h) else Inl Null_deref)
      else Inr (OMX_ErrorUndefined codes))"

text \<open>
  The loop of \<open>enumerateComponents\<close>: \<open>raw\<close> counts the components of the core, \<open>visible\<close> those that are not
  hidden. Both are 32-bit numbers, and the loop ends only by a return.
\<close>

partial_function (option) enumerate_loop ::
  "(u32 \<Rightarrow> omx_error \<times> string) \<Rightarrow> u32 \<Rightarrow> u32 \<Rightarrow> u32 \<Rightarrow> (omx_error \<times> string) option" where
  "enumerate_loop enum idx raw visible =
     (let (err, name) = enum raw in
      if err \<noteq> OMX_ErrorNone then Some (err, name)
      else if isBrokenComponent (Some name) then enumerate_loop enum idx (raw + 1) visible
      else if visible = idx then Some (OMX_ErrorNone, name)
      else enumerate_loop enum idx (raw + 1) (visible + 1))"

definition enumerateComponents ::
  "omx_codes \<Rightarrow> 'h omx_core \<Rightarrow> omx_plugin \<Rightarrow> string \<Rightarrow> u32 \<Rightarrow> (ub + omx_error \<times> string) option" where
  "enumerateComponents codes core p name idx =
     (if \<not> mHandle p then Some (Inr (OMX_ErrorUndefined codes, name))
      else if \<not> symbols p ! 2 then Some (Inl Null_deref)
      else map_option Inr (enumerate_loop (core_enum core) idx 0 0))"

text \<open>
  \<open>getRolesOfComponent\<close>: room for as many roles as the first call counts; the second call stores names
  and a count of its own, up to which the names are read.
\<close>

definition getRolesOfComponent ::
  "omx_codes \<Rightarrow> 'h omx_core \<Rightarrow> omx_plugin \<Rightarrow> string \<Rightarrow> ub + omx_error \<times> string list" where
  "getRolesOfComponent codes core p name =
     (if \<not> mHandle p then Inr (OMX_ErrorUndefined codes, [])
      else if \<not> symbols p ! 5 then Inl Null_deref
      else (let (err, count) = core_role_count core name
            in if err \<noteq> OMX_ErrorNone \<or> count = 0 then Inr (err, [])
               else (let (err2, returned, values) = core_roles core name count
                     in if err2 \<noteq> OMX_ErrorNone then Inr (err2, [])
                        else if returned > count then Inl Out_of_bounds
                        else if length values < unat returned then Inl Uninit_read
                        else Inr (err2, take (unat returned) values))))"

section \<open>Correctness\<close>

text \<open>A usable plugin has all of its functions.\<close>

definition plugin_inv :: "omx_plugin \<Rightarrow> bool" where
  "plugin_inv p \<longleftrightarrow> length (symbols p) = 6 \<and> (mHandle p \<longrightarrow> list_all (\<lambda>b. b) (symbols p)) \<and>
     opened p = (if mHandle p then 1 else 0)"

lemma new_plugin_inv: "length found = 6 \<Longrightarrow> plugin_inv (new_plugin dlopen_ok found core)"
  by (auto simp: plugin_inv_def new_plugin_def)

lemma plugin_symbol: "plugin_inv p \<Longrightarrow> mHandle p \<Longrightarrow> i < 6 \<Longrightarrow> symbols p ! i"
  by (auto simp: plugin_inv_def list_all_length)


text \<open>The components that the plugin shows.\<close>

definition visible_names :: "string list \<Rightarrow> string list" where
  "visible_names ns = filter (\<lambda>n. \<not> isBrokenComponent (Some n)) ns"

definition core_lists :: "(u32 \<Rightarrow> omx_error \<times> string) \<Rightarrow> string list \<Rightarrow> omx_error \<Rightarrow> string \<Rightarrow> bool" where
  "core_lists enum ns e b \<longleftrightarrow> length ns < 2 ^ 32 \<and> e \<noteq> OMX_ErrorNone \<and>
     (\<forall>i < length ns. enum (word_of_nat i) = (OMX_ErrorNone, ns ! i)) \<and> enum (word_of_nat (length ns)) = (e, b)"

lemma enumerate_from:
  assumes "core_lists enum ns e b" "k + m = length ns" "vis = length (visible_names (take k ns))"
    and "vis \<le> unat idx"
  shows "enumerate_loop enum idx (word_of_nat k) (word_of_nat vis) =
    Some (if unat idx < length (visible_names ns) then (OMX_ErrorNone, visible_names ns ! unat idx) else (e, b))"
    (is "_ = ?r")
  using assms
proof (induction m arbitrary: k vis)
  case 0
  then show ?case by (subst enumerate_loop.simps) (simp add: core_lists_def)
next
  case (Suc m)
  then have k: "k < length ns" by simp
  have vis': "visible_names (take (Suc k) ns) = visible_names (take k ns) @ (if isBrokenComponent (Some (ns ! k)) then [] else [ns ! k])"
    using k by (simp add: take_Suc_conv_app_nth visible_names_def)
  have enum: "enum (word_of_nat k) = (OMX_ErrorNone, ns ! k)" using Suc.prems(1) k by (simp add: core_lists_def)
  have "length (visible_names (take k ns)) \<le> length (take k ns)" unfolding visible_names_def by (rule length_filter_le)
  then have "vis \<le> length ns" using Suc.prems(3) by simp
  then have vw: "vis < 2 ^ 32" using Suc.prems(1) by (simp add: core_lists_def)
  show ?case
  proof (cases "isBrokenComponent (Some (ns ! k))")
    case True
    have "enumerate_loop enum idx (word_of_nat (Suc k)) (word_of_nat vis) = ?r"
      using Suc.prems vis' True by (intro Suc.IH) simp_all
    then show ?thesis using enum True by (subst enumerate_loop.simps) (simp add: add.commute)
  next
    case False
    show ?thesis
    proof (cases "vis = unat idx")
      case True
      have "visible_names ns = visible_names (take (Suc k) ns) @ visible_names (drop (Suc k) ns)"
        unfolding visible_names_def filter_append [symmetric] by simp
      then have "visible_names ns ! vis = ns ! k" "vis < length (visible_names ns)"
        using False vis' Suc.prems(3) by (simp_all add: nth_append)
      with True False enum show ?thesis by (subst enumerate_loop.simps) simp
    next
      case ne: False
      then have "(word_of_nat vis :: u32) \<noteq> idx" using vw by (auto simp: unat_of_nat take_bit_nat_eq_self)
      moreover have "enumerate_loop enum idx (word_of_nat (Suc k)) (word_of_nat (Suc vis)) = ?r"
        using Suc.prems vis' False ne by (intro Suc.IH) simp_all
      ultimately show ?thesis using enum False by (subst enumerate_loop.simps) (simp add: add.commute)
    qed
  qed
qed

text \<open>
  C32: the enumeration of the plugin is the enumeration of the core without the broken components. When
  the core lists the names \<open>ns\<close> and then an error, index \<open>i\<close> gives the \<open>i\<close>-th of the names that are left,
  and behind the last one the core's error; the loop ends for every index.
\<close>

theorem enumerate_visible:
  assumes "core_lists (core_enum core) ns e b" "length found = 6" "list_all (\<lambda>x. x) found" "core_init core = OMX_ErrorNone"
  shows "enumerateComponents codes core (new_plugin True found core) name idx =
    Some (Inr (if unat idx < length (visible_names ns) then (OMX_ErrorNone, visible_names ns ! unat idx) else (e, b)))"
proof -
  have "symbols (new_plugin True found core) ! 2" "mHandle (new_plugin True found core)"
    using assms(2-4) by (auto simp: new_plugin_def list_all_length)
  with enumerate_from [OF assms(1), of 0 "length ns" 0 idx] show ?thesis
    by (simp add: enumerateComponents_def visible_names_def)
qed

definition two_components :: "nat omx_core" where
  "two_components = \<lparr>core_init = 0,
     core_enum = \<lambda>i. if i = 0 then (0, ''OMX.MTK.VIDEO.DECODER.AVC'') else if i = 1 then (0, ''OMX.MTK.AUDIO.DECODER.MP3'') else (-1, []),
     core_get = \<lambda>n. (0, 1), core_free = \<lambda>h. 0, core_role_count = \<lambda>n. (0, 1), core_roles = \<lambda>n c. (0, c, [''role''])\<rparr>"

lemma two_components_listed:
  "core_lists (core_enum two_components) [''OMX.MTK.VIDEO.DECODER.AVC'', ''OMX.MTK.AUDIO.DECODER.MP3''] (-1) []"
  by (auto simp: core_lists_def two_components_def OMX_ErrorNone_def less_Suc_eq)

theorem enumerate_visible_witness:
  "enumerateComponents \<lparr>OMX_ErrorUndefined = -2, OMX_ErrorComponentNotFound = -3\<rparr> two_components
     (new_plugin True (replicate 6 True) two_components) [] 0 = Some (Inr (OMX_ErrorNone, ''OMX.MTK.AUDIO.DECODER.MP3''))"
proof -
  have "visible_names [''OMX.MTK.VIDEO.DECODER.AVC'', ''OMX.MTK.AUDIO.DECODER.MP3''] = [''OMX.MTK.AUDIO.DECODER.MP3'']"
    by (simp add: visible_names_def isBrokenComponent_def)
  moreover have "list_all (\<lambda>x. x) (replicate 6 True)" by (simp add: list_all_iff)
  moreover have "core_init two_components = OMX_ErrorNone" by (simp add: two_components_def OMX_ErrorNone_def)
  ultimately show ?thesis
    using enumerate_visible [OF two_components_listed, of "replicate 6 True" _ "[]" 0] by simp
qed


text \<open>
  A core whose second answer counts more roles than its first one makes the plugin read behind its
  array.
\<close>

lemma more_roles_than_counted:
  "getRolesOfComponent codes (two_components\<lparr>core_roles := \<lambda>n c. (0, c + 1, [''a'', ''b''])\<rparr>)
     \<lparr>mHandle = True, symbols = replicate 6 True, opened = 1\<rparr> n = Inl Out_of_bounds"
  by (simp add: getRolesOfComponent_def two_components_def OMX_ErrorNone_def)

end
