(* ===== verification/Atci_Tools.thy ===== *)
theory Atci_Tools
  imports Mtk_Prelude
begin

text \<open>
  The modem tools: \<open>tools/atci_query.c\<close> sends one of three read-only AT commands to the modem daemon and
  prints the answer, \<open>tools/atcid_runner.c\<close> prepares the socket of the daemon and starts it. What the
  sockets, \<open>poll\<close>, \<open>read\<close> and \<open>exec\<close> do is a parameter.
\<close>

section \<open>The query\<close>

definition CR :: char where "CR = CHR 0x0D"
definition LF :: char where "LF = CHR 0x0A"

definition read_only_commands :: "string list" where
  "read_only_commands = [''AT+CPIN?'', ''AT+ESIMS?'', ''AT+CFUN?'']"

text \<open>
  One turn of the loop: \<open>poll\<close> is interrupted, fails or times out, or the socket is ready and \<open>read\<close>
  fails, ends (no data) or has data.
\<close>

datatype turn = Interrupted | Poll_error | Timeout | Read_error | Ready string

definition sizeof_response :: nat where "sizeof_response = 4096"

definition c_string :: "string \<Rightarrow> string" where
  "c_string s = takeWhile (\<lambda>c. c \<noteq> NUL) s"

definition answered :: "string \<Rightarrow> bool" where
  "answered resp \<longleftrightarrow> strstr (c_string resp) ''OK'' \<noteq> None \<or> strstr (c_string resp) ''ERROR'' \<noteq> None"

text \<open>
  The loop with the number of attempts that are left; \<open>resp\<close> is what \<open>response\<close> holds up to \<open>used\<close>. A
  read gets at most the room that is left in the buffer, less one byte for the NUL.
\<close>

fun query_loop :: "(nat \<Rightarrow> turn) \<Rightarrow> nat \<Rightarrow> string \<Rightarrow> string" where
  "query_loop turns 0 resp = resp"
| "query_loop turns (Suc left) resp =
     (case turns (19 - left) of
        Interrupted \<Rightarrow> query_loop turns left resp
      | Poll_error \<Rightarrow> resp
      | Timeout \<Rightarrow> query_loop turns left resp
      | Read_error \<Rightarrow> resp
      | Ready bs \<Rightarrow>
          (let got = take (sizeof_response - length resp - 1) bs; resp' = resp @ got
           in if got = [] then resp
              else if answered resp' \<or> length resp' = sizeof_response - 1 then resp'
              else query_loop turns left resp'))"

definition print_char :: "char \<Rightarrow> string" where
  "print_char c =
     (if c = CR then []
      else if c = LF \<or> (32 \<le> chr_code c \<and> chr_code c < 127) then [c]
      else CHR 0x5C # CHR ''x'' # fmt_02x (word_of_nat (chr_code c)))"

text \<open>The result of \<open>main\<close>: whether it exits with success, what was sent and what was printed.\<close>

record query_result =
  q_success :: bool
  q_sent :: "string option"
  q_out :: string

definition atci_query :: "string list \<Rightarrow> int \<Rightarrow> int \<Rightarrow> (string \<Rightarrow> int) \<Rightarrow> (nat \<Rightarrow> turn) \<Rightarrow> query_result" where
  "atci_query argv sock conn send turns =
     (let failed = \<lparr>q_success = False, q_sent = None, q_out = []\<rparr> in
      if length argv \<noteq> 2 \<or> argv ! 1 \<notin> set read_only_commands then failed
      else if sock < 0 then failed
      else if conn < 0 then failed
      else (let command = fst (snprintf 32 (argv ! 1 @ [CR, LF])); len = int (length (argv ! 1) + 2)
            in if send command \<noteq> len then failed\<lparr>q_sent := Some command\<rparr>
               else (let resp = query_loop turns 20 []
                     in if resp = [] then failed\<lparr>q_sent := Some command\<rparr>
                        else \<lparr>q_success = (strstr (c_string resp) ''OK'' \<noteq> None), q_sent = Some command,
                              q_out = concat (map print_char resp) @ [LF]\<rparr>)))"

section \<open>The runner\<close>

text \<open>
  The calls of \<open>atcid_runner\<close>, in order, and whether each succeeds. \<open>exec\<close> does not return when it
  succeeds.
\<close>

datatype run_call = Socket | Bind string | Chmod string nat | Listen nat | Setenv string string | Exec string

definition socket_path :: string where "socket_path = ''/dev/socket/adb_atci_socket''"

fun run_calls :: "(run_call \<Rightarrow> bool) \<Rightarrow> run_call list \<Rightarrow> run_call list" where
  "run_calls ok [] = []"
| "run_calls ok (c # cs) = c # (if ok c then run_calls ok cs else [])"

text \<open>\<open>setenv\<close> is not checked; \<open>sun_path\<close> is the size of the path in the socket address.\<close>

definition atcid_runner :: "(run_call \<Rightarrow> bool) \<Rightarrow> nat \<Rightarrow> int \<Rightarrow> run_call list" where
  "atcid_runner ok sun_path fd =
     (if \<not> ok Socket then [Socket]
      else if length socket_path \<ge> sun_path then [Socket]
      else Socket # run_calls (\<lambda>c. case c of Setenv _ _ \<Rightarrow> True | _ \<Rightarrow> ok c)
        [Bind socket_path, Chmod socket_path 432, Listen 4,
         Setenv ''ANDROID_SOCKET_adb_atci_socket'' (fst (snprintf 16 (fmt_d fd))),
         Setenv ''LD_PRELOAD'' ''/system/lib64/libshim_atcid_radio.so'', Exec ''/system/bin/atcid''])"

section \<open>Correctness\<close>

text \<open>
  C31: the query tool is read-only. Whatever its arguments are and whatever the modem does, all it ever
  sends is one of the three query commands, complete and ended by CR LF, and only when that command is
  its only argument.
\<close>

theorem atci_query_read_only:
  "case q_sent (atci_query argv sock conn send turns) of
     None \<Rightarrow> True
   | Some m \<Rightarrow> \<exists>prog cmd. argv = [prog, cmd] \<and> cmd \<in> set read_only_commands \<and> m = cmd @ [CR, LF]"
proof (cases "length argv = 2 \<and> argv ! 1 \<in> set read_only_commands")
  case True
  then obtain prog cmd where argv: "argv = [prog, cmd]" by (auto simp: length_Suc_conv numeral_2_eq_2)
  with True have "cmd \<in> set read_only_commands" "length cmd \<le> 9" by (auto simp: read_only_commands_def)
  with argv show ?thesis by (auto simp: atci_query_def snprintf_def Let_def)
qed (auto simp: atci_query_def Let_def)

lemma query_loop_bound: "length resp < 4096 \<Longrightarrow> length (query_loop turns left resp) < 4096"
proof (induction left arbitrary: resp)
  case (Suc left)
  have "length (resp @ take (4096 - length resp - 1) bs) < 4096" for bs using Suc.prems by auto
  with Suc show ?case by (auto simp: sizeof_response_def Let_def split: turn.splits)
qed simp

text \<open>What arrives in the first \<open>n\<close> turns, as long as data is to come.\<close>

definition arriving :: "(nat \<Rightarrow> turn) \<Rightarrow> nat \<Rightarrow> nat \<Rightarrow> string" where
  "arriving turns i n = concat (map (\<lambda>j. case turns j of Ready bs \<Rightarrow> bs | _ \<Rightarrow> []) [i..<i + n])"

lemma arriving_Suc: "arriving turns i (Suc n) = (case turns i of Ready bs \<Rightarrow> bs | _ \<Rightarrow> []) @ arriving turns (Suc i) n"
  by (simp add: arriving_def upt_conv_Cons del: upt_Suc)

lemma query_loop_prefix:
  "left \<le> 20 \<Longrightarrow> \<exists>n. query_loop turns left resp = resp @ take n (arriving turns (20 - left) left)"
proof (induction left arbitrary: resp)
  case (Suc left)
  then have i: "20 - Suc left = 19 - left" "Suc (19 - left) = 20 - left" by auto
  note step = arriving_Suc [of turns "19 - left" left, unfolded i]
  have IH: "\<exists>n. query_loop turns left r = r @ take n (arriving turns (20 - left) left)" for r
    using Suc by simp
  show ?case
  proof (cases "turns (19 - left)")
    case (Ready bs)
    let ?got = "take (sizeof_response - length resp - 1) bs"
    obtain n where n: "query_loop turns left (resp @ ?got) = (resp @ ?got) @ take n (arriving turns (20 - left) left)"
      using IH by blast
    consider "?got = []" | "?got \<noteq> []" "answered (resp @ ?got) \<or> length (resp @ ?got) = sizeof_response - 1"
      | "?got \<noteq> []" "\<not> answered (resp @ ?got)" "length (resp @ ?got) \<noteq> sizeof_response - 1" by blast
    then show ?thesis
    proof cases
      case 1
      then show ?thesis using Ready by (auto intro: exI [of _ 0])
    next
      case 2
      then show ?thesis using Ready i(1) step
        by (auto intro!: exI [of _ "min (sizeof_response - length resp - 1) (length bs)"] simp: min_def)
    next
      case 3
      then have "length bs \<le> sizeof_response - length resp - 1" by (cases "length bs \<le> sizeof_response - length resp - 1") auto
      with 3 n Ready i(1) step show ?thesis by (auto intro!: exI [of _ "length bs + n"])
    qed
  qed (use IH i(1) step in \<open>auto intro: exI [of _ 0]\<close>)
qed simp

definition printable :: "char \<Rightarrow> bool" where
  "printable c \<longleftrightarrow> c = LF \<or> (32 \<le> chr_code c \<and> chr_code c < 127)"

lemma printable_hex: "c \<in> set (fmt_02x b) \<Longrightarrow> printable c"
proof -
  have "printable (digit_char d)" if "d < 16" for d using that by (simp add: printable_def chr_code_def digit_char_def)
  moreover have "unat b div 16 < 16" "unat b mod 16 < 16"
    using unsigned_less [of b, where 'a = nat] by (auto simp: div_less_iff_less_mult)
  ultimately show "c \<in> set (fmt_02x b) \<Longrightarrow> printable c" by (auto simp: fmt_02x_def)
qed

lemma printable_print_char: "d \<in> set (print_char c) \<Longrightarrow> printable d"
  by (auto simp: print_char_def printable_def [of c] dest: printable_hex split: if_splits)
     (auto simp: printable_def chr_code_def)



text \<open>The daemon is started only when its socket is bound, restricted and listening.\<close>

lemma atcid_started_with_socket:
  "Exec ''/system/bin/atcid'' \<in> set (atcid_runner ok sun_path fd) \<Longrightarrow>
     ok Socket \<and> ok (Bind socket_path) \<and> ok (Chmod socket_path 432) \<and> ok (Listen 4)"
  by (auto simp: atcid_runner_def split: if_splits)

end
