(* ===== verification/Boot_Bridge.thy ===== *)
theory Boot_Bridge
  imports Mtk_Prelude
begin

text \<open>
  The boot bridge (\<open>rootdir/bootbridge-init.c\<close>): the first process after the kernel. It mounts the eMMC
  partitions, keeps a log of what it does on the data partition, starts a kernel log copier and a logcat,
  and hands over to the real \<open>init\<close> in the system partition. The kernel is a parameter: the kernel_answer to a
  system call may depend on all calls made so far.
\<close>

section \<open>System calls\<close>

datatype syscall =
    Mkdir string nat
  | Mount "string option" string "string option" nat
  | Mknod string nat "nat \<times> nat"
  | Open string nat
  | Write int string
  | Fsync int
  | Read int nat
  | Close int
  | Sleep nat
  | Usleep nat
  | Fork
  | Umount2 string
  | Chroot string
  | Chdir string
  | Execl string "string list"

definition MS_RDONLY :: nat where "MS_RDONLY = 1"
definition MS_REMOUNT :: nat where "MS_REMOUNT = 32"
definition MS_MOVE :: nat where "MS_MOVE = 8192"
definition EBUSY :: int where "EBUSY = 16"

text \<open>
  \<open>O_WRONLY | O_CREAT | O_TRUNC | O_SYNC\<close>, \<open>O_WRONLY | O_APPEND | O_SYNC\<close>, \<open>O_RDONLY | O_NONBLOCK\<close>.
\<close>

definition OPEN_NEW :: nat where "OPEN_NEW = 1 + 64 + 512 + 1052672"
definition OPEN_APPEND :: nat where "OPEN_APPEND = 1 + 1024 + 1052672"
definition OPEN_KMSG :: nat where "OPEN_KMSG = 2048"

text \<open>
  \<open>kernel_answer\<close> is the result of a call and the value of \<open>errno\<close> after it, given the calls before it with
  their results; \<open>input\<close> the bytes that a successful read stores.
\<close>

type_synonym call_log = "(syscall \<times> int) list"

record boot_env =
  kernel_answer :: "call_log \<Rightarrow> syscall \<Rightarrow> int \<times> int"
  input :: "call_log \<Rightarrow> string"
  strerror :: "int \<Rightarrow> string"

record boot =
  calls :: call_log
  errno :: int

section \<open>Actions\<close>

text \<open>
  A piece of the program may not return (\<open>None\<close>), may leave the defined behaviour of C (\<open>Inl\<close>), or
  returns a value and the new state.
\<close>

datatype fault = Buffer_overread | Signed_overflow

type_synonym 'a act = "boot \<Rightarrow> (fault + 'a \<times> boot) option"

definition done_with :: "'a \<Rightarrow> 'a act" where
  "done_with x s = Some (Inr (x, s))"

definition fails_with :: "fault \<Rightarrow> 'a act" where
  "fails_with f s = Some (Inl f)"

definition and_then :: "'a act \<Rightarrow> ('a \<Rightarrow> 'b act) \<Rightarrow> 'b act" where
  "and_then m f s = (case m s of None \<Rightarrow> None | Some (Inl e) \<Rightarrow> Some (Inl e) | Some (Inr (x, t)) \<Rightarrow> f x t)"

definition sys :: "boot_env \<Rightarrow> syscall \<Rightarrow> int act" where
  "sys env c s = (let (rc, e) = kernel_answer env (calls s) c
     in Some (Inr (rc, \<lparr>calls = calls s @ [(c, rc)], errno = e\<rparr>)))"

text \<open>Calls one after the other whose results the program does not look at.\<close>

fun sys_all :: "boot_env \<Rightarrow> syscall list \<Rightarrow> unit act" where
  "sys_all env [] = done_with ()"
| "sys_all env (c # cs) = and_then (sys env c) (\<lambda>_. sys_all env cs)"

definition get_errno :: "int act" where
  "get_errno s = Some (Inr (errno s, s))"

definition get_input :: "boot_env \<Rightarrow> string act" where
  "get_input env s = Some (Inr (input env (calls s), s))"

section \<open>The log\<close>

definition log_text :: "boot_env \<Rightarrow> string \<Rightarrow> int \<Rightarrow> int \<Rightarrow> string" where
  "log_text env stage rc saved_errno =
     ''bootbridge: '' @ stage @ '' rc='' @ fmt_d rc @ '' errno='' @ fmt_d saved_errno @ '' ('' @
     strerror env saved_errno @ '')'' @ [CHR 0x0A]"

text \<open>
  The buffer has 256 bytes. \<open>snprintf\<close> returns the length of the whole text, and \<open>write\<close> is called with
  that length, so that a longer text makes it read past the buffer.
\<close>

definition log_line :: "boot_env \<Rightarrow> int \<Rightarrow> string \<Rightarrow> int \<Rightarrow> unit act" where
  "log_line env fd stage rc = and_then get_errno (\<lambda>saved_errno.
     let (buf, len) = snprintf 256 (log_text env stage rc saved_errno)
     in if len > 0
        then if len > 256 then fails_with Buffer_overread
             else sys_all env [Write fd (take (nat len) (buf @ [NUL])), Fsync fd]
        else done_with ())"

section \<open>The children\<close>

text \<open>One turn of the kernel log copier.\<close>

definition kmsg_turn :: "boot_env \<Rightarrow> int \<Rightarrow> int \<Rightarrow> unit act" where
  "kmsg_turn env inp outp = and_then (sys env (Read inp 4096)) (\<lambda>count.
     if count > 0
     then and_then (get_input env) (\<lambda>buf. sys_all env [Write outp (take (nat count) buf), Fsync outp])
     else sys_all env [Usleep 50000])"

partial_function (option) run_kmsg_logger :: "boot_env \<Rightarrow> int \<Rightarrow> int \<Rightarrow> boot \<Rightarrow> (fault + unit \<times> boot) option" where
  "run_kmsg_logger env inp outp s =
     (case kmsg_turn env inp outp s of
        None \<Rightarrow> None
      | Some (Inl e) \<Rightarrow> Some (Inl e)
      | Some (Inr (_, t)) \<Rightarrow> run_kmsg_logger env inp outp t)"

text \<open>How a process goes on: it waits for ever, has become another program, or has exited.\<close>

datatype fate = Paused | Became string | Exited nat

definition logcat_args :: "string list" where
  "logcat_args = [''logcat'', ''-b'', ''all'', ''-v'', ''threadtime'', ''-f'', ''/data/bootbridge-logcat.log'', ''*:V'']"

definition exec_or :: "boot_env \<Rightarrow> string \<Rightarrow> string list \<Rightarrow> fate act \<Rightarrow> fate act" where
  "exec_or env path args m = and_then (sys env (Execl path args)) (\<lambda>rc. if rc = -1 then m else done_with (Became path))"

definition run_logcat_logger :: "boot_env \<Rightarrow> fate act" where
  "run_logcat_logger env = and_then (sys env (Chroot ''/newroot'')) (\<lambda>rc.
     if rc \<noteq> 0 then done_with (Exited 1)
     else and_then (sys env (Chdir ''/'')) (\<lambda>rc.
       if rc \<noteq> 0 then done_with (Exited 1)
       else and_then (sys env (Sleep 6)) (\<lambda>_.
         exec_or env ''/system/bin/logcat'' logcat_args (done_with (Exited 1)))))"

section \<open>The bridge\<close>

definition DATA_DEV :: string where "DATA_DEV = ''/dev/mmcblk0p38''"
definition SYSTEM_DEV :: string where "SYSTEM_DEV = ''/dev/mmcblk0p39''"

definition prepare_calls :: "syscall list" where
  "prepare_calls =
     [Mkdir ''/proc'' 493, Mkdir ''/sys'' 493, Mkdir ''/dev'' 493,
      Mount (Some ''proc'') ''/proc'' (Some ''proc'') 0, Mount (Some ''sysfs'') ''/sys'' (Some ''sysfs'') 0,
      Mount (Some ''devtmpfs'') ''/dev'' (Some ''devtmpfs'') 0,
      Mknod DATA_DEV 384 (259, 6), Mknod SYSTEM_DEV 384 (259, 7), Mkdir ''/diagdata'' 493]"

text \<open>The loop over \<open>i\<close>, with the turns that are left; it returns \<open>rc\<close> and \<open>i\<close>.\<close>

fun mount_data :: "boot_env \<Rightarrow> nat \<Rightarrow> int \<Rightarrow> (int \<times> nat) act" where
  "mount_data env 0 rc = done_with (rc, 60)"
| "mount_data env (Suc left) rc =
     and_then (sys env (Mount (Some DATA_DEV) ''/diagdata'' (Some ''ext4'') 0)) (\<lambda>rc.
       and_then get_errno (\<lambda>err.
         if rc = 0 \<or> err = EBUSY then done_with (rc, 59 - left)
         else and_then (sys env (Sleep 1)) (\<lambda>_. mount_data env left rc)))"

definition mount_points :: "syscall list" where
  "mount_points =
     [Mkdir ''/newroot/nvdata'' 505, Mkdir ''/newroot/nvcfg'' 505, Mkdir ''/newroot/persist'' 505,
      Mkdir ''/newroot/protect_f'' 505, Mkdir ''/newroot/protect_s'' 505, Mkdir ''/newroot/custom'' 493,
      Mkdir ''/newroot/storage'' 493, Mkdir ''/newroot/storage/usbotg'' 448]"

text \<open>\<open>while ((drain_count = read (...)) > 0) drained += drain_count;\<close>\<close>

partial_function (option) drain_loop :: "boot_env \<Rightarrow> int \<Rightarrow> int \<Rightarrow> boot \<Rightarrow> (fault + int \<times> boot) option" where
  "drain_loop env fd drained s =
     (case sys env (Read fd 16384) s of
        None \<Rightarrow> None
      | Some (Inl e) \<Rightarrow> Some (Inl e)
      | Some (Inr (n, t)) \<Rightarrow>
          if n > 0 then if drained + n \<ge> 2 ^ 31 then Some (Inl Signed_overflow) else drain_loop env fd (drained + n) t
          else Some (Inr (drained, t)))"

definition drain :: "boot_env \<Rightarrow> int \<Rightarrow> int act" where
  "drain env kmsg_fd = (if kmsg_fd \<ge> 0 then drain_loop env kmsg_fd 0 else done_with 0)"

text \<open>The last part: move the data partition, remove the own mounts, change the root and start \<open>init\<close>.\<close>

definition handover_calls :: "syscall list" where
  "handover_calls =
     [Mkdir ''/newroot/data'' 493, Mkdir ''/newroot/dev'' 493, Mkdir ''/newroot/proc'' 493, Mkdir ''/newroot/sys'' 493,
      Mount (Some ''/diagdata'') ''/newroot/data'' None MS_MOVE,
      Umount2 ''/dev'', Umount2 ''/proc'', Umount2 ''/sys'']"

definition give_up :: "boot_env \<Rightarrow> fate act" where
  "give_up env = and_then (sys env (Open ''/data/bootbridge.log'' OPEN_APPEND)) (\<lambda>fd.
     if fd \<ge> 0
     then and_then (log_line env fd ''chroot_init_exec'' (-1)) (\<lambda>_.
       and_then (sys env (Close fd)) (\<lambda>_. done_with Paused))
     else done_with Paused)"

definition hand_over :: "boot_env \<Rightarrow> fate act" where
  "hand_over env = and_then (sys_all env handover_calls) (\<lambda>_.
     and_then (sys env (Chroot ''/newroot'')) (\<lambda>rc.
       if rc \<noteq> 0 then give_up env
       else and_then (sys env (Chdir ''/'')) (\<lambda>rc.
         if rc \<noteq> 0 then give_up env
         else exec_or env ''/init'' [''init''] (give_up env))))"

text \<open>The two forks; a fork that returns 0 continues in the child.\<close>

definition start_logcat :: "boot_env \<Rightarrow> int \<Rightarrow> fate act" where
  "start_logcat env fd = and_then (sys env Fork) (\<lambda>rc.
     and_then (log_line env fd ''logcat_logger_fork'' rc) (\<lambda>_.
       if rc = 0 then and_then (sys env (Close fd)) (\<lambda>_. run_logcat_logger env)
       else and_then (sys env (Close fd)) (\<lambda>_. hand_over env)))"

definition start_loggers :: "boot_env \<Rightarrow> int \<Rightarrow> int \<Rightarrow> int \<Rightarrow> fate act" where
  "start_loggers env fd kmsg_fd kmsg_log_fd = and_then (sys env Fork) (\<lambda>rc.
     and_then (log_line env fd ''kmsg_logger_fork'' rc) (\<lambda>_.
       if rc = 0
       then and_then (sys env (Close fd)) (\<lambda>_.
         and_then (run_kmsg_logger env kmsg_fd kmsg_log_fd) (\<lambda>_. start_logcat env fd))
       else and_then (sys_all env [Close kmsg_fd, Close kmsg_log_fd]) (\<lambda>_. start_logcat env fd)))"

text \<open>From the mount of the system partition to the loggers.\<close>

definition remount_system :: "boot_env \<Rightarrow> int \<Rightarrow> unit act" where
  "remount_system env fd =
     and_then (sys env (Mount None ''/newroot'' None MS_REMOUNT)) (\<lambda>rc.
     and_then (log_line env fd ''system_remount_rw'' rc) (\<lambda>_.
     and_then (sys_all env mount_points) (\<lambda>_.
     and_then (sys env (Mount None ''/newroot'' None (MS_REMOUNT + MS_RDONLY))) (\<lambda>rc.
     log_line env fd ''system_remount_ro'' rc))))"

definition open_kmsg :: "boot_env \<Rightarrow> int \<Rightarrow> (int \<times> int) act" where
  "open_kmsg env fd =
     and_then (sys env (Open ''/proc/kmsg'' OPEN_KMSG)) (\<lambda>kmsg_fd.
     and_then (sys env (Open ''/diagdata/bootbridge-kmsg.log'' OPEN_NEW)) (\<lambda>kmsg_log_fd.
     and_then (log_line env fd ''kmsg_open'' kmsg_fd) (\<lambda>_.
     and_then (log_line env fd ''kmsg_log_open'' kmsg_log_fd) (\<lambda>_.
     and_then (drain env kmsg_fd) (\<lambda>drained.
     and_then (log_line env fd ''kmsg_backlog_drained'' drained) (\<lambda>_.
     done_with (kmsg_fd, kmsg_log_fd)))))))"

definition mount_system :: "boot_env \<Rightarrow> int \<Rightarrow> fate act" where
  "mount_system env fd =
     and_then (sys env (Mkdir ''/newroot'' 493)) (\<lambda>_.
     and_then (sys env (Mount (Some SYSTEM_DEV) ''/newroot'' (Some ''ext4'') 0)) (\<lambda>rc.
     and_then (log_line env fd ''system_mount'' rc) (\<lambda>_.
     if rc \<noteq> 0 then done_with Paused
     else and_then (remount_system env fd) (\<lambda>_.
          and_then (open_kmsg env fd) (\<lambda>(kmsg_fd, kmsg_log_fd).
          start_loggers env fd kmsg_fd kmsg_log_fd)))))"

definition bootbridge :: "boot_env \<Rightarrow> fate act" where
  "bootbridge env =
     and_then (sys_all env prepare_calls) (\<lambda>_.
     and_then (mount_data env 60 (-1)) (\<lambda>(rc, i).
     and_then (sys env (Open ''/diagdata/bootbridge.log'' OPEN_NEW)) (\<lambda>fd.
     if fd < 0 then done_with Paused
     else and_then (log_line env fd ''userdata_mount'' rc) (\<lambda>_.
          and_then (log_line env fd ''emmc_wait_loops'' (int i)) (\<lambda>_.
          mount_system env fd)))))"

definition power_on :: boot where
  "power_on = \<lparr>calls = [], errno = 0\<rparr>"


section \<open>Reasoning about actions\<close>

lemma and_then_ret:
  "and_then m f s = Some (Inr (y, u)) \<longleftrightarrow> (\<exists>x t. m s = Some (Inr (x, t)) \<and> f x t = Some (Inr (y, u)))"
  by (auto simp: and_then_def split: option.splits sum.splits)

lemma done_with_ret: "done_with x s = Some (Inr (y, t)) \<longleftrightarrow> y = x \<and> t = s"
  by (auto simp: done_with_def)

lemma fails_with_ret: "fails_with f s \<noteq> Some (Inr r)"
  by (simp add: fails_with_def)

lemma sys_eq: "sys env c s = Some (Inr (fst (kernel_answer env (calls s) c),
    \<lparr>calls = calls s @ [(c, fst (kernel_answer env (calls s) c))], errno = snd (kernel_answer env (calls s) c)\<rparr>))"
  by (simp add: sys_def split: prod.splits)

lemma sys_ret: "sys env c s = Some (Inr (rc, t)) \<Longrightarrow> calls t = calls s @ [(c, rc)]"
  by (auto simp: sys_eq)

lemma get_errno_ret: "get_errno s = Some (Inr (e, t)) \<longleftrightarrow> e = errno s \<and> t = s"
  by (auto simp: get_errno_def)

lemma get_input_ret: "get_input env s = Some (Inr (b, t)) \<longleftrightarrow> b = input env (calls s) \<and> t = s"
  by (auto simp: get_input_def)

lemmas act_elims = and_then_ret done_with_ret get_errno_ret get_input_ret fails_with_ret

lemma sys_all_calls:
  "sys_all env cs s = Some (Inr (u, t)) \<Longrightarrow> \<exists>rcs. length rcs = length cs \<and> calls t = calls s @ zip cs rcs"
proof (induction cs arbitrary: s)
  case (Cons c cs)
  from Cons.prems obtain x s1 where s1: "sys env c s = Some (Inr (x, s1))" "sys_all env cs s1 = Some (Inr (u, t))"
    by (auto simp: and_then_ret)
  from Cons.IH [OF s1(2)] obtain rcs where "length rcs = length cs" "calls t = calls s1 @ zip cs rcs" by blast
  with sys_ret [OF s1(1)] have "length (x # rcs) = length (c # cs) \<and> calls t = calls s @ zip (c # cs) (x # rcs)"
    by simp
  then show ?case by blast
qed (simp add: done_with_ret)

text \<open>The copier never ends and never fails.\<close>

lemma kmsg_turn_ends: "\<exists>t. kmsg_turn env inp outp s = Some (Inr ((), t))"
  by (auto simp: kmsg_turn_def and_then_def sys_eq get_input_def done_with_def)

lemma run_kmsg_logger_endless: "run_kmsg_logger env inp outp s = None"
proof -
  have False if "run_kmsg_logger env inp outp s = Some r" for r
  proof (rule run_kmsg_logger.raw_induct [where P = "\<lambda>env inp outp s r. False", OF _ that])
    fix logger env inp outp s r
    assume "\<And>env inp outp s r. logger env inp outp s = Some r \<Longrightarrow> False"
      and "(case kmsg_turn env inp outp s of None \<Rightarrow> None | Some (Inl e) \<Rightarrow> Some (Inl e)
        | Some (Inr (uu, t)) \<Rightarrow> logger env inp outp t) = Some r"
    moreover obtain t where "kmsg_turn env inp outp s = Some (Inr ((), t))" using kmsg_turn_ends by blast
    ultimately show False by auto
  qed
  then show ?thesis by (cases "run_kmsg_logger env inp outp s") auto
qed

section \<open>Views of the calls made so far\<close>

text \<open>
  What a sequence of calls has done to some part of the system is computed call by call. A view that only
  some calls change is the same before and after the log lines and the loops of the program.
\<close>

fun quiet :: "syscall \<Rightarrow> bool" where
  "quiet (Mount _ _ _ _) \<longleftrightarrow> False"
| "quiet (Umount2 _) \<longleftrightarrow> False"
| "quiet (Open _ _) \<longleftrightarrow> False"
| "quiet (Close _) \<longleftrightarrow> False"
| "quiet _ \<longleftrightarrow> True"

locale call_view =
  fixes step :: "'v \<Rightarrow> syscall \<times> int \<Rightarrow> 'v"
  assumes quiet_step: "quiet c \<Longrightarrow> step v (c, rc) = v"
begin

lemma view_sys: "sys env c s = Some (Inr (rc, t)) \<Longrightarrow> foldl step v (calls t) = step (foldl step v (calls s)) (c, rc)"
  by (simp add: sys_ret)

lemma view_quiet: "sys env c s = Some (Inr (rc, t)) \<Longrightarrow> quiet c \<Longrightarrow> foldl step v (calls t) = foldl step v (calls s)"
  by (simp add: view_sys quiet_step)

lemma view_all_quiet:
  "sys_all env cs s = Some (Inr (u, t)) \<Longrightarrow> \<forall>c \<in> set cs. quiet c \<Longrightarrow> foldl step v (calls t) = foldl step v (calls s)"
  by (induction cs arbitrary: s) (auto simp: act_elims view_quiet)

lemma view_log_line: "log_line env fd stage rc s = Some (Inr (u, t)) \<Longrightarrow> foldl step v (calls t) = foldl step v (calls s)"
  using view_all_quiet [of env "[Write fd b, Fsync fd]" s u t v for b]
  by (auto simp: log_line_def act_elims simp del: sys_all.simps split: prod.splits if_splits)

lemma view_drain_loop:
  "drain_loop env fd d s = Some r \<Longrightarrow> \<forall>n t. r = Inr (n, t) \<longrightarrow> foldl step v (calls t) = foldl step v (calls s)"
proof (rule drain_loop.raw_induct [where P = "\<lambda>env fd d s r. \<forall>n t. r = Inr (n, t) \<longrightarrow>
      foldl step v (calls t) = foldl step v (calls s)", rotated])
  fix loop env fd d s r
  assume IH: "\<And>env fd d s r. loop env fd d s = Some r \<Longrightarrow> \<forall>n t. r = Inr (n, t) \<longrightarrow>
      foldl step v (calls t) = foldl step v (calls s)"
    and r: "(case sys env (Read fd 16384) s of None \<Rightarrow> None | Some (Inl e) \<Rightarrow> Some (Inl e)
      | Some (Inr (n, t)) \<Rightarrow> if n > 0 then if d + n \<ge> 2 ^ 31 then Some (Inl Signed_overflow) else loop env fd (d + n) t
          else Some (Inr (d, t))) = Some r"
  obtain m s1 where s1: "sys env (Read fd 16384) s = Some (Inr (m, s1))" using sys_eq by blast
  from view_quiet [OF s1] have "foldl step v (calls s1) = foldl step v (calls s)" by simp
  with r s1 IH [of env fd "d + m" s1 r] show "\<forall>n t. r = Inr (n, t) \<longrightarrow> foldl step v (calls t) = foldl step v (calls s)"
    by (auto split: if_splits)
qed

lemma view_drain: "drain env fd s = Some (Inr (n, t)) \<Longrightarrow> foldl step v (calls t) = foldl step v (calls s)"
  using view_drain_loop by (fastforce simp: drain_def done_with_ret split: if_splits)

lemmas views = view_sys view_quiet view_all_quiet view_log_line view_drain

end

text \<open>The mount table: \<open>None\<close> when a call that should have changed it failed (attempts for the data partition excepted).\<close>

fun mount_step :: "string list option \<Rightarrow> syscall \<times> int \<Rightarrow> string list option" where
  "mount_step (Some ms) (Mount src tgt fs fl, rc) =
     (if rc \<noteq> 0 then (if src = Some DATA_DEV then Some ms else None)
      else if fl = 0 then Some (tgt # ms)
      else if fl = MS_MOVE then Some (tgt # removeAll (case src of Some p \<Rightarrow> p | None \<Rightarrow> []) ms)
      else Some ms)"
| "mount_step (Some ms) (Umount2 p, rc) = (if rc \<noteq> 0 then None else Some (removeAll p ms))"
| "mount_step v e = v"

definition mount_table :: "boot \<Rightarrow> string list option" where
  "mount_table s = foldl mount_step (Some []) (calls s)"

text \<open>The descriptors that are open; \<open>close\<close> releases a descriptor whatever it answers.\<close>

fun fd_step :: "int list \<Rightarrow> syscall \<times> int \<Rightarrow> int list" where
  "fd_step fs (Open p fl, rc) = (if rc \<ge> 0 then rc # fs else fs)"
| "fd_step fs (Close fd, rc) = remove1 fd fs"
| "fd_step fs e = fs"

definition open_fds :: "boot \<Rightarrow> int list" where
  "open_fds s = foldl fd_step [] (calls s)"

lemma mount_steps_None [simp]: "foldl mount_step None cs = None"
  by (induction cs) auto

interpretation mv: call_view mount_step
proof
  fix c v rc assume "quiet c"
  then show "mount_step v (c, rc) = v" by (cases v; cases c) auto
qed

interpretation fv: call_view fd_step
proof
  fix c v rc assume "quiet c"
  then show "fd_step v (c, rc) = v" by (cases c) auto
qed

text \<open>Whether the system partition has been mounted with success.\<close>

definition system_step :: "bool \<Rightarrow> syscall \<times> int \<Rightarrow> bool" where
  "system_step v e \<longleftrightarrow> v \<or> e = (Mount (Some SYSTEM_DEV) ''/newroot'' (Some ''ext4'') 0, 0)"

definition system_mounted :: "boot \<Rightarrow> bool" where
  "system_mounted s = foldl system_step False (calls s)"

interpretation sv: call_view system_step
proof
  fix c v rc assume "quiet c"
  then show "system_step v (c, rc) = v" by (cases c) (auto simp: system_step_def)
qed

lemma system_mounted_iff: "system_mounted s \<longleftrightarrow> (Mount (Some SYSTEM_DEV) ''/newroot'' (Some ''ext4'') 0, 0) \<in> set (calls s)"
proof -
  have "foldl system_step v cs \<longleftrightarrow> v \<or> (Mount (Some SYSTEM_DEV) ''/newroot'' (Some ''ext4'') 0, 0) \<in> set cs" for v cs
    by (induction cs arbitrary: v) (auto simp: system_step_def)
  then show ?thesis by (simp add: system_mounted_def)
qed

lemmas system_views = sv.views [where v = False, folded system_mounted_def]
lemmas mount_views = mv.views [where v = "Some []", folded mount_table_def]
lemmas fd_views = fv.views [where v = "[]", folded open_fds_def]

section \<open>What the parts of the bridge do\<close>

text \<open>A mount table that is as expected, unless a call has failed.\<close>

definition table_is :: "string list \<Rightarrow> boot \<Rightarrow> bool" where
  "table_is ms s \<longleftrightarrow> mount_table s = None \<or> mount_table s = Some ms"

lemma prepare_mounts:
  assumes "sys_all env prepare_calls power_on = Some (Inr (u, t))"
  shows "table_is [''/dev'', ''/sys'', ''/proc''] t" "open_fds t = []"
proof -
  from sys_all_calls [OF assms] obtain rcs where "length rcs = length prepare_calls" "calls t = zip prepare_calls rcs"
    by (auto simp: power_on_def)
  then show "table_is [''/dev'', ''/sys'', ''/proc''] t" "open_fds t = []"
    by (auto simp: table_is_def mount_table_def open_fds_def prepare_calls_def DATA_DEV_def length_Suc_conv)
qed

lemma mount_data_mounts:
  "mount_data env left rc0 s = Some (Inr ((rc, i), t)) \<Longrightarrow> table_is ms s \<Longrightarrow>
   (table_is ms t \<or> table_is (''/diagdata'' # ms) t) \<and> open_fds t = open_fds s"
proof (induction left arbitrary: rc0 s)
  case (Suc left)
  from Suc.prems(1) obtain rc1 s1 where
    s1: "sys env (Mount (Some DATA_DEV) ''/diagdata'' (Some ''ext4'') 0) s = Some (Inr (rc1, s1))"
    and cont: "(if rc1 = 0 \<or> errno s1 = EBUSY then done_with (rc1, 59 - left)
      else and_then (sys env (Sleep 1)) (\<lambda>_. mount_data env left rc1)) s1 = Some (Inr ((rc, i), t))"
    by (auto simp: act_elims)
  have fds: "open_fds s1 = open_fds s" using fd_views(1) [OF s1] by simp
  have table: "if rc1 = 0 then table_is (''/diagdata'' # ms) s1 else table_is ms s1"
    using mount_views(1) [OF s1] Suc.prems(2) by (auto simp: table_is_def)
  show ?case
  proof (cases "rc1 = 0 \<or> errno s1 = EBUSY")
    case False
    with cont obtain rc2 s2 where s2: "sys env (Sleep 1) s1 = Some (Inr (rc2, s2))"
      "mount_data env left rc1 s2 = Some (Inr ((rc, i), t))" by (auto simp: act_elims)
    have "table_is ms s2" "open_fds s2 = open_fds s1"
      using mount_views(2) [OF s2(1)] fd_views(2) [OF s2(1)] table False by (auto simp: table_is_def)
    with Suc.IH [OF s2(2)] fds show ?thesis by simp
  qed (use cont fds table in \<open>auto simp: act_elims split: if_splits\<close>)
qed (auto simp: act_elims)

lemma give_up_pauses: "give_up env s = Some (Inr (f, t)) \<Longrightarrow> f = Paused"
  by (auto simp: give_up_def act_elims split: if_splits)

text \<open>The hand-over succeeds only with the root changed, and by then the own mounts are gone.\<close>

lemma hand_over_init:
  assumes "hand_over env s = Some (Inr (Became p, t))"
  shows "p = ''/init''" "open_fds t = open_fds s"
    "\<exists>pre e. calls t = calls s @ pre @ [(Chroot ''/newroot'', 0), (Chdir ''/'', 0), (Execl ''/init'' [''init''], e)]"
    "table_is ms s \<Longrightarrow> table_is (''/newroot/data'' # filter (\<lambda>m. m \<notin> {''/diagdata'', ''/dev'', ''/proc'', ''/sys''}) ms) t"
proof -
  from assms obtain s1 rc s2 rc' s3 e s4 where
    s: "sys_all env handover_calls s = Some (Inr ((), s1))" "sys env (Chroot ''/newroot'') s1 = Some (Inr (rc, s2))"
      "sys env (Chdir ''/'') s2 = Some (Inr (rc', s3))" "sys env (Execl ''/init'' [''init'']) s3 = Some (Inr (e, s4))"
    and rc: "rc = 0" "rc' = 0" "p = ''/init''" "t = s4"
    by (auto simp: hand_over_def exec_or_def act_elims split: if_splits dest: give_up_pauses)
  from sys_all_calls [OF s(1)] obtain rcs where
    rcs: "length rcs = length handover_calls" "calls s1 = calls s @ zip handover_calls rcs" by blast
  show "p = ''/init''" by fact
  have "calls t = calls s @ zip handover_calls rcs @ [(Chroot ''/newroot'', 0), (Chdir ''/'', 0), (Execl ''/init'' [''init''], e)]"
    using s(2-4) [THEN sys_ret] rcs rc by simp
  then show "\<exists>pre e. calls t = calls s @ pre @ [(Chroot ''/newroot'', 0), (Chdir ''/'', 0), (Execl ''/init'' [''init''], e)]"
    by blast
  have "open_fds t = open_fds s1" using s(2-4) [THEN fd_views(2)] rc by simp
  with rcs show "open_fds t = open_fds s" by (auto simp: open_fds_def handover_calls_def length_Suc_conv)
  have "mount_table t = mount_table s1" using s(2-4) [THEN mount_views(2)] rc by simp
  moreover assume "table_is ms s"
  moreover have "mount_table s = Some ms \<Longrightarrow>
      table_is (''/newroot/data'' # filter (\<lambda>m. m \<notin> {''/diagdata'', ''/dev'', ''/proc'', ''/sys''}) ms) s1"
    using rcs by (auto simp: table_is_def mount_table_def handover_calls_def length_Suc_conv MS_MOVE_def
        removeAll_filter_not_eq DATA_DEV_def intro!: filter_cong)
  moreover have "mount_table s = None \<Longrightarrow> mount_table s1 = None"
    using rcs(2) by (simp add: mount_table_def)
  ultimately show "table_is (''/newroot/data'' # filter (\<lambda>m. m \<notin> {''/diagdata'', ''/dev'', ''/proc'', ''/sys''}) ms) t"
    by (auto simp: table_is_def)
qed

lemma logcat_not_init: "run_logcat_logger env s = Some (Inr (Became p, t)) \<Longrightarrow> p = ''/system/bin/logcat''"
  by (auto simp: run_logcat_logger_def exec_or_def act_elims split: if_splits)

text \<open>Closing a descriptor leaves the other views as they are.\<close>

lemma close_views:
  assumes "sys env (Close fd) s = Some (Inr (rc, t))"
  shows "mount_table t = mount_table s" "open_fds t = remove1 fd (open_fds s)" "system_mounted t = system_mounted s"
  using mount_views(1) [OF assms] fd_views(1) [OF assms] system_views(1) [OF assms]
  by (cases "mount_table s"; simp add: system_step_def)+

lemma start_logcat_init:
  assumes "start_logcat env fd s = Some (Inr (Became ''/init'', t))"
  obtains s' where "hand_over env s' = Some (Inr (Became ''/init'', t))"
    "mount_table s' = mount_table s" "open_fds s' = remove1 fd (open_fds s)" "system_mounted s' = system_mounted s"
proof -
  from assms obtain rc s1 u s2 rc' s3 where s: "sys env Fork s = Some (Inr (rc, s1))"
      "log_line env fd ''logcat_logger_fork'' rc s1 = Some (Inr (u, s2))" "sys env (Close fd) s2 = Some (Inr (rc', s3))"
    and "hand_over env s3 = Some (Inr (Became ''/init'', t))"
    by (auto simp: start_logcat_def act_elims split: if_splits dest: logcat_not_init)
  with mount_views(2,4) fd_views(2,4) system_views(2,4) close_views [OF s(3)] show thesis
    by (intro that [of s3]) (metis quiet.simps)+
qed

lemma start_loggers_init:
  assumes "start_loggers env fd kfd lfd s = Some (Inr (Became ''/init'', t))"
  obtains s' where "start_logcat env fd s' = Some (Inr (Became ''/init'', t))"
    "mount_table s' = mount_table s" "open_fds s' = remove1 lfd (remove1 kfd (open_fds s))" "system_mounted s' = system_mounted s"
proof -
  from assms obtain rc s1 u s2 rc' s3 rc'' s4 where s: "sys env Fork s = Some (Inr (rc, s1))"
      "log_line env fd ''kmsg_logger_fork'' rc s1 = Some (Inr (u, s2))" "sys env (Close kfd) s2 = Some (Inr (rc', s3))"
      "sys env (Close lfd) s3 = Some (Inr (rc'', s4))"
    and "start_logcat env fd s4 = Some (Inr (Became ''/init'', t))"
    by (auto simp: start_loggers_def act_elims run_kmsg_logger_endless split: if_splits)
  with mount_views(2,4) fd_views(2,4) system_views(2,4) close_views [OF s(3)] close_views [OF s(4)] show thesis
    by (intro that [of s4]) (metis quiet.simps)+
qed

text \<open>The remounts leave the table of mounts as it is, and the mount points are created between them.\<close>

lemma mount_points_quiet: "\<forall>c \<in> set mount_points. quiet c"
  by (simp add: mount_points_def)

lemma remount_views:
  assumes "sys env (Mount None ''/newroot'' None fl) s = Some (Inr (rc, t))" "fl \<notin> {0, MS_MOVE}"
  shows "table_is ms s \<Longrightarrow> table_is ms t" "open_fds t = open_fds s" "system_mounted s \<Longrightarrow> system_mounted t"
  using mount_views(1) [OF assms(1)] fd_views(1) [OF assms(1)] system_views(1) [OF assms(1)] assms(2)
  by (auto simp: table_is_def system_step_def)

lemma remount_system_views:
  assumes "remount_system env fd s = Some (Inr (u, t))"
  shows "table_is ms s \<Longrightarrow> table_is ms t" "open_fds t = open_fds s" "system_mounted s \<Longrightarrow> system_mounted t"
proof -
  from assms obtain rc s1 s2 s3 rc' s4 where
    s: "sys env (Mount None ''/newroot'' None MS_REMOUNT) s = Some (Inr (rc, s1))"
      "log_line env fd ''system_remount_rw'' rc s1 = Some (Inr ((), s2))" "sys_all env mount_points s2 = Some (Inr ((), s3))"
      "sys env (Mount None ''/newroot'' None (MS_REMOUNT + MS_RDONLY)) s3 = Some (Inr (rc', s4))"
      "log_line env fd ''system_remount_ro'' rc' s4 = Some (Inr (u, t))"
    by (auto simp: remount_system_def and_then_ret)
  note r = remount_views [OF s(1)] remount_views [OF s(4)]
    mount_views(4) [OF s(2)] mount_views(3) [OF s(3) mount_points_quiet] mount_views(4) [OF s(5)]
    fd_views(4) [OF s(2)] fd_views(3) [OF s(3) mount_points_quiet] fd_views(4) [OF s(5)]
    system_views(4) [OF s(2)] system_views(3) [OF s(3) mount_points_quiet] system_views(4) [OF s(5)]
  have fl: "MS_REMOUNT \<notin> {0, MS_MOVE}" "MS_REMOUNT + MS_RDONLY \<notin> {0, MS_MOVE}"
    by (simp_all add: MS_REMOUNT_def MS_MOVE_def MS_RDONLY_def)
  show "table_is ms s \<Longrightarrow> table_is ms t" "open_fds t = open_fds s" "system_mounted s \<Longrightarrow> system_mounted t"
    using r fl by (simp_all add: table_is_def)
qed

lemma open_views:
  assumes "sys env (Open p fl) s = Some (Inr (fd, t))"
  shows "mount_table t = mount_table s" "open_fds t = (if fd \<ge> 0 then fd # open_fds s else open_fds s)"
    "system_mounted t = system_mounted s"
  using mount_views(1) [OF assms] fd_views(1) [OF assms] system_views(1) [OF assms]
  by (cases "mount_table s"; simp add: system_step_def)+

lemma open_kmsg_views:
  assumes "open_kmsg env fd s = Some (Inr ((kfd, lfd), t))"
  shows "mount_table t = mount_table s" "system_mounted t = system_mounted s"
    "open_fds t = (if lfd \<ge> 0 then [lfd] else []) @ (if kfd \<ge> 0 then [kfd] else []) @ open_fds s"
proof -
  from assms obtain s1 s2 s3 s4 n s5 s6 where
    s: "sys env (Open ''/proc/kmsg'' OPEN_KMSG) s = Some (Inr (kfd, s1))"
      "sys env (Open ''/diagdata/bootbridge-kmsg.log'' OPEN_NEW) s1 = Some (Inr (lfd, s2))"
      "log_line env fd ''kmsg_open'' kfd s2 = Some (Inr ((), s3))" "log_line env fd ''kmsg_log_open'' lfd s3 = Some (Inr ((), s4))"
      "drain env kfd s4 = Some (Inr (n, s5))" "log_line env fd ''kmsg_backlog_drained'' n s5 = Some (Inr ((), s6))" "t = s6"
    by (auto simp: open_kmsg_def act_elims)
  show "mount_table t = mount_table s" using s(3,4,6) [THEN mount_views(4)] mount_views(5) [OF s(5)] s(1,2) [THEN open_views(1)] s(7) by simp
  show "system_mounted t = system_mounted s"
    using s(3,4,6) [THEN system_views(4)] system_views(5) [OF s(5)] s(1,2) [THEN open_views(3)] s(7) by simp
  show "open_fds t = (if lfd \<ge> 0 then [lfd] else []) @ (if kfd \<ge> 0 then [kfd] else []) @ open_fds s"
    using s(3,4,6) [THEN fd_views(4)] fd_views(5) [OF s(5)] s(1,2) [THEN open_views(2)] s(7) by simp
qed

lemma mount_system_init:
  assumes "mount_system env fd s = Some (Inr (Became ''/init'', t))" "table_is ms s" "open_fds s = [fd]" "fd \<ge> 0"
  obtains s' where "hand_over env s' = Some (Inr (Became ''/init'', t))" "table_is (''/newroot'' # ms) s'"
    "open_fds s' = []" "system_mounted s'"
proof -
  from assms(1) obtain rc0 s1 s2 s3 s4 kfd lfd s5 where
    s: "sys env (Mkdir ''/newroot'' 493) s = Some (Inr (rc0, s1))"
      "sys env (Mount (Some SYSTEM_DEV) ''/newroot'' (Some ''ext4'') 0) s1 = Some (Inr (0, s2))"
      "log_line env fd ''system_mount'' 0 s2 = Some (Inr ((), s3))" "remount_system env fd s3 = Some (Inr ((), s4))"
      "open_kmsg env fd s4 = Some (Inr ((kfd, lfd), s5))"
      "start_loggers env fd kfd lfd s5 = Some (Inr (Became ''/init'', t))"
    by (auto simp: mount_system_def act_elims split: if_splits)
  from start_loggers_init [OF s(6)] obtain s6 where s6: "start_logcat env fd s6 = Some (Inr (Became ''/init'', t))"
    "mount_table s6 = mount_table s5" "open_fds s6 = remove1 lfd (remove1 kfd (open_fds s5))" "system_mounted s6 = system_mounted s5" .
  from start_logcat_init [OF s6(1)] obtain s7 where s7: "hand_over env s7 = Some (Inr (Became ''/init'', t))"
    "mount_table s7 = mount_table s6" "open_fds s7 = remove1 fd (open_fds s6)" "system_mounted s7 = system_mounted s6" .
  have "table_is (''/newroot'' # ms) s3" "system_mounted s3" "open_fds s3 = [fd]"
    using mount_views(2) [OF s(1)] mount_views(1) [OF s(2)] mount_views(4) [OF s(3)] fd_views(2) [OF s(1)]
      fd_views(1) [OF s(2)] fd_views(4) [OF s(3)] system_views(1) [OF s(2)] system_views(4) [OF s(3)] assms(2,3)
    by (auto simp: table_is_def system_step_def)
  with remount_system_views [OF s(4)] open_kmsg_views [OF s(5)]
  have s5: "table_is (''/newroot'' # ms) s5" "system_mounted s5"
    "open_fds s5 = (if lfd \<ge> 0 then [lfd] else []) @ (if kfd \<ge> 0 then [kfd] else []) @ [fd]"
    by (auto simp: table_is_def)
  show thesis
  proof (rule that [OF s7(1)])
    show "table_is (''/newroot'' # ms) s7" "system_mounted s7" using s5 s6 s7 by (simp_all add: table_is_def)
    show "open_fds s7 = []" using s5(3) s6(3) s7(3) assms(4) by auto
  qed
qed

section \<open>The hand-over\<close>

text \<open>
  C13: the bridge hands over to \<open>/init\<close> only from a clean state. Whatever the kernel answers: when the
  process becomes \<open>/init\<close>, the system partition has been mounted, the last three calls were a successful
  change of the root, a successful change of the directory and the start of \<open>/init\<close>, no descriptor of the
  bridge is open any more, and unless one of the mount calls failed, the only mounts left are the system
  and, inside it, the data partition: the bridge's own \<open>/dev\<close>, \<open>/proc\<close> and \<open>/sys\<close> are gone.
\<close>

theorem bridge_hands_over:
  assumes "bootbridge env power_on = Some (Inr (Became ''/init'', t))"
  shows "open_fds t = [] \<and> (Mount (Some SYSTEM_DEV) ''/newroot'' (Some ''ext4'') 0, 0) \<in> set (calls t) \<and>
    (\<exists>pre e. calls t = pre @ [(Chroot ''/newroot'', 0), (Chdir ''/'', 0), (Execl ''/init'' [''init''], e)]) \<and>
    mount_table t \<in> {None, Some [''/newroot/data'', ''/newroot'']}"
proof -
  let ?ms = "[''/dev'', ''/sys'', ''/proc'']"
  from assms obtain s1 rc i s2 fd s3 s4 s5 where
    s: "sys_all env prepare_calls power_on = Some (Inr ((), s1))" "mount_data env 60 (-1) s1 = Some (Inr ((rc, i), s2))"
      "sys env (Open ''/diagdata/bootbridge.log'' OPEN_NEW) s2 = Some (Inr (fd, s3))" "fd \<ge> 0"
      "log_line env fd ''userdata_mount'' rc s3 = Some (Inr ((), s4))"
      "log_line env fd ''emmc_wait_loops'' (int i) s4 = Some (Inr ((), s5))"
      "mount_system env fd s5 = Some (Inr (Became ''/init'', t))"
    by (auto simp: bootbridge_def act_elims split: if_splits)
  from mount_data_mounts [OF s(2) prepare_mounts(1) [OF s(1)]] prepare_mounts(2) [OF s(1)]
  obtain ms where ms: "ms = ?ms \<or> ms = ''/diagdata'' # ?ms" "table_is ms s2" "open_fds s2 = []" by auto
  have s5: "table_is ms s5" "open_fds s5 = [fd]"
    using open_views [OF s(3)] mount_views(4) [OF s(5)] mount_views(4) [OF s(6)] fd_views(4) [OF s(5)] fd_views(4) [OF s(6)] ms s(4)
    by (auto simp: table_is_def)
  from mount_system_init [OF s(7) s5 s(4)] obtain s' where s': "hand_over env s' = Some (Inr (Became ''/init'', t))"
    "table_is (''/newroot'' # ms) s'" "open_fds s' = []" "system_mounted s'" .
  note h = hand_over_init(2,3) [OF s'(1)] hand_over_init(4) [OF s'(1,2)]
  from h(2) obtain pre e where
    calls: "calls t = calls s' @ pre @ [(Chroot ''/newroot'', 0), (Chdir ''/'', 0), (Execl ''/init'' [''init''], e)]" by blast
  then have "\<exists>pre e. calls t = pre @ [(Chroot ''/newroot'', 0), (Chdir ''/'', 0), (Execl ''/init'' [''init''], e)]"
    by (intro exI [of _ "calls s' @ pre"] exI [of _ e]) simp
  moreover have "filter (\<lambda>m. m \<notin> {''/diagdata'', ''/dev'', ''/proc'', ''/sys''}) (''/newroot'' # ms) = [''/newroot'']"
    using ms(1) by auto
  ultimately show ?thesis using h(1) h(3) s'(3,4) calls by (auto simp: system_mounted_iff table_is_def)
qed

section \<open>The bridge always gets somewhere\<close>

text \<open>
  The text of an error is short, results are C integers, and the kernel log is finite: what has been read
  from it is gone.
\<close>

definition consumed :: "call_log \<Rightarrow> int" where
  "consumed h = sum_list (map (\<lambda>(c, rc). case c of Read _ _ \<Rightarrow> max 0 rc | _ \<Rightarrow> 0) h)"

definition sane_kernel :: "boot_env \<Rightarrow> int \<Rightarrow> bool" where
  "sane_kernel env B \<longleftrightarrow> B < 2 ^ 31 \<and> (\<forall>e. length (strerror env e) \<le> 128) \<and>
     (\<forall>h c. \<bar>fst (kernel_answer env h c)\<bar> < 2 ^ 31 \<and> \<bar>snd (kernel_answer env h c)\<bar> < 2 ^ 31) \<and>
     (\<forall>h fd n. fst (kernel_answer env h (Read fd n)) \<le> max 0 (B - consumed h))"

text \<open>All calls that the bridge depends on succeed.\<close>

fun call_works :: "syscall \<Rightarrow> int \<Rightarrow> bool" where
  "call_works (Mount _ _ _ _) rc \<longleftrightarrow> rc = 0"
| "call_works (Open _ _) rc \<longleftrightarrow> rc \<ge> 0"
| "call_works (Chroot _) rc \<longleftrightarrow> rc = 0"
| "call_works (Chdir _) rc \<longleftrightarrow> rc = 0"
| "call_works (Execl _ _) rc \<longleftrightarrow> rc \<noteq> -1"
| "call_works _ rc \<longleftrightarrow> True"

text \<open>An action returns a value with \<open>P\<close>, and \<open>errno\<close> is a C integer.\<close>

definition gives :: "'a act \<Rightarrow> boot \<Rightarrow> ('a \<Rightarrow> bool) \<Rightarrow> bool" where
  "gives m s P \<longleftrightarrow> (\<bar>errno s\<bar> < 2 ^ 31 \<longrightarrow> (\<exists>x t. m s = Some (Inr (x, t)) \<and> \<bar>errno t\<bar> < 2 ^ 31 \<and> P x))"

lemma gives_then:
  assumes "gives m s P" "\<And>x t. P x \<Longrightarrow> gives (f x) t Q"
  shows "gives (and_then m f) s Q"
proof -
  have "\<exists>y u. and_then m f s = Some (Inr (y, u)) \<and> \<bar>errno u\<bar> < 2 ^ 31 \<and> Q y" if "\<bar>errno s\<bar> < 2 ^ 31"
  proof -
    from assms(1) that obtain x t where x: "m s = Some (Inr (x, t))" "\<bar>errno t\<bar> < 2 ^ 31" "P x"
      by (auto simp: gives_def)
    with assms(2) [of x t] show ?thesis by (auto simp: gives_def and_then_def)
  qed
  then show ?thesis by (simp add: gives_def)
qed

lemma gives_done: "P x \<Longrightarrow> gives (done_with x) s P"
  by (auto simp: gives_def done_with_def)

text \<open>Some call that the bridge depends on can fail.\<close>

definition can_fail :: "boot_env \<Rightarrow> bool" where
  "can_fail env \<longleftrightarrow> (\<exists>h c. \<not> call_works c (fst (kernel_answer env h c)))"

lemma gives_sys:
  assumes "sane_kernel env B"
  shows "gives (sys env c) s (\<lambda>rc. \<bar>rc\<bar> < 2 ^ 31 \<and> (call_works c rc \<or> can_fail env))"
  using assms by (auto simp: gives_def sys_eq sane_kernel_def can_fail_def)

lemma gives_sys_all:
  assumes "sane_kernel env B"
  shows "gives (sys_all env cs) s (\<lambda>_. True)"
proof (induction cs arbitrary: s)
  case (Cons c cs)
  show ?case unfolding sys_all.simps by (rule gives_then [OF gives_sys [OF assms] Cons.IH])
qed (simp add: gives_done)

lemma gives_log_line:
  assumes "sane_kernel env B" "\<bar>rc\<bar> < 2 ^ 31" "length stage \<le> 20"
  shows "gives (log_line env fd stage rc) s (\<lambda>_. True)"
proof -
  have "length (log_text env stage rc e) \<le> 256" if "\<bar>e\<bar> < 2 ^ 31" for e
  proof -
    have "length (strerror env e) \<le> 128" using assms(1) by (simp add: sane_kernel_def)
    with length_fmt_d [OF less_imp_le [OF assms(2)]] length_fmt_d [OF less_imp_le [OF that]] assms(3) show ?thesis by (simp add: log_text_def)
  qed
  from this [of "errno s"]
  have "\<bar>errno s\<bar> < 2 ^ 31 \<Longrightarrow> \<exists>b. log_line env fd stage rc s = sys_all env [Write fd b, Fsync fd] s"
    by (auto simp: log_line_def and_then_def get_errno_def snprintf_def simp del: sys_all.simps)
      (simp add: log_text_def)
  moreover have "gives (sys_all env [Write fd b, Fsync fd]) s (\<lambda>_. True)" for b by (rule gives_sys_all [OF assms(1)])
  ultimately show ?thesis unfolding gives_def by metis
qed

lemma consumed_nonneg: "consumed h \<ge> 0"
  unfolding consumed_def by (intro sum_list_nonneg) (auto split: syscall.splits)

lemma drain_loop_ends:
  assumes "sane_kernel env B"
  shows "d \<le> consumed (calls s) \<Longrightarrow> \<exists>n t. drain_loop env fd d s = Some (Inr (n, t)) \<and> \<bar>errno t\<bar> < 2 ^ 31 \<and> d \<le> n \<and> n < max (d + 1) (2 ^ 31)"
proof (induction "nat (B - consumed (calls s))" arbitrary: d s rule: less_induct)
  case less
  define n where "n = fst (kernel_answer env (calls s) (Read fd 16384))"
  define s1 where "s1 = \<lparr>calls = calls s @ [(Read fd 16384, n)], errno = snd (kernel_answer env (calls s) (Read fd 16384))\<rparr>"
  have s1: "sys env (Read fd 16384) s = Some (Inr (n, s1))" by (simp add: sys_eq n_def s1_def)
  have n: "n \<le> max 0 (B - consumed (calls s))" "B < 2 ^ 31" "\<bar>errno s1\<bar> < 2 ^ 31"
    using assms by (auto simp: sane_kernel_def n_def s1_def)
  show ?case
  proof (cases "n > 0")
    case True
    then have b: "n \<le> B - consumed (calls s)" using n(1) by auto
    have c: "consumed (calls s1) = consumed (calls s) + n" using True by (simp add: s1_def consumed_def)
    with less.hyps [of s1 "d + n"] True b less.prems obtain m t where
      "drain_loop env fd (d + n) s1 = Some (Inr (m, t))" "\<bar>errno t\<bar> < 2 ^ 31" "d + n \<le> m" "m < max (d + n + 1) (2 ^ 31)"
      by auto
    moreover have "d + n < 2 ^ 31" using b n(2) less.prems by linarith
    ultimately show ?thesis using s1 True by (subst drain_loop.simps) auto
  next
    case False
    with s1 n(3) show ?thesis by (subst drain_loop.simps) auto
  qed
qed

lemma gives_drain: "sane_kernel env B \<Longrightarrow> gives (drain env fd) s (\<lambda>n. \<bar>n\<bar> < 2 ^ 31)"
  using drain_loop_ends [of env B 0 s fd] consumed_nonneg [of "calls s"]
  by (auto simp: gives_def drain_def done_with_def)

lemma gives_mount_data:
  assumes "sane_kernel env B"
  shows "\<bar>rc0\<bar> < 2 ^ 31 \<Longrightarrow> gives (mount_data env left rc0) s (\<lambda>(rc, i). \<bar>rc\<bar> < 2 ^ 31 \<and> i \<le> 60)"
proof (induction left arbitrary: rc0 s)
  case (Suc left)
  have "gives get_errno s (\<lambda>_. True)" for s by (simp add: gives_def get_errno_def)
  with Suc.IH show ?case unfolding mount_data.simps
    by (intro gives_then [OF gives_sys [OF assms]] gives_then [where m = get_errno and P = "\<lambda>_. True"])
      (auto intro!: gives_done gives_then [OF gives_sys [OF assms]] split: if_splits)
qed (simp add: gives_done)

lemma gives_give_up: "sane_kernel env B \<Longrightarrow> gives (give_up env) s (\<lambda>f. f = Paused)"
  unfolding give_up_def
  by (auto intro!: gives_then [OF gives_sys] gives_then [OF gives_log_line] gives_done split: if_splits)

text \<open>Where the process ends up, given what the kernel can answer.\<close>

definition settled :: "boot_env \<Rightarrow> fate \<Rightarrow> bool" where
  "settled env f \<longleftrightarrow> f = Became ''/init'' \<or> f = Paused \<and> can_fail env"

lemma gives_settled_init: "gives (done_with (Became ''/init'')) s (settled env)"
  by (simp add: gives_done settled_def)

lemma gives_settled_paused: "can_fail env \<Longrightarrow> gives (done_with Paused) s (settled env)"
  by (simp add: gives_done settled_def)

lemma gives_settled_up:
  assumes "sane_kernel env B" "can_fail env"
  shows "gives (give_up env) s (settled env)"
  using gives_give_up [OF assms(1), of s] assms(2) by (auto simp: gives_def settled_def)

lemma gives_hand_over: "sane_kernel env B \<Longrightarrow> gives (hand_over env) s (settled env)"
  unfolding hand_over_def exec_or_def
  by (auto intro!: gives_then [OF gives_sys_all] gives_then [OF gives_sys] gives_settled_init gives_settled_up split: if_splits)

lemma gives_start_logcat:
  assumes "sane_kernel env B" "\<forall>h. fst (kernel_answer env h Fork) \<noteq> 0"
  shows "gives (start_logcat env fd) s (settled env)"
proof -
  have "gives (sys env Fork) s (\<lambda>rc. \<bar>rc\<bar> < 2 ^ 31 \<and> rc \<noteq> 0)"
    using assms by (auto simp: gives_def sys_eq sane_kernel_def)
  then show ?thesis unfolding start_logcat_def
    by (rule gives_then) (auto intro!: gives_then [OF gives_log_line [OF assms(1)]] gives_then [OF gives_sys [OF assms(1)]]
        gives_hand_over [OF assms(1)] split: if_splits)
qed

lemma gives_start_loggers:
  assumes "sane_kernel env B" "\<forall>h. fst (kernel_answer env h Fork) \<noteq> 0"
  shows "gives (start_loggers env fd kfd lfd) s (settled env)"
proof -
  have "gives (sys env Fork) s (\<lambda>rc. \<bar>rc\<bar> < 2 ^ 31 \<and> rc \<noteq> 0)"
    using assms by (auto simp: gives_def sys_eq sane_kernel_def)
  then show ?thesis unfolding start_loggers_def
    by (rule gives_then) (auto intro!: gives_then [OF gives_log_line [OF assms(1)]] gives_then [OF gives_sys_all [OF assms(1)]]
        gives_start_logcat [OF assms] simp del: sys_all.simps split: if_splits)
qed

lemma gives_mount_system:
  assumes sane: "sane_kernel env B" and "\<forall>h. fst (kernel_answer env h Fork) \<noteq> 0"
  shows "gives (mount_system env fd) s (settled env)"
proof -
  note ls = gives_log_line [OF sane] and ss = gives_sys [OF sane]
  have "gives (remount_system env fd) s (\<lambda>_. True)" for s unfolding remount_system_def
    by (auto intro!: gives_then [OF ss] gives_then [OF ls] gives_then [OF gives_sys_all [OF sane]] ls)
  moreover have "gives (open_kmsg env fd) s (\<lambda>_. True)" for s unfolding open_kmsg_def
    by (auto intro!: gives_then [OF ss] gives_then [OF ls] gives_then [OF gives_drain [OF sane]] gives_done)
  ultimately show ?thesis unfolding mount_system_def
    by (auto intro!: gives_then [OF ss] gives_then [OF ls] ls gives_settled_paused gives_then [where P = "\<lambda>_. True"]
        gives_start_loggers [OF assms] split: if_splits)
qed

lemma gives_bootbridge:
  assumes "sane_kernel env B" "\<forall>h. fst (kernel_answer env h Fork) \<noteq> 0"
  shows "gives (bootbridge env) power_on (settled env)"
proof -
  note ls = gives_log_line [OF assms(1)] and ss = gives_sys [OF assms(1)]
  show ?thesis unfolding bootbridge_def
    by (intro gives_then [OF gives_sys_all [OF assms(1)]] gives_then [OF gives_mount_data [OF assms(1)]])
      (auto intro!: gives_then [OF ss] gives_then [OF ls] gives_settled_paused gives_mount_system [OF assms] split: if_splits)
qed


text \<open>A kernel on which everything works, with an empty kernel log, and one on which no mount does.\<close>

definition working_kernel :: boot_env where
  "working_kernel = \<lparr>kernel_answer = (\<lambda>h c. case c of Fork \<Rightarrow> (42, 0) | Open _ _ \<Rightarrow> (3, 0) | Read _ _ \<Rightarrow> (-1, 11) | _ \<Rightarrow> (0, 0)),
     input = (\<lambda>h. []), strerror = (\<lambda>e. ''Success'')\<rparr>"

lemma working_kernel_sane: "sane_kernel working_kernel 0" "\<forall>h. fst (kernel_answer working_kernel h Fork) \<noteq> 0"
  by (auto simp: sane_kernel_def working_kernel_def split: syscall.splits)

lemma working_kernel_works: "\<not> can_fail working_kernel"
proof -
  have "call_works c (fst (kernel_answer working_kernel h c))" for h c by (cases c) (auto simp: working_kernel_def)
  then show ?thesis by (simp add: can_fail_def)
qed


theorem bridge_hands_over_witness:
  "\<exists>t pre e. bootbridge working_kernel power_on = Some (Inr (Became ''/init'', t)) \<and> open_fds t = [] \<and>
     calls t = pre @ [(Chroot ''/newroot'', 0), (Chdir ''/'', 0), (Execl ''/init'' [''init''], e)]"
proof -
  obtain t where t: "bootbridge working_kernel power_on = Some (Inr (Became ''/init'', t))"
    using gives_bootbridge [OF working_kernel_sane] working_kernel_works by (auto simp: gives_def settled_def power_on_def)
  from bridge_hands_over [OF t] t show ?thesis by blast
qed

section \<open>The wait for the eMMC\<close>

text \<open>
  The loop tries at most sixty times, a second apart; the number that it logs is that of the failed
  attempts, and it ends early only when the mount succeeds or the device is busy.
\<close>

definition naps :: "boot \<Rightarrow> nat" where
  "naps s = length (filter (\<lambda>(c, rc). c = Sleep 1) (calls s))"

lemma mount_data_waits:
  "mount_data env left rc0 s = Some (Inr ((rc, i), t)) \<Longrightarrow> left \<le> 60 \<Longrightarrow>
   60 - left \<le> i \<and> i \<le> 60 \<and> naps t = naps s + (i - (60 - left)) \<and>
   (i < 60 \<longrightarrow> rc = 0 \<or> errno t = EBUSY) \<and> (i = 60 \<and> left > 0 \<longrightarrow> rc \<noteq> 0)"
proof (induction left arbitrary: rc0 s)
  case (Suc left)
  from Suc.prems(1) obtain rc1 s1 where
    s1: "sys env (Mount (Some DATA_DEV) ''/diagdata'' (Some ''ext4'') 0) s = Some (Inr (rc1, s1))"
    and cont: "(if rc1 = 0 \<or> errno s1 = EBUSY then done_with (rc1, 59 - left)
      else and_then (sys env (Sleep 1)) (\<lambda>_. mount_data env left rc1)) s1 = Some (Inr ((rc, i), t))"
    by (auto simp: act_elims)
  have naps: "naps s1 = naps s" using sys_ret [OF s1] by (simp add: naps_def)
  show ?case
  proof (cases "rc1 = 0 \<or> errno s1 = EBUSY")
    case True
    with cont naps Suc.prems(2) show ?thesis by (auto simp: act_elims)
  next
    case False
    with cont obtain rc2 s2 where s2: "sys env (Sleep 1) s1 = Some (Inr (rc2, s2))"
      "mount_data env left rc1 s2 = Some (Inr ((rc, i), t))" by (auto simp: act_elims)
    have "naps s2 = Suc (naps s)" using sys_ret [OF s2(1)] naps by (simp add: naps_def)
    moreover have "left = 0 \<Longrightarrow> rc = rc1" using s2(2) by (auto simp: act_elims)
    ultimately show ?thesis using Suc.IH [OF s2(2)] Suc.prems(2) False by (cases left) auto
  qed
qed (auto simp: act_elims)

section \<open>The copier\<close>

text \<open>What has been read from a descriptor, and what has been handed to \<open>write\<close> for one.\<close>

definition received :: "boot_env \<Rightarrow> int \<Rightarrow> call_log \<Rightarrow> string" where
  "received env fd h = concat (map (\<lambda>i. case h ! i of
     (Read fd' _, rc) \<Rightarrow> if fd' = fd \<and> rc > 0 then take (nat rc) (input env (take (Suc i) h)) else []
   | _ \<Rightarrow> []) [0..<length h])"

definition copied :: "int \<Rightarrow> call_log \<Rightarrow> string" where
  "copied fd h = concat (map (\<lambda>(c, rc). case c of Write fd' b \<Rightarrow> if fd' = fd then b else [] | _ \<Rightarrow> []) h)"

lemma received_snoc:
  "received env fd (h @ [e]) = received env fd h @ (case e of
     (Read fd' _, rc) \<Rightarrow> if fd' = fd \<and> rc > 0 then take (nat rc) (input env (h @ [e])) else [] | _ \<Rightarrow> [])"
proof -
  have "map (\<lambda>i. case (h @ [e]) ! i of
      (Read fd' _, rc) \<Rightarrow> if fd' = fd \<and> rc > 0 then take (nat rc) (input env (take (Suc i) (h @ [e]))) else []
    | _ \<Rightarrow> []) [0..<length h] = map (\<lambda>i. case h ! i of
      (Read fd' _, rc) \<Rightarrow> if fd' = fd \<and> rc > 0 then take (nat rc) (input env (take (Suc i) h)) else []
    | _ \<Rightarrow> []) [0..<length h]"
    by (intro map_cong refl) (auto simp: nth_append split: prod.splits syscall.splits)
  then show ?thesis by (simp add: received_def del: map_eq_conv split: prod.splits syscall.splits)
qed

lemma copied_snoc:
  "copied fd (h @ [(c, rc)]) = copied fd h @ (case c of Write fd' b \<Rightarrow> if fd' = fd then b else [] | _ \<Rightarrow> [])"
  by (simp add: copied_def)

text \<open>
  Every turn hands to \<open>write\<close> exactly what it has read; a read that fails is followed by a pause. This is
  also what happens for ever when \<open>/proc/kmsg\<close> could not be opened and the descriptor is \<open>-1\<close>.
\<close>

lemma kmsg_turn_copies:
  assumes "kmsg_turn env inp outp s = Some (Inr (u, t))" "copied outp (calls s) = received env inp (calls s)"
  shows "copied outp (calls t) = received env inp (calls t)"
  using assms
  by (auto simp: kmsg_turn_def act_elims sys_eq received_snoc copied_snoc simp flip: append_assoc split: if_splits)

end
