(* ===== verification/Agps_Bio.thy ===== *)
theory Agps_Bio
  imports Mtk_Prelude
begin

text \<open>
  The TLS bridge of the AGPS daemon (\<open>libshims/agps_ssl/agps_ssl.cpp\<close>). The old daemon implements a BIO of
  its own with the structure layout of Android Oreo. The bridge gives its callbacks an Oreo structure to
  work on, and the current BoringSSL a BIO of its own kind; flags and the initialisation mark are copied
  between the two. BoringSSL, the daemon's callbacks and the dynamic loader are parameters.
\<close>

section \<open>The two kinds of BIO\<close>

type_synonym addr = nat

definition nullptr :: addr where "nullptr = 0"

definition BIO_FLAGS_READ :: s32 where "BIO_FLAGS_READ = 1"
definition BIO_FLAGS_RWS :: s32 where "BIO_FLAGS_RWS = 7"
definition BIO_FLAGS_SHOULD_RETRY :: s32 where "BIO_FLAGS_SHOULD_RETRY = 8"

record OreoBio =
  ob_method :: addr
  ob_callback :: addr
  ob_cb_arg :: addr
  ob_init :: s32
  ob_shutdown :: s32
  ob_flags :: s32
  ob_retry_reason :: s32
  ob_num :: s32
  ob_references :: u32
  ob_ptr :: addr
  ob_next_bio :: addr
  ob_num_read :: u32
  ob_num_write :: u32

text \<open>The address of the constant that marks an Oreo structure, and that of the method table of the bridge.\<close>

definition kOreoMarker :: addr where "kOreoMarker = 1"
definition kBridgeMethod :: addr where "kBridgeMethod = 2"

record BioState =
  legacy :: OreoBio
  original :: addr

text \<open>The functions of BoringSSL on its BIOs; a BIO is a value that is returned updated.\<close>

record 'b bio_api =
  BIO_get_data :: "'b \<Rightarrow> addr"
  BIO_set_data :: "'b \<Rightarrow> addr \<Rightarrow> 'b"
  BIO_test_flags :: "'b \<Rightarrow> s32 \<Rightarrow> s32"
  BIO_set_flags :: "'b \<Rightarrow> s32 \<Rightarrow> 'b"
  BIO_clear_flags :: "'b \<Rightarrow> s32 \<Rightarrow> 'b"
  BIO_set_init :: "'b \<Rightarrow> s32 \<Rightarrow> 'b"
  bio_init :: "'b \<Rightarrow> s32"
  bio_method :: "'b \<Rightarrow> addr"

text \<open>
  A method table of the daemon. A callback gets the Oreo structure and returns its result and the structure
  as it leaves it; an absent one is a null pointer. \<open>bread\<close> also returns the bytes it stores.
\<close>

record BIO_METHOD =
  bwrite :: "(OreoBio \<Rightarrow> string \<Rightarrow> int \<Rightarrow> int \<times> OreoBio) option"
  bread :: "(OreoBio \<Rightarrow> int \<Rightarrow> int \<times> string \<times> OreoBio) option"
  bputs :: bool
  bgets :: bool
  ctrl :: "(OreoBio \<Rightarrow> int \<Rightarrow> int \<Rightarrow> addr \<Rightarrow> int \<times> OreoBio) option"
  create :: "(OreoBio \<Rightarrow> int \<times> OreoBio) option"
  destroy :: "(OreoBio \<Rightarrow> int \<times> OreoBio) option"
  callback_ctrl :: bool

text \<open>
  The states that are allocated, and the structures that the daemon has set up and not torn down yet.
\<close>

record agps =
  heap :: "addr \<rightharpoonup> BioState"
  set_up :: "addr list"

datatype bio_fault = Null_state | Dangling_state | Null_callback

section \<open>The bridge\<close>

definition syncFlags :: "'b bio_api \<Rightarrow> 'b \<Rightarrow> BioState \<Rightarrow> 'b" where
  "syncFlags api bio st =
     (let bio = BIO_clear_flags api bio (- 1);
          bio = BIO_set_flags api bio (ob_flags (legacy st))
      in BIO_set_init api bio (ob_init (legacy st)))"

text \<open>\<open>stateOf\<close>, with the access through the pointer that it returns.\<close>

definition stateOf :: "'b bio_api \<Rightarrow> 'b \<Rightarrow> agps \<Rightarrow> bio_fault + BioState" where
  "stateOf api bio w =
     (if BIO_get_data api bio = nullptr then Inl Null_state
      else case heap w (BIO_get_data api bio) of None \<Rightarrow> Inl Dangling_state | Some st \<Rightarrow> Inr st)"

definition store_state :: "'b bio_api \<Rightarrow> 'b \<Rightarrow> BioState \<Rightarrow> agps \<Rightarrow> agps" where
  "store_state api bio st w = w\<lparr>heap := (heap w)(BIO_get_data api bio \<mapsto> st)\<rparr>"

text \<open>\<open>state->legacy.flags = BIO_test_flags (bio, ~0)\<close>\<close>

definition load_flags :: "'b bio_api \<Rightarrow> 'b \<Rightarrow> BioState \<Rightarrow> BioState" where
  "load_flags api bio st = st\<lparr>legacy := (legacy st)\<lparr>ob_flags := BIO_test_flags api bio (- 1)\<rparr>\<rparr>"

definition bridgeWrite ::
  "'b bio_api \<Rightarrow> (addr \<Rightarrow> BIO_METHOD) \<Rightarrow> 'b \<Rightarrow> string \<Rightarrow> int \<Rightarrow> agps \<Rightarrow> bio_fault + int \<times> 'b \<times> agps" where
  "bridgeWrite api ms bio data len w =
     (case stateOf api bio w of
        Inl f \<Rightarrow> Inl f
      | Inr st \<Rightarrow>
          (case bwrite (ms (original st)) of
             None \<Rightarrow> Inl Null_callback
           | Some f \<Rightarrow>
               (let st = load_flags api bio st; (result, o') = f (legacy st) data len; st = st\<lparr>legacy := o'\<rparr>
                in Inr (result, syncFlags api bio st, store_state api bio st w))))"

definition bridgeRead ::
  "'b bio_api \<Rightarrow> (addr \<Rightarrow> BIO_METHOD) \<Rightarrow> 'b \<Rightarrow> int \<Rightarrow> agps \<Rightarrow> bio_fault + int \<times> string \<times> 'b \<times> agps" where
  "bridgeRead api ms bio len w =
     (case stateOf api bio w of
        Inl f \<Rightarrow> Inl f
      | Inr st \<Rightarrow>
          (case bread (ms (original st)) of
             None \<Rightarrow> Inl Null_callback
           | Some f \<Rightarrow>
               (let st = load_flags api bio st; (result, data, o') = f (legacy st) len; st = st\<lparr>legacy := o'\<rparr>
                in Inr (result, data, syncFlags api bio st, store_state api bio st w))))"

text \<open>\<open>bridgeCtrl\<close> checks for a null state and a null callback; it does not copy the flags first.\<close>

definition bridgeCtrl ::
  "'b bio_api \<Rightarrow> (addr \<Rightarrow> BIO_METHOD) \<Rightarrow> 'b \<Rightarrow> int \<Rightarrow> int \<Rightarrow> addr \<Rightarrow> agps \<Rightarrow> bio_fault + int \<times> 'b \<times> agps" where
  "bridgeCtrl api ms bio cmd arg p w =
     (case stateOf api bio w of
        Inl Null_state \<Rightarrow> Inr (0, bio, w)
      | Inl f \<Rightarrow> Inl f
      | Inr st \<Rightarrow>
          (case ctrl (ms (original st)) of
             None \<Rightarrow> Inr (0, bio, w)
           | Some f \<Rightarrow>
               (let (result, o') = f (legacy st) cmd arg p; st = st\<lparr>legacy := o'\<rparr>
                in Inr (result, syncFlags api bio st, store_state api bio st w))))"

text \<open>\<open>method->destroy (...)\<close> when there is one, and \<open>free\<close>.\<close>

definition tear_down :: "BIO_METHOD \<Rightarrow> addr \<Rightarrow> agps \<Rightarrow> agps" where
  "tear_down m p w = (if destroy m \<noteq> None then w\<lparr>set_up := removeAll p (set_up w)\<rparr> else w)"

definition free_state :: "addr \<Rightarrow> agps \<Rightarrow> agps" where
  "free_state p w = w\<lparr>heap := (heap w)(p := None)\<rparr>"

definition bridgeDestroy ::
  "'b bio_api \<Rightarrow> (addr \<Rightarrow> BIO_METHOD) \<Rightarrow> 'b \<Rightarrow> agps \<Rightarrow> bio_fault + int \<times> 'b \<times> agps" where
  "bridgeDestroy api ms bio w =
     (case stateOf api bio w of
        Inl Null_state \<Rightarrow> Inr (1, bio, w)
      | Inl f \<Rightarrow> Inl f
      | Inr st \<Rightarrow>
          (let p = BIO_get_data api bio
           in Inr (1, BIO_set_data api bio nullptr, free_state p (tear_down (ms (original st)) p w))))"

section \<open>Creation\<close>

text \<open>\<open>strrchr (s, '/') + 1\<close>, or the whole string when there is no slash.\<close>

definition basename :: "string \<Rightarrow> string" where
  "basename s = rev (takeWhile (\<lambda>c. c \<noteq> CHR ''/'') (rev s))"

text \<open>\<open>dladdr\<close> finds the object that contains an address; its file name may be missing.\<close>

definition isMtkMethod :: "(addr \<Rightarrow> string option option) \<Rightarrow> addr \<Rightarrow> bool" where
  "isMtkMethod dladdr m =
     (if m = nullptr then False
      else case dladdr m of
        None \<Rightarrow> False
      | Some None \<Rightarrow> False
      | Some (Some fname) \<Rightarrow> basename fname = ''mtk_agpsd'')"

definition fresh_legacy :: OreoBio where
  "fresh_legacy = \<lparr>ob_method = kOreoMarker, ob_callback = nullptr, ob_cb_arg = nullptr, ob_init = 0, ob_shutdown = 1,
     ob_flags = 0, ob_retry_reason = 0, ob_num = 0, ob_references = 1, ob_ptr = nullptr, ob_next_bio = nullptr,
     ob_num_read = 0, ob_num_write = 0\<rparr>"

text \<open>The environment of \<open>BIO_new\<close>: \<open>dlsym\<close>, \<open>dladdr\<close> and \<open>calloc\<close>.\<close>

record 'b new_env =
  real_new :: "(addr \<Rightarrow> 'b option) option"
  dladdr :: "addr \<Rightarrow> string option option"
  calloc :: addr

definition BIO_new ::
  "'b bio_api \<Rightarrow> 'b new_env \<Rightarrow> (addr \<Rightarrow> BIO_METHOD) \<Rightarrow> addr \<Rightarrow> agps \<Rightarrow> 'b option \<times> agps" where
  "BIO_new api env ms m w =
     (case real_new env of
        None \<Rightarrow> (None, w)
      | Some new \<Rightarrow>
          if \<not> isMtkMethod (dladdr env) m then (new m, w)
          else if bread (ms m) = None \<or> bwrite (ms m) = None \<or> bputs (ms m) \<or> bgets (ms m) \<or> callback_ctrl (ms m)
          then (None, w)
          else if calloc env = nullptr then (None, w)
          else (let p = calloc env;
                    (ok, o') = (case create (ms m) of None \<Rightarrow> (1, fresh_legacy) | Some f \<Rightarrow> f fresh_legacy);
                    st = \<lparr>legacy = o', original = m\<rparr>;
                    w1 = w\<lparr>heap := (heap w)(p \<mapsto> st)\<rparr>
                in if ok = 0 then (None, free_state p w1)
                   else (let w2 = w1\<lparr>set_up := (if create (ms m) \<noteq> None then p # set_up w1 else set_up w1)\<rparr>
                         in case new kBridgeMethod of
                              None \<Rightarrow> (None, free_state p (tear_down (ms m) p w2))
                            | Some bio \<Rightarrow> (Some (syncFlags api (BIO_set_data api bio p) st), w2))))"

section \<open>The retry flags\<close>

text \<open>A BIO pointer leads to a structure of either kind; which one is read off the method pointer.\<close>

datatype 'b bio_ref = Oreo OreoBio | Native 'b

fun ref_method :: "'b bio_api \<Rightarrow> 'b bio_ref \<Rightarrow> addr" where
  "ref_method api (Oreo ob) = ob_method ob"
| "ref_method api (Native b) = bio_method api b"

text \<open>\<open>None\<close>: the structure is not of the kind that its method pointer says.\<close>

definition BIO_clear_retry_flags :: "'b bio_api \<Rightarrow> 'b bio_ref \<Rightarrow> 'b bio_ref option" where
  "BIO_clear_retry_flags api r =
     (case (ref_method api r = kOreoMarker, r) of
        (True, Oreo ob) \<Rightarrow> Some (Oreo (ob\<lparr>ob_flags := ob_flags ob AND NOT (BIO_FLAGS_RWS OR BIO_FLAGS_SHOULD_RETRY)\<rparr>))
      | (False, Native b) \<Rightarrow> Some (Native (BIO_clear_flags api b (BIO_FLAGS_RWS OR BIO_FLAGS_SHOULD_RETRY)))
      | _ \<Rightarrow> None)"

definition BIO_set_retry_read :: "'b bio_api \<Rightarrow> 'b bio_ref \<Rightarrow> 'b bio_ref option" where
  "BIO_set_retry_read api r =
     (case (ref_method api r = kOreoMarker, r) of
        (True, Oreo ob) \<Rightarrow> Some (Oreo (ob\<lparr>ob_flags := ob_flags ob OR (BIO_FLAGS_READ OR BIO_FLAGS_SHOULD_RETRY)\<rparr>))
      | (False, Native b) \<Rightarrow> Some (Native (BIO_set_flags api b (BIO_FLAGS_READ OR BIO_FLAGS_SHOULD_RETRY)))
      | _ \<Rightarrow> None)"

text \<open>The two method getters forward to the version-negotiating ones.\<close>

definition SSLv3_client_method :: "'m \<Rightarrow> 'm" where
  "SSLv3_client_method tls_client_method = tls_client_method"

definition SSLv3_server_method :: "'m \<Rightarrow> 'm" where
  "SSLv3_server_method tls_server_method = tls_server_method"


section \<open>What BoringSSL promises\<close>

locale boring_bio =
  fixes api :: "'b bio_api"
  assumes test_mask: "BIO_test_flags api b m = BIO_test_flags api b (- 1) AND m"
    and test_set: "BIO_test_flags api (BIO_set_flags api b f) (- 1) = BIO_test_flags api b (- 1) OR f"
    and test_clear: "BIO_test_flags api (BIO_clear_flags api b f) (- 1) = BIO_test_flags api b (- 1) AND NOT f"
    and test_data: "BIO_test_flags api (BIO_set_data api b p) m = BIO_test_flags api b m"
    and test_init: "BIO_test_flags api (BIO_set_init api b i) m = BIO_test_flags api b m"
    and data_set: "BIO_get_data api (BIO_set_data api b p) = p"
    and data_flags: "BIO_get_data api (BIO_set_flags api b f) = BIO_get_data api b"
      "BIO_get_data api (BIO_clear_flags api b f) = BIO_get_data api b"
      "BIO_get_data api (BIO_set_init api b i) = BIO_get_data api b"
    and init_set: "bio_init api (BIO_set_init api b i) = i"
    and init_flags: "bio_init api (BIO_set_flags api b f) = bio_init api b"
      "bio_init api (BIO_clear_flags api b f) = bio_init api b"
    and method_kept: "bio_method api (BIO_set_data api b p) = bio_method api b"
      "bio_method api (BIO_set_flags api b f) = bio_method api b"
      "bio_method api (BIO_clear_flags api b f) = bio_method api b"
      "bio_method api (BIO_set_init api b i) = bio_method api b"
begin

lemma sync_flags: "BIO_test_flags api (syncFlags api b st) (- 1) = ob_flags (legacy st)"
  by (simp add: syncFlags_def Let_def test_set test_clear test_init)

lemma sync_others:
  "BIO_get_data api (syncFlags api b st) = BIO_get_data api b" "bio_init api (syncFlags api b st) = ob_init (legacy st)"
  "bio_method api (syncFlags api b st) = bio_method api b"
  by (simp_all add: syncFlags_def Let_def data_flags init_set method_kept)

lemmas laws = test_set test_clear test_data test_init data_set data_flags init_set init_flags method_kept
  sync_flags sync_others

end

text \<open>The structure of BoringSSL, with the members that these functions work on.\<close>

record native_bio =
  nb_method :: addr
  nb_init :: s32
  nb_flags :: s32
  nb_ptr :: addr

definition native_api :: "native_bio bio_api" where
  "native_api = \<lparr>BIO_get_data = nb_ptr, BIO_set_data = (\<lambda>b p. b\<lparr>nb_ptr := p\<rparr>),
     BIO_test_flags = (\<lambda>b m. nb_flags b AND m), BIO_set_flags = (\<lambda>b f. b\<lparr>nb_flags := nb_flags b OR f\<rparr>),
     BIO_clear_flags = (\<lambda>b f. b\<lparr>nb_flags := nb_flags b AND NOT f\<rparr>), BIO_set_init = (\<lambda>b i. b\<lparr>nb_init := i\<rparr>),
     bio_init = nb_init, bio_method = nb_method\<rparr>"

interpretation native: boring_bio native_api
  by unfold_locales (simp_all add: native_api_def)

section \<open>The bridge and the Oreo BIO\<close>

text \<open>What a user does with a BIO, and what it sees.\<close>

datatype bio_op = Op_write string int | Op_read int | Op_ctrl int int addr | Op_clear_retry | Op_retry_read

datatype bio_out = Out_num int | Out_data int string | Out_none

text \<open>The reference: the daemon's own BIO on Oreo, where every call works on the one structure.\<close>

fun oreo_op :: "BIO_METHOD \<Rightarrow> bio_op \<Rightarrow> OreoBio \<Rightarrow> bio_out \<times> OreoBio" where
  "oreo_op m (Op_write data len) ob = (case bwrite m of
     None \<Rightarrow> (Out_none, ob) | Some f \<Rightarrow> (let (r, o') = f ob data len in (Out_num r, o')))"
| "oreo_op m (Op_read len) ob = (case bread m of
     None \<Rightarrow> (Out_none, ob) | Some f \<Rightarrow> (let (r, data, o') = f ob len in (Out_data r data, o')))"
| "oreo_op m (Op_ctrl cmd arg p) ob = (case ctrl m of
     None \<Rightarrow> (Out_num 0, ob) | Some f \<Rightarrow> (let (r, o') = f ob cmd arg p in (Out_num r, o')))"
| "oreo_op m Op_clear_retry ob =
     (Out_none, ob\<lparr>ob_flags := ob_flags ob AND NOT (BIO_FLAGS_RWS OR BIO_FLAGS_SHOULD_RETRY)\<rparr>)"
| "oreo_op m Op_retry_read ob =
     (Out_none, ob\<lparr>ob_flags := ob_flags ob OR (BIO_FLAGS_READ OR BIO_FLAGS_SHOULD_RETRY)\<rparr>)"

fun oreo_run :: "BIO_METHOD \<Rightarrow> bio_op list \<Rightarrow> OreoBio \<Rightarrow> bio_out list \<times> OreoBio" where
  "oreo_run m [] ob = ([], ob)"
| "oreo_run m (x # xs) ob = (let (y, o1) = oreo_op m x ob; (ys, o2) = oreo_run m xs o1 in (y # ys, o2))"

text \<open>The same calls on the BIO that the bridge made.\<close>

fun bridge_op ::
  "'b bio_api \<Rightarrow> (addr \<Rightarrow> BIO_METHOD) \<Rightarrow> bio_op \<Rightarrow> 'b \<Rightarrow> agps \<Rightarrow> (bio_fault + bio_out \<times> 'b \<times> agps) option" where
  "bridge_op api ms (Op_write data len) bio w =
     Some (case bridgeWrite api ms bio data len w of Inl f \<Rightarrow> Inl f | Inr (r, bio', w') \<Rightarrow> Inr (Out_num r, bio', w'))"
| "bridge_op api ms (Op_read len) bio w =
     Some (case bridgeRead api ms bio len w of Inl f \<Rightarrow> Inl f | Inr (r, data, bio', w') \<Rightarrow> Inr (Out_data r data, bio', w'))"
| "bridge_op api ms (Op_ctrl cmd arg p) bio w =
     Some (case bridgeCtrl api ms bio cmd arg p w of Inl f \<Rightarrow> Inl f | Inr (r, bio', w') \<Rightarrow> Inr (Out_num r, bio', w'))"
| "bridge_op api ms Op_clear_retry bio w =
     (case BIO_clear_retry_flags api (Native bio) of Some (Native bio') \<Rightarrow> Some (Inr (Out_none, bio', w)) | _ \<Rightarrow> None)"
| "bridge_op api ms Op_retry_read bio w =
     (case BIO_set_retry_read api (Native bio) of Some (Native bio') \<Rightarrow> Some (Inr (Out_none, bio', w)) | _ \<Rightarrow> None)"

fun bridge_run ::
  "'b bio_api \<Rightarrow> (addr \<Rightarrow> BIO_METHOD) \<Rightarrow> bio_op list \<Rightarrow> 'b \<Rightarrow> agps \<Rightarrow> (bio_fault + bio_out list \<times> 'b \<times> agps) option" where
  "bridge_run api ms [] bio w = Some (Inr ([], bio, w))"
| "bridge_run api ms (x # xs) bio w =
     (case bridge_op api ms x bio w of
        None \<Rightarrow> None
      | Some (Inl f) \<Rightarrow> Some (Inl f)
      | Some (Inr (y, bio1, w1)) \<Rightarrow>
          (case bridge_run api ms xs bio1 w1 of
             None \<Rightarrow> None
           | Some (Inl f) \<Rightarrow> Some (Inl f)
           | Some (Inr (ys, bio2, w2)) \<Rightarrow> Some (Inr (y # ys, bio2, w2))))"

text \<open>
  The Oreo structure that a bridged BIO stands for: the one in its state, with the flags of the BIO.
  \<open>in_sync\<close>: the structure in the state has these flags already.
\<close>

definition stands_for :: "'b bio_api \<Rightarrow> addr \<Rightarrow> addr \<Rightarrow> 'b \<Rightarrow> agps \<Rightarrow> OreoBio \<Rightarrow> bool" where
  "stands_for api m p bio w ob \<longleftrightarrow> p \<noteq> nullptr \<and> BIO_get_data api bio = p \<and> bio_method api bio = kBridgeMethod \<and>
     (\<exists>st. heap w p = Some st \<and> original st = m \<and> bio_init api bio = ob_init ob \<and>
        ob = (legacy st)\<lparr>ob_flags := BIO_test_flags api bio (- 1)\<rparr>)"

definition in_sync :: "'b bio_api \<Rightarrow> 'b \<Rightarrow> agps \<Rightarrow> bool" where
  "in_sync api bio w \<longleftrightarrow>
     (\<exists>st. heap w (BIO_get_data api bio) = Some st \<and> ob_flags (legacy st) = BIO_test_flags api bio (- 1))"

text \<open>Every control call comes before the flags were changed from outside, or after the next read or write.\<close>

fun ctrl_synced :: "bool \<Rightarrow> bio_op list \<Rightarrow> bool" where
  "ctrl_synced sy [] \<longleftrightarrow> True"
| "ctrl_synced sy (Op_ctrl _ _ _ # xs) \<longleftrightarrow> sy \<and> ctrl_synced True xs"
| "ctrl_synced sy (Op_clear_retry # xs) \<longleftrightarrow> ctrl_synced False xs"
| "ctrl_synced sy (Op_retry_read # xs) \<longleftrightarrow> ctrl_synced False xs"
| "ctrl_synced sy (_ # xs) \<longleftrightarrow> ctrl_synced True xs"

context boring_bio
begin

lemma stored_stands_for:
  assumes "stands_for api m p bio w ob" "original st = m"
  shows "stands_for api m p (syncFlags api bio st) (store_state api bio st w) (legacy st)"
    "in_sync api (syncFlags api bio st) (store_state api bio st w)"
  using assms by (auto simp: stands_for_def in_sync_def store_state_def laws)

lemma write_step:
  assumes "stands_for api m p bio w ob" "bwrite (ms m) = Some f"
  obtains bio' w' where "bridge_op api ms (Op_write d n) bio w = Some (Inr (fst (oreo_op (ms m) (Op_write d n) ob), bio', w'))"
    "stands_for api m p bio' w' (snd (oreo_op (ms m) (Op_write d n) ob))" "in_sync api bio' w'"
proof -
  from assms(1) obtain st where st: "stateOf api bio w = Inr st" "original st = m"
    "legacy (load_flags api bio st) = ob" "original (load_flags api bio st) = m"
    by (auto simp: stands_for_def stateOf_def load_flags_def)
  obtain r o' where f: "f ob d n = (r, o')" by force
  let ?st = "(load_flags api bio st)\<lparr>legacy := o'\<rparr>"
  show thesis
    by (rule that [of "syncFlags api bio ?st" "store_state api bio ?st w"])
      (use st f assms stored_stands_for [OF assms(1), of ?st] in \<open>auto simp: bridgeWrite_def Let_def\<close>)
qed

lemma read_step:
  assumes "stands_for api m p bio w ob" "bread (ms m) = Some f"
  obtains bio' w' where "bridge_op api ms (Op_read n) bio w = Some (Inr (fst (oreo_op (ms m) (Op_read n) ob), bio', w'))"
    "stands_for api m p bio' w' (snd (oreo_op (ms m) (Op_read n) ob))" "in_sync api bio' w'"
proof -
  from assms(1) obtain st where st: "stateOf api bio w = Inr st" "original st = m"
    "legacy (load_flags api bio st) = ob" "original (load_flags api bio st) = m"
    by (auto simp: stands_for_def stateOf_def load_flags_def)
  obtain r d o' where f: "f ob n = (r, d, o')" by (metis prod_cases3)
  let ?st = "(load_flags api bio st)\<lparr>legacy := o'\<rparr>"
  show thesis
    by (rule that [of "syncFlags api bio ?st" "store_state api bio ?st w"])
      (use st f assms stored_stands_for [OF assms(1), of ?st] in \<open>auto simp: bridgeRead_def Let_def\<close>)
qed

lemma ctrl_step:
  assumes "stands_for api m p bio w ob" "in_sync api bio w"
  obtains bio' w' where "bridge_op api ms (Op_ctrl c a q) bio w = Some (Inr (fst (oreo_op (ms m) (Op_ctrl c a q) ob), bio', w'))"
    "stands_for api m p bio' w' (snd (oreo_op (ms m) (Op_ctrl c a q) ob))" "in_sync api bio' w'"
proof -
  from assms obtain st where st: "stateOf api bio w = Inr st" "original st = m" "legacy st = ob"
    by (auto simp: stands_for_def stateOf_def in_sync_def)
  show thesis
  proof (cases "ctrl (ms m)")
    case None
    with st assms show ?thesis by (intro that [of bio w]) (auto simp: bridgeCtrl_def)
  next
    case (Some f)
    obtain r o' where f: "f ob c a q = (r, o')" by force
    let ?st = "st\<lparr>legacy := o'\<rparr>"
    show ?thesis
      by (rule that [of "syncFlags api bio ?st" "store_state api bio ?st w"])
        (use Some st f assms stored_stands_for [OF assms(1), of ?st] in \<open>auto simp: bridgeCtrl_def Let_def\<close>)
  qed
qed

lemma flag_step:
  assumes "stands_for api m p bio w ob" "x \<in> {Op_clear_retry, Op_retry_read}"
  obtains bio' where "bridge_op api ms x bio w = Some (Inr (fst (oreo_op (ms m) x ob), bio', w))"
    "stands_for api m p bio' w (snd (oreo_op (ms m) x ob))"
  using assms
  by (auto simp: stands_for_def BIO_clear_retry_flags_def BIO_set_retry_read_def kBridgeMethod_def kOreoMarker_def laws)

lemma run_refines:
  assumes "bwrite (ms m) \<noteq> None" "bread (ms m) \<noteq> None"
  shows "stands_for api m p bio w ob \<Longrightarrow> ctrl_synced sy xs \<Longrightarrow> (sy \<longrightarrow> in_sync api bio w) \<Longrightarrow>
    \<exists>bio' w'. bridge_run api ms xs bio w = Some (Inr (fst (oreo_run (ms m) xs ob), bio', w')) \<and>
      stands_for api m p bio' w' (snd (oreo_run (ms m) xs ob))"
proof (induction xs arbitrary: sy bio w ob)
  case (Cons x xs)
  have "\<exists>bio1 w1 sy'. bridge_op api ms x bio w = Some (Inr (fst (oreo_op (ms m) x ob), bio1, w1)) \<and>
      stands_for api m p bio1 w1 (snd (oreo_op (ms m) x ob)) \<and> ctrl_synced sy' xs \<and> (sy' \<longrightarrow> in_sync api bio1 w1)"
  proof (cases x)
    case (Op_write d n)
    from assms obtain f where "bwrite (ms m) = Some f" by blast
    moreover have "ctrl_synced True xs" using Cons.prems(2) Op_write by simp
    ultimately show ?thesis using write_step [OF Cons.prems(1), of ms f d n] unfolding Op_write by blast
  next
    case (Op_read n)
    from assms obtain f where "bread (ms m) = Some f" by blast
    moreover have "ctrl_synced True xs" using Cons.prems(2) Op_read by simp
    ultimately show ?thesis using read_step [OF Cons.prems(1), of ms f n] unfolding Op_read by blast
  next
    case (Op_ctrl c a q)
    with Cons.prems have "in_sync api bio w" "ctrl_synced True xs" by auto
    then show ?thesis using ctrl_step [OF Cons.prems(1), of ms c a q] unfolding Op_ctrl by blast
  next
    case Op_clear_retry
    then have "x \<in> {Op_clear_retry, Op_retry_read}" "ctrl_synced False xs" using Cons.prems(2) by auto
    then show ?thesis using flag_step [OF Cons.prems(1), of x ms] by blast
  next
    case Op_retry_read
    then have "x \<in> {Op_clear_retry, Op_retry_read}" "ctrl_synced False xs" using Cons.prems(2) by auto
    then show ?thesis using flag_step [OF Cons.prems(1), of x ms] by blast
  qed
  then obtain bio1 w1 sy' where 1: "bridge_op api ms x bio w = Some (Inr (fst (oreo_op (ms m) x ob), bio1, w1))"
    "stands_for api m p bio1 w1 (snd (oreo_op (ms m) x ob))" "ctrl_synced sy' xs" "sy' \<longrightarrow> in_sync api bio1 w1" by blast
  from Cons.IH [OF 1(2-4)] 1(1) show ?case by (auto simp: Let_def split: prod.splits)
qed simp

end

section \<open>Correctness of the bridge\<close>

text \<open>What BoringSSL's \<open>BIO_new\<close> returns has the method it was called with.\<close>

definition new_keeps_method :: "'b bio_api \<Rightarrow> 'b new_env \<Rightarrow> bool" where
  "new_keeps_method api env \<longleftrightarrow> (\<forall>new m b. real_new env = Some new \<and> new m = Some b \<longrightarrow> bio_method api b = m)"

text \<open>The structure after \<open>create\<close>.\<close>

definition created :: "BIO_METHOD \<Rightarrow> OreoBio" where
  "created m = (case create m of None \<Rightarrow> fresh_legacy | Some f \<Rightarrow> snd (f fresh_legacy))"

text \<open>The address that \<open>calloc\<close> returns is not in use.\<close>

definition fresh_addr :: "'b new_env \<Rightarrow> agps \<Rightarrow> bool" where
  "fresh_addr env w \<longleftrightarrow> heap w (calloc env) = None \<and> calloc env \<notin> set (set_up w)"

definition accepts :: "BIO_METHOD \<Rightarrow> bool" where
  "accepts m \<longleftrightarrow> bread m \<noteq> None \<and> bwrite m \<noteq> None \<and> \<not> bputs m \<and> \<not> bgets m \<and> \<not> callback_ctrl m"

lemma BIO_new_Some:
  assumes "isMtkMethod (dladdr env) m" "BIO_new api env ms m w = (Some bio, w1)"
  obtains new b where "real_new env = Some new" "new kBridgeMethod = Some b" "accepts (ms m)" "calloc env \<noteq> nullptr"
    "bio = syncFlags api (BIO_set_data api b (calloc env)) \<lparr>legacy = created (ms m), original = m\<rparr>"
    "w1 = \<lparr>heap = (heap w)(calloc env \<mapsto> \<lparr>legacy = created (ms m), original = m\<rparr>),
       set_up = (if create (ms m) = None then set_up w else calloc env # set_up w), \<dots> = agps.more w\<rparr>"
  using assms
  by (fastforce simp: BIO_new_def accepts_def created_def Let_def split: option.splits if_splits prod.splits)

text \<open>Only the state of the BIO changes in the course of its use.\<close>

definition only_changes :: "addr \<Rightarrow> agps \<Rightarrow> agps \<Rightarrow> bool" where
  "only_changes p w w' \<longleftrightarrow> set_up w' = set_up w \<and> (\<forall>q. q \<noteq> p \<longrightarrow> heap w' q = heap w q) \<and>
     map_option original (heap w' p) = map_option original (heap w p)"

context boring_bio
begin

lemma new_stands_for:
  assumes "new_keeps_method api env" "isMtkMethod (dladdr env) m" "BIO_new api env ms m w = (Some bio, w1)"
  shows "stands_for api m (calloc env) bio w1 (created (ms m)) \<and> in_sync api bio w1 \<and> accepts (ms m)"
  using BIO_new_Some [OF assms(2,3)] assms(1)
  by (fastforce simp: stands_for_def in_sync_def new_keeps_method_def laws)

lemma op_changes:
  assumes "bridge_op api ms x bio w = Some (Inr (y, bio', w'))"
  shows "BIO_get_data api bio' = BIO_get_data api bio \<and> only_changes (BIO_get_data api bio) w w'"
  using assms
  by (cases x) (auto simp: only_changes_def stateOf_def load_flags_def bridgeWrite_def bridgeRead_def bridgeCtrl_def store_state_def
      BIO_clear_retry_flags_def BIO_set_retry_read_def laws Let_def
      split: sum.splits option.splits prod.splits bio_fault.splits bool.splits bio_ref.splits if_splits)

lemma run_changes:
  "bridge_run api ms xs bio w = Some (Inr (ys, bio', w')) \<Longrightarrow>
   BIO_get_data api bio' = BIO_get_data api bio \<and> only_changes (BIO_get_data api bio) w w'"
proof (induction xs arbitrary: bio w ys)
  case (Cons x xs)
  then obtain y bio1 w1 zs where 1: "bridge_op api ms x bio w = Some (Inr (y, bio1, w1))"
    "bridge_run api ms xs bio1 w1 = Some (Inr (zs, bio', w'))"
    by (auto split: option.splits sum.splits prod.splits)
  from op_changes [OF 1(1)] Cons.IH [OF 1(2)] show ?case by (auto simp: only_changes_def)
qed (simp add: only_changes_def)

lemma destroy_restores:
  assumes "fresh_addr env w" "destroy (ms m) \<noteq> None \<or> create (ms m) = None" "calloc env \<noteq> nullptr"
    and "BIO_get_data api bio = calloc env" "only_changes (calloc env) w1 w2" "map_option original (heap w1 (calloc env)) = Some m"
    and w1: "\<forall>q. q \<noteq> calloc env \<longrightarrow> heap w1 q = heap w q" "set_up w1 = (if create (ms m) = None then set_up w else calloc env # set_up w)"
  shows "\<exists>bio'. bridgeDestroy api ms bio w2 = Inr (1, bio', w) \<and> BIO_get_data api bio' = nullptr"
proof -
  have "map_option original (heap w2 (calloc env)) = Some m" using assms(5,6) by (simp add: only_changes_def)
  then obtain st where st: "heap w2 (calloc env) = Some st" "original st = m" by auto
  have "(heap w2)(calloc env := None) = heap w" using assms(1,5) w1(1) by (auto simp: fun_eq_iff only_changes_def fresh_addr_def)
  moreover have "set_up (tear_down (ms m) (calloc env) w2) = set_up w" "heap (tear_down (ms m) (calloc env) w2) = heap w2"
    using assms(1,2,5) w1(2) by (auto simp: tear_down_def only_changes_def fresh_addr_def)
  ultimately have "free_state (calloc env) (tear_down (ms m) (calloc env) w2) = w" by (simp add: free_state_def)
  then show ?thesis using st assms(3,4) by (simp add: bridgeDestroy_def stateOf_def laws)
qed

text \<open>
  A control call does not load the flags first, and then copies the old ones back: retry flags that were
  cleared from outside come back, although the callback does nothing.
\<close>

lemma ctrl_restores_old_flags:
  assumes "stands_for api m p bio w ob" "in_sync api bio w" "ctrl (ms m) = Some (\<lambda>ob c a q. (r, ob))"
  shows "\<exists>ys bio' w'. bridge_run api ms [Op_clear_retry, Op_ctrl c a q] bio w = Some (Inr (ys, bio', w')) \<and>
    BIO_test_flags api bio' (- 1) = BIO_test_flags api bio (- 1)"
  using assms
  by (auto simp: stands_for_def in_sync_def BIO_clear_retry_flags_def bridgeCtrl_def stateOf_def kBridgeMethod_def
      kOreoMarker_def laws)

end



text \<open>A daemon that counts its reads, on the structure of BoringSSL.\<close>

definition daemon_method :: BIO_METHOD where
  "daemon_method = \<lparr>bwrite = Some (\<lambda>ob d n. (n, ob)),
     bread = Some (\<lambda>ob n. (-1, [], ob\<lparr>ob_num := ob_num ob + 1, ob_flags := ob_flags ob OR 9\<rparr>)), bputs = False, bgets = False,
     ctrl = Some (\<lambda>ob c a q. (uint (ob_num ob), ob)), create = Some (\<lambda>ob. (1, ob\<lparr>ob_init := 1\<rparr>)),
     destroy = Some (\<lambda>ob. (1, ob)), callback_ctrl = False\<rparr>"

definition daemon_env :: "native_bio new_env" where
  "daemon_env = \<lparr>real_new = Some (\<lambda>m. Some \<lparr>nb_method = m, nb_init = 0, nb_flags = 0, nb_ptr = 0\<rparr>),
     dladdr = (\<lambda>_. Some (Some ''/system/vendor/bin/mtk_agpsd'')), calloc = 4096\<rparr>"

definition no_states :: agps where
  "no_states = \<lparr>heap = (\<lambda>_. None), set_up = []\<rparr>"

lemma daemon_env_ok:
  "new_keeps_method native_api daemon_env" "isMtkMethod (dladdr daemon_env) 77" "fresh_addr daemon_env no_states"
  by (auto simp: new_keeps_method_def daemon_env_def native_api_def isMtkMethod_def basename_def nullptr_def
      fresh_addr_def no_states_def)

lemma daemon_new: "\<exists>bio w1. BIO_new native_api daemon_env (\<lambda>_. daemon_method) 77 no_states = (Some bio, w1)"
  using daemon_env_ok(2) by (auto simp: BIO_new_def daemon_env_def daemon_method_def nullptr_def Let_def)



end
