(* ===== verification/Vendor_Shims.thy ===== *)
theory Vendor_Shims
  imports Mtk_Prelude
begin

text \<open>
  The small libraries that keep old vendor programs running on a newer Android (\<open>libshims\<close>, \<open>camera-shim\<close>), two
  tools (\<open>tools/radio_state_test.cpp\<close>, \<open>tools/remount_root.c\<close>), and the inline functions of \<open>hardware/audio.h\<close>. What
  they forward to is a parameter.
\<close>

section \<open>Destroying a mutex twice\<close>

text \<open>
  \<open>libshims/mnld_mutex\<close>: the first 16 bits of the mutex tell whether it was destroyed. \<open>real_destroy\<close> is the
  function of the C library, with the mutex as it leaves it; \<open>None\<close> when \<open>dlsym\<close> did not find it. The argument
  \<open>None\<close> is a null pointer.
\<close>

definition EINVAL :: int where "EINVAL = 22"

definition destroyed :: u16 where "destroyed = 0xffff"

definition pthread_mutex_destroy ::
  "(u16 option \<Rightarrow> int \<times> u16 option) option \<Rightarrow> u16 option \<Rightarrow> int \<times> u16 option" where
  "pthread_mutex_destroy real_destroy mutex =
     (if mutex = Some destroyed then (0, mutex)
      else case real_destroy of None \<Rightarrow> (EINVAL, mutex) | Some f \<Rightarrow> f mutex)"

text \<open>The C library marks a mutex that it has destroyed with success, and aborts on a marked one (\<open>None\<close>).\<close>

definition bionic_destroy :: "(u16 \<Rightarrow> bool) \<Rightarrow> u16 \<Rightarrow> (int \<times> u16) option" where
  "bionic_destroy busy m = (if m = destroyed then None else Some (if busy m then (16, m) else (0, destroyed)))"

definition mutex_runs :: "(u16 \<Rightarrow> bool) \<Rightarrow> nat \<Rightarrow> u16 \<Rightarrow> int list \<times> u16" where
  "mutex_runs busy n m = ((\<lambda>(rs, m). case pthread_mutex_destroy
       (Some (\<lambda>x. case x of None \<Rightarrow> (EINVAL, None) | Some y \<Rightarrow> map_prod id Some (the (bionic_destroy busy y)))) (Some m) of
       (r, x) \<Rightarrow> (rs @ [r], the x)) ^^ n) ([], m)"

text \<open>
  However often a mutex that nobody uses is destroyed, every call succeeds, and the library function is only
  called with a mutex that is not destroyed yet.
\<close>

lemma destroy_again:
  assumes "m \<noteq> destroyed" "\<not> busy m"
  shows "mutex_runs busy n m = (replicate n 0, if n = 0 then m else destroyed)"
proof (induction n)
  case 0
  show ?case by (simp add: mutex_runs_def)
next
  case (Suc n)
  then show ?case using assms
    by (cases n) (simp_all add: mutex_runs_def pthread_mutex_destroy_def bionic_destroy_def replicate_append_same)
qed

section \<open>Names of values\<close>

text \<open>\<open>std::to_string\<close> of a signed or of an unsigned number.\<close>

definition to_string_s32 :: "s32 \<Rightarrow> string" where "to_string_s32 v = fmt_d (sint v)"
definition to_string_u64 :: "u64 \<Rightarrow> string" where "to_string_u64 v = dec_digits (unat v)"

definition clirToString :: "s32 \<Rightarrow> string" where "clirToString v = to_string_s32 v"
definition operatorInfoToString :: "nat \<Rightarrow> string" where "operatorInfoToString p = ''OperatorInfo''"
definition dataProfileToString :: "nat \<Rightarrow> string" where "dataProfileToString p = ''DataProfileInfo''"
definition setupDataCallToString :: "nat \<Rightarrow> string" where "setupDataCallToString p = ''SetupDataCallResult''"

text \<open>Values of these types are compared by address.\<close>

definition operatorInfoNotEqual :: "nat \<Rightarrow> nat \<Rightarrow> bool" where "operatorInfoNotEqual l r \<longleftrightarrow> l \<noteq> r"
definition dataProfileNotEqual :: "nat \<Rightarrow> nat \<Rightarrow> bool" where "dataProfileNotEqual l r \<longleftrightarrow> l \<noteq> r"
definition setupDataCallNotEqual :: "nat \<Rightarrow> nat \<Rightarrow> bool" where "setupDataCallNotEqual l r \<longleftrightarrow> l \<noteq> r"

definition legacyPixelFormatToString :: "s32 \<Rightarrow> string" where "legacyPixelFormatToString v = to_string_s32 v"
definition legacyBufferUsageToString :: "u64 \<Rightarrow> string" where "legacyBufferUsageToString v = to_string_u64 v"
definition legacyDataspaceToString :: "s32 \<Rightarrow> string" where "legacyDataspaceToString v = to_string_s32 v"

definition audio_v2_result_to_string :: "s32 \<Rightarrow> string" where
  "audio_v2_result_to_string result =
     (if result = 0 then ''OK''
      else if result = 1 then ''NOT_INITIALIZED''
      else if result = 2 then ''INVALID_ARGUMENTS''
      else if result = 3 then ''INVALID_STATE''
      else if result = 4 then ''NOT_SUPPORTED''
      else to_string_s32 result)"

lemma atoi_to_string: "atoi 64 (to_string_s32 v) = v"
proof -
  have "- (2 ^ 31) \<le> sint v" "sint v < 2 ^ 31" using sint_ge [of v] sint_lt [of v] by simp_all
  then have "atoi 64 (fmt_d (sint v) @ []) = word_of_int (sint v)" by (intro atoi_fmt_d) (simp_all add: has_digit_def)
  then show ?thesis by (simp add: to_string_s32_def)
qed

lemma five_results: "unat v < 5 \<longleftrightarrow> v \<in> {0, 1, 2, 3, 4}" for v :: s32
proof -
  have "unat v < 5 \<longleftrightarrow> unat v \<in> {unat (0::s32), unat (1::s32), unat (2::s32), unat (3::s32), unat (4::s32)}" by auto
  then show ?thesis unfolding insert_iff empty_iff word_unat_eq_iff .
qed

lemma atoi_no_number: "\<not> is_space c \<Longrightarrow> c \<noteq> CHR ''-'' \<Longrightarrow> c \<noteq> CHR ''+'' \<Longrightarrow> digit_in 10 c = None \<Longrightarrow> atoi lw (c # s) = 0"
  by (simp add: atoi_def strtol_def split_sign_def strtol_base_def has_digit_def)

lemma atoi_result: "atoi 64 (audio_v2_result_to_string v) = (if unat v < 5 then 0 else v)"
proof -
  have "atoi 64 (c # s) = 0" if "c \<in> {CHR ''O'', CHR ''N'', CHR ''I''}" for c s
    using that by (intro atoi_no_number) (auto simp: is_space_def chr_code_def digit_in_def digit_val_def)
  then show ?thesis by (simp add: audio_v2_result_to_string_def five_results atoi_to_string)
qed

text \<open>Different values have different names: the numbers are unique, and no name of a result reads as a number.\<close>

lemma names_injective:
  "inj clirToString" "inj legacyPixelFormatToString" "inj legacyDataspaceToString" "inj audio_v2_result_to_string"
proof -
  have "inj to_string_s32" by (metis atoi_to_string injI)
  then show "inj clirToString" "inj legacyPixelFormatToString" "inj legacyDataspaceToString"
    by (simp_all add: inj_def clirToString_def legacyPixelFormatToString_def legacyDataspaceToString_def)
  show "inj audio_v2_result_to_string"
  proof (rule injI)
    fix v w assume e: "audio_v2_result_to_string v = audio_v2_result_to_string w"
    from arg_cong [OF e, of "atoi 64"] have "v = w \<or> unat v < 5 \<and> unat w < 5"
      by (auto simp: atoi_result split: if_splits)
    then show "v = w"
    proof
      assume "unat v < 5 \<and> unat w < 5"
      with e show ?thesis unfolding five_results by (elim conjE insertE emptyE) (simp_all add: audio_v2_result_to_string_def)
    qed
  qed
qed

section \<open>Forwarded calls\<close>

text \<open>
  The old entry points of the log and graphics libraries, as calls of the current functions: the argument that
  is new is a null pointer.
\<close>

definition log_message_ctor_android8 ::
  "('a \<Rightarrow> string \<Rightarrow> u32 \<Rightarrow> s32 \<Rightarrow> s32 \<Rightarrow> string option \<Rightarrow> s32 \<Rightarrow> 'b) \<Rightarrow> 'a \<Rightarrow> string \<Rightarrow> u32 \<Rightarrow> s32 \<Rightarrow> s32 \<Rightarrow> s32 \<Rightarrow> 'b" where
  "log_message_ctor_android8 android10 self file line log_id severity error =
     android10 self file line log_id severity None error"

definition legacyGraphicBufferMapperLock ::
  "('h \<Rightarrow> u32 \<Rightarrow> 'r \<Rightarrow> 'v \<Rightarrow> s32 option \<Rightarrow> s32 option \<Rightarrow> s32) \<Rightarrow> 'h \<Rightarrow> u32 \<Rightarrow> 'r \<Rightarrow> 'v \<Rightarrow> s32" where
  "legacyGraphicBufferMapperLock lock handle usage bounds vaddr = lock handle usage bounds vaddr None None"

definition legacyGraphicBufferLock :: "(u32 \<Rightarrow> 'v \<Rightarrow> s32 option \<Rightarrow> s32 option \<Rightarrow> s32) \<Rightarrow> u32 \<Rightarrow> 'v \<Rightarrow> s32" where
  "legacyGraphicBufferLock lock usage vaddr = lock usage vaddr None None"

text \<open>The descriptors that the destructor of a fence closes.\<close>

definition legacyFenceDestructor :: "int \<Rightarrow> int list" where
  "legacyFenceDestructor fd = (if fd \<ge> 0 then [fd] else [])"

section \<open>Tools\<close>

text \<open>
  \<open>radio_state_test\<close>: the result of \<open>main\<close> is whether it exits with success, and the device states it sent, with
  their serial numbers. \<open>service\<close> tells whether the radio service was found, \<open>send\<close> whether the call went well.
\<close>

definition radio_state_test :: "string list \<Rightarrow> bool \<Rightarrow> (u32 \<Rightarrow> bool \<Rightarrow> bool) \<Rightarrow> bool \<times> (u32 \<times> bool) list" where
  "radio_state_test argv service send =
     (if length argv \<noteq> 2 \<or> (take 1 (argv ! 1) \<noteq> ''0'' \<and> take 1 (argv ! 1) \<noteq> ''1'') then (False, [])
      else (let lowDataExpected = (take 1 (argv ! 1) = ''1'')
            in if \<not> service then (False, [])
               else (send 0x48494e4f lowDataExpected, [(0x48494e4f, lowDataExpected)])))"

text \<open>\<open>remount_root\<close>: the exit code, given the result of \<open>mount\<close>.\<close>

definition remount_root :: "int \<Rightarrow> int" where
  "remount_root mount_ret = (if mount_ret \<noteq> 0 then 1 else 0)"

text \<open>At most one state is sent, it is the one that was asked for, and success means that it was accepted.\<close>

lemma radio_state_sent:
  assumes "radio_state_test argv service send = (ok, sent)"
  shows "(ok \<longrightarrow> (\<exists>low. sent = [(0x48494e4f, low)] \<and> send 0x48494e4f low)) \<and> length sent \<le> 1 \<and>
    (\<forall>(serial, low) \<in> set sent. \<exists>prog rest. argv = [prog, (if low then CHR ''1'' else CHR ''0'') # rest])"
proof (cases "sent = []")
  case True
  with assms show ?thesis by (auto simp: radio_state_test_def Let_def split: if_splits)
next
  case False
  with assms obtain prog arg where argv: "argv = [prog, arg]" by (auto simp: radio_state_test_def length_Suc_conv numeral_2_eq_2 split: if_splits)
  with assms False show ?thesis
    by (cases arg) (auto simp: radio_state_test_def Let_def split: if_splits)
qed

text \<open>Only the first character of the argument counts.\<close>

lemma radio_state_prefix: "snd (radio_state_test [''radio_state_test'', ''0x1''] True (\<lambda>_ _. True)) = [(0x48494e4f, False)]"
  by (simp add: radio_state_test_def)

section \<open>Frame sizes\<close>

text \<open>
  The inline functions of \<open>hardware/audio.h\<close>. The classification of formats and the channel counts of masks
  come from \<open>system/audio.h\<close>.
\<close>

record audio_formats =
  audio_has_proportional_frames :: "u32 \<Rightarrow> bool"
  audio_bytes_per_sample :: "u32 \<Rightarrow> nat"
  audio_channel_count_from_out_mask :: "u32 \<Rightarrow> nat"
  audio_channel_count_from_in_mask :: "u32 \<Rightarrow> nat"

record audio_stream =
  get_format :: u32
  get_channels :: u32

definition popcount :: "u32 \<Rightarrow> nat" where
  "popcount w = length (filter (bit w) [0..<32])"

definition audio_stream_frame_size :: "audio_formats \<Rightarrow> audio_stream \<Rightarrow> nat" where
  "audio_stream_frame_size fs s =
     (if audio_has_proportional_frames fs (get_format s)
      then popcount (get_channels s) * audio_bytes_per_sample fs (get_format s) else 1)"

definition audio_stream_out_frame_size :: "audio_formats \<Rightarrow> audio_stream \<Rightarrow> nat" where
  "audio_stream_out_frame_size fs s =
     (if audio_has_proportional_frames fs (get_format s)
      then audio_channel_count_from_out_mask fs (get_channels s) * audio_bytes_per_sample fs (get_format s) else 1)"

definition audio_stream_in_frame_size :: "audio_formats \<Rightarrow> audio_stream \<Rightarrow> nat" where
  "audio_stream_in_frame_size fs s =
     (if audio_has_proportional_frames fs (get_format s)
      then audio_channel_count_from_in_mask fs (get_channels s) * audio_bytes_per_sample fs (get_format s) else 1)"

text \<open>
  The deprecated function agrees with the two others where every bit of the mask is a channel, as it is in
  positional masks.
\<close>

lemma frame_sizes_agree:
  assumes "audio_channel_count_from_out_mask fs (get_channels s) = popcount (get_channels s)"
    and "audio_channel_count_from_in_mask fs (get_channels s) = popcount (get_channels s)"
  shows "audio_stream_out_frame_size fs s = audio_stream_frame_size fs s"
    "audio_stream_in_frame_size fs s = audio_stream_frame_size fs s"
  using assms by (simp_all add: audio_stream_frame_size_def audio_stream_out_frame_size_def audio_stream_in_frame_size_def)

lemma popcount_bounds: "popcount w \<le> 32" "popcount 0 = 0" "popcount 3 = 2"
proof -
  show "popcount w \<le> 32" using length_filter_le [of "bit w" "[0..<32]"] by (simp add: popcount_def)
  show "popcount 0 = 0" by (simp add: popcount_def)
  show "popcount 3 = 2" by (simp add: popcount_def upt_rec bit_numeral_rec)
qed

end
