(* ===== verification/Spec2Isabelle.thy ===== *)
theory Spec2Isabelle
  imports Driver_Wire Hal_Lifetimes Hal_Shutdown Hal_Interface Offload Wifi_Log Omx_Plugin Atci_Tools Boot_Bridge Agps_Bio
    Vendor_Shims
begin

text \<open>
  \<^bold>\<open>The native code of the Sony MT6757 device tree.\<close>

  The repository is an Android device tree. Most of its program logic is in two places, and both talk
  to the MediaTek Wi-Fi driver through netlink. \<open>src/wpa_supplicant_8_lib\<close> is the private part of
  the supplicant's nl80211 driver: a text command (\<open>DRIVER ...\<close>) arrives at
  \<open>wpa_driver_nl80211_driver_cmd\<close>, is parsed, and becomes a testmode message, an ioctl, or a change
  of the P2P state. \<open>src/wifi_hal\<close> is the vendor Wi-Fi HAL: it keeps a table of event handlers and a
  table of outstanding commands, assembles vendor requests, sends them and waits for the replies, and
  runs a loop that dispatches driver events to the registered commands (background scans, hotlists,
  network lists, significant changes, passpoint networks, ranging, the RSSI monitor). Smaller programs
  are the OMX plugin in \<open>src/omx\<close>, the modem tools in \<open>src/tools\<close>, the boot bridge, which is the first process of
  the device (\<open>src/rootdir/bootbridge-init.c\<close>), and the shims that keep old vendor programs running, the largest of
  which gives a GPS daemon the BIO structures of an older TLS library (\<open>src/libshims/agps_ssl\<close>).

  \<^bold>\<open>Theories of the supplicant part.\<close>
  \<^item> \<open>Mtk_Prelude\<close>: words, undefined behaviour as a value, C strings, \<open>strtol\<close>, \<open>printf\<close> formats,
    little-endian fields, the fact collections used by the components.
  \<^item> \<open>Testmode\<close> (\<open>mediatek_driver_nl80211.h\<close> and the senders of \<open>mediatek_driver_cmd_nl80211.c\<close>):
    request structures, \<open>wpa_driver_nl80211_testmode\<close>, software commands, hotspot lists, WAPI keys.
    The locales \<open>testmode_sender\<close> and \<open>fallible_sender\<close> state what a sender may do to the message log;
    every sender is an interpretation.
  \<^item> \<open>Lte_Coex\<close>: the reply with the available channels, and the automatic channel selection with its
    polling loop. The locale \<open>attr_fields\<close> is the contract of a reply handler that stores attributes
    in fields.
  \<^item> \<open>Sta_Statistics\<close>: the station statistics reply, the peer address, the printer, and the lines for the debug log.
  \<^item> \<open>P2p_Params\<close>: the tokenizer, the \<open>p2p_set_*\<close> commands, Wi-Fi Display data, capabilities, channels
    and frequencies, shared radio frequencies.
  \<^item> \<open>Driver_Cmd\<close>: the command handler, one definition per branch of its \<open>else if\<close> chain, the private
    ioctl, and the wrappers \<open>wpa_driver_set_p2p_noa\<close> and \<open>wpa_driver_set_p2p_ps\<close>. The locale
    \<open>cmd_branch\<close> is the contract of a branch and is interpreted for each one; \<open>driver_session\<close> is the
    step relation of command sequences.
  \<^item> \<open>Driver_Wire\<close>: what the commands deliver end to end, from the printed text to the bytes of the
    message, and under which conditions no undefined behaviour occurs.

  \<^bold>\<open>Theories of the HAL.\<close>
  \<^item> \<open>Hal_Registry\<close> (\<open>common.cpp\<close>, \<open>common.h\<close>): arrays with a count, the two tables, reference counts.
    The locale \<open>bounded_table\<close> is the table interface, interpreted on the arrays of the code;
    \<open>hal_step\<close> is the step relation of the table operations.
  \<^item> \<open>Hal_Command\<close> (\<open>cpp_bindings.h\<close>, \<open>cpp_bindings.cpp\<close>): requests and their assembly as a list of steps
    with a stack of open nests, \<open>requestResponse\<close>, the event requests, and the dispatcher of
    \<open>wifi_hal.cpp\<close>. The relation \<open>encodes\<close> is the abstract meaning of a list of steps: a list of
    attribute trees.
  \<^item> \<open>Wifi_Event\<close> (the same files): received messages, \<open>WifiEvent\<close> with its parser and getters,
    \<open>nl_iterator\<close>. The functions of libnl are a parameter; the locales \<open>libnl_attributes\<close> and
    \<open>libnl_format\<close> state their documented behaviour.
  \<^item> \<open>Wifi_Log\<close>: \<open>WifiEvent::log\<close>, the names of commands and attributes, \<open>get_err_info\<close>.
  \<^item> \<open>Hal_Events\<close>: what all commands with events share. The locale \<open>event_command\<close> is the contract of a
    command class (what its \<open>start\<close> and \<open>cancel\<close> do to the handler table), with the consequences for the
    functions of the HAL; every class is an interpretation.
  \<^item> \<open>Hal_Init\<close> (\<open>wifi_hal.cpp\<close>): initialisation and its resources, interfaces, multicast groups, the
    event loop, cleanup.
  \<^item> \<open>Hal_Features\<close> (\<open>wifi_hal.cpp\<close>): feature queries, country, roaming, the RSSI monitor, fixed answers.
  \<^item> \<open>Gscan_Requests\<close>, \<open>Gscan_Wire\<close>, \<open>Gscan_Commands\<close>, \<open>Gscan_Results\<close>, \<open>Gscan_Events\<close> (\<open>gscan.cpp\<close>): the
    messages of all classes, what a reader finds in them, \<open>start\<close> and \<open>cancel\<close> of the classes and the
    functions of the HAL, the answers of the driver (capabilities, channels, cached scans), the events.
  \<^item> \<open>Rtt\<close> (\<open>rtt.cpp\<close>): ranging requests, responder, results and their completion.
  \<^item> \<open>Offload\<close> (\<open>wifi_offload.cpp\<close>): offloaded keep-alive packets.
  \<^item> \<open>Hal_Session\<close>: all command classes side by side; \<open>hal_session\<close> is the step relation of a HAL in use.
  \<^item> \<open>Hal_Threads\<close> (\<open>sync.h\<close>, \<open>common.cpp\<close>): threads that interleave single accesses. The locale \<open>critical_section\<close>
    is the contract of data under a mutex, interpreted on the handler table and its accesses; the command table,
    which has no lock, and the condition variable with the requests for events follow.
  \<^item> \<open>Hal_Lifetimes\<close>: the event loop and any number of callers of the HAL at the same time, with the references
    they take and drop; \<open>life_step\<close> is the step relation, with one operation on a table or one release of a
    reference in each step.
  \<^item> \<open>Hal_Shutdown\<close>: \<open>wifi_cleanup\<close> and \<open>wifi_event_loop\<close> at the same time, with the messages between them.
  \<^item> \<open>Hal_Interface\<close>: the function table of the HAL, fixed answers, handles, accessors of events and iterators, and
    \<open>parseScanResults\<close>, which nothing calls.
  \<^item> This theory: events and cleanup across all of them.

  \<^bold>\<open>Other theories.\<close> \<open>Omx_Plugin\<close> (\<open>MtkOMXPlugin.cpp\<close>): loading of the codec core, hidden components,
  enumeration. \<open>Atci_Tools\<close> (\<open>atci_query.c\<close>, \<open>atcid_runner.c\<close>): the AT query with its read loop, the
  start of the daemon. \<open>Boot_Bridge\<close> (\<open>bootbridge-init.c\<close>): the process as a sequence of system calls that the
  kernel answers, with the mounts, the log, the two children and the start of \<open>/init\<close>; the locale \<open>call_view\<close> is what
  holds for any summary of the calls made so far, interpreted on mounts and open descriptors. \<open>Agps_Bio\<close>
  (\<open>agps_ssl.cpp\<close>): bridged BIOs with their creation, callbacks and destruction; the locale \<open>boring_bio\<close> states what
  the accessors of BoringSSL promise. \<open>Vendor_Shims\<close>: the other shims, two small tools, and the inline functions
  of \<open>hardware/audio.h\<close>.

  \<^bold>\<open>Correspondence.\<close> Structures are records with the fields of the code; integers that may wrap
  are words of their width, \<open>int\<close> results that never come near their limits are mathematical
  integers. A C pointer that may be null is an option or the number \<open>NULL\<close>. Undefined behaviour
  (out of bounds, null, uninitialised) is the left side of a sum, an error code is a value. What the
  kernel, libnl, the supplicant core, the codec core and the C library answer is a parameter of the
  definitions (the records \<open>drv_env\<close>, \<open>cmd_env\<close>, \<open>req_env\<close>, \<open>cmd_net\<close>, \<open>init_env\<close>, \<open>libnl\<close>, \<open>hal_consts\<close>,
  \<open>omx_core\<close>, \<open>boot_env\<close>, \<open>bio_api\<close>, \<open>new_env\<close>), so that each theorem holds for every behaviour of the other side unless it says
  otherwise. Messages sent are kept in a log in the order of sending. A vendor request is a message
  with attribute trees; structures of the driver are lists of bytes, read at the offsets that the
  compiler gives their members on the 64-bit ARM target.

  \<^bold>\<open>What the lemmas show.\<close> For the supplicant part: every message along every sequence of commands
  is well formed and the hang counter stays within its limit; the printed commands come back as the
  numbers that were printed; the tokenizer equals a reference splitter; the statistics handler
  stores each attribute in its own field; the printer is all or nothing; channel selection ends and
  picks the lowest free channel; frequencies and channels convert soundly. For the HAL: the tables
  never leave their arrays; whatever the order of calls, an assembled message is the encoding of its
  attribute trees, and a reader finds in it what the caller passed; exchanges return exactly when the
  kernel ends them; every command class starts, fails and stops without leaving anything behind; along
  every session each handler belongs to a live command; events reach the command that was started for
  them, with a reference held; cached results stay inside the caller's arrays; event structures arrive
  field by field; loops over nested attributes end; cleanup deletes every command once. For the
  plugin, enumeration is that of the core without the broken components; for the query tool, only
  read-only commands are sent. Under concurrency: the mutex makes every operation of the handler table atomic,
  in the order of completion; no command is used after its deletion and none is leaked while the event loop and
  any number of callers run, as long as nobody cancels a command that is still being started; the event loop has ended before the shutdown frees anything. The boot bridge starts \<open>/init\<close> only from
  a clean state, and always ends there or waits after a call that failed. The AGPS bridge gives the daemon the
  results of its own callbacks on the old structure, and frees what it allocates once. Lemmas without a claim number that follow such properties show inputs
  on which the code goes wrong.

  \<^bold>\<open>Loops and fuel.\<close> Loops over arrays and strings are functions with a measure. The reply loop, the
  event loop, the cancellation loop, the iterator and the enumeration may run for ever; they are partial
  functions into \<open>option\<close>, where \<open>None\<close> means that they do not return, and the theorems about them prove
  that they return (or that they do not). The numbers 10 in \<open>execute_loop\<close> and 20 in \<open>query_loop\<close> are the
  bounds of the code's own loops, and 60 in \<open>bootbridge\<close> is its number of attempts to mount. No definition uses fuel.

  \<^bold>\<open>Not modelled, and why.\<close> Log output other than \<open>WifiEvent::log\<close> and \<open>format_sta_statistics\<close>. Accesses to the
  command table are single steps in \<open>Hal_Lifetimes\<close>, although the code has no lock for them; \<open>Hal_Threads\<close> shows what
  their interleaving does. The camera headers and most of the audio header declare constants and interfaces that
  nothing here runs. The radio bridge is a Java service that passes calls on; patch scripts, policies and
  configuration belong to other programs.
\<close>

section \<open>Properties that span components\<close>

definition vendor_event :: "int \<Rightarrow> hal_event" where
  "vendor_event e = \<lparr>ev_cmd = NL80211_CMD_VENDOR, ev_vendor_id = GOOGLE_OUI, ev_vendor_subcmd = e\<rparr>"

lemma ev_matches_vendor: "ev_matches (vendor_event e) = is_vendor_cb GOOGLE_OUI e"
  by (auto simp: fun_eq_iff ev_matches_def vendor_event_def is_vendor_cb_def)

lemma dispatch_unhandled:
  assumes "hal_inv (tabs st)" "no_handler es (tabs st)" "e \<in> set es"
  shows "internal_valid_message_handler call (Some (vendor_event e)) st = (NL_OK, st)"
proof -
  have "find (ev_matches (vendor_event e)) (handlers (tabs st)) = None"
    using assms(2,3) by (auto simp: ev_matches_vendor find_None_iff no_handler_def)
  with assms(1) show ?thesis by (simp add: dispatch_spec)
qed


lemma monitor_starts:
  "\<exists>st1. hal_start some_consts roomy (\<lambda>_. acking_unit 0) (new_request 20 5) 1 (Rssi_command 0 0) 77 5 fresh_hal = ret (WIFI_SUCCESS, st1)"
proof -
  have "encodes ([Start NL80211_ATTR_VENDOR_DATA False, put_u32 WIFI_ATTRIBUTE_MAX_RSSI 0, put_u32 WIFI_ATTRIBUTE_MIN_RSSI 0,
      put_u32 WIFI_ATTRIBUTE_RSSI_MONITOR_START 1, End])
    [Nest NL80211_ATTR_VENDOR_DATA [u32_attr WIFI_ATTRIBUTE_MAX_RSSI 0, u32_attr WIFI_ATTRIBUTE_MIN_RSSI 0,
      u32_attr WIFI_ATTRIBUTE_RSSI_MONITOR_START 1]]"
    using encodes_nest [OF encodes_puts, of NL80211_ATTR_VENDOR_DATA False
        "[(WIFI_ATTRIBUTE_MAX_RSSI, 0), (WIFI_ATTRIBUTE_MIN_RSSI, 0), (WIFI_ATTRIBUTE_RSSI_MONITOR_START, 1)]"] by simp
  from roomy_request [OF this, of WIFI_SUBCMD_SET_RSSI_MONITOR "new_request 20 5"]
  obtain r' where "rssi_createRequest roomy 0 0 True (new_request 20 5) = Inr (0, r')"
    by (auto simp: rssi_createRequest_def)
  from transact_returns [OF acking_unit_ends [of 0] this]
  have "transact (acking_unit 0) (rssi_createRequest roomy 0 0 True (new_request 20 5)) = ret 0" by simp
  moreover obtain i1 where "wifi_register_cmd 5 77 (init_tabs no_cb no_cmd) = (WIFI_SUCCESS, i1)"
    using register_cmd_spec [OF hal_inv_init, of no_cb no_cmd 5 77] by (auto simp: DEFAULT_CMD_SIZE_def)
  ultimately show ?thesis
    by (simp add: wifi_start_rssi_monitoring_def start_registered_def rssi_start_def wifi_codes)
qed


section \<open>Cleanup of a HAL in use\<close>

text \<open>
  No class removes its command from the table in \<open>cancel\<close>, so that the loop of \<open>wifi_cleanup\<close> counts every
  command as bad and goes on to the next one: it visits each command once.
\<close>

definition cleanup_inv :: "ptr \<Rightarrow> (ptr \<Rightarrow> command) \<Rightarrow> cmd_info list \<Rightarrow> nat \<Rightarrow> hal_state \<Rightarrow> bool" where
  "cleanup_inv func obj cs bad st \<longleftrightarrow> hal_inv (tabs st) \<and> commands (tabs st) = cs \<and>
     (\<forall>j < length cs. live st (ci_cmd (cs ! j)) = (if j < bad then 0 else 1)) \<and>
     (\<forall>cb \<in> set (handlers (tabs st)). cb_arg cb \<in> ci_cmd ` set (drop bad cs) \<and> handler_ok func (tabs st) obj cb) \<and>
     (\<forall>e. length (filter (handles e) (handlers (tabs st))) \<le> 1)"

lemma cleanup_turn:
  assumes inv: "cleanup_inv func obj cs bad st" and "bad < length cs" "distinct (map ci_cmd cs)"
    and c: "command_cancel env net r (obj (ci_cmd (cs ! bad))) (tabs st) = ret (x, info')"
  shows "cleanup_inv func obj cs (Suc bad) (st\<lparr>tabs := info', live := releaseRef (ci_cmd (cs ! bad)) (live st)\<rparr>)"
    "cmds info' = cmds (tabs st)"
proof -
  let ?p = "ci_cmd (cs ! bad)"
  have i: "hal_inv (tabs st)" "\<forall>e \<in> set (command_events (obj ?p)). length (filter (handles e) (handlers (tabs st))) \<le> 1"
    using inv by (auto simp: cleanup_inv_def)
  from cmd.cancel_removes [OF c i] have info': "hal_inv info'" "cmds info' = cmds (tabs st)"
    "handlers info' = filter (\<lambda>cb. \<forall>e \<in> set (command_events (obj ?p)). \<not> handles e cb) (handlers (tabs st))" by auto
  then show "cmds info' = cmds (tabs st)" by simp
  have "cb_arg cb \<in> ci_cmd ` set (drop (Suc bad) cs) \<and> handler_ok func info' obj cb" if "cb \<in> set (handlers info')" for cb
  proof -
    have cb: "cb_arg cb \<in> ci_cmd ` set (drop bad cs)" "handler_ok func (tabs st) obj cb"
      "\<forall>e \<in> set (command_events (obj ?p)). \<not> handles e cb" using that inv info'(3) by (auto simp: cleanup_inv_def)
    then have "cb_arg cb \<noteq> ?p" by (auto simp: handler_ok_def handles_iff)
    with cb(1) have "cb_arg cb \<in> ci_cmd ` set (drop (Suc bad) cs)"
      using assms(2) by (auto simp: Cons_nth_drop_Suc [symmetric])
    with cb(2) show ?thesis using info'(2) by (simp add: handler_ok_def)
  qed
  moreover have "length (filter (handles e) (handlers info')) \<le> 1" for e
    using inv le_trans [OF length_filter_sub] unfolding info'(3) cleanup_inv_def by fastforce
  moreover have "releaseRef ?p (live st) (ci_cmd (cs ! j)) = (if j < Suc bad then 0 else 1)" if "j < length cs" for j
    using inv that assms(2) nth_eq_iff_index_eq [OF assms(3), of j bad]
    by (auto simp: cleanup_inv_def releaseRef_def less_Suc_eq)
  ultimately show "cleanup_inv func obj cs (Suc bad) (st\<lparr>tabs := info', live := releaseRef ?p (live st)\<rparr>)"
    using inv info' by (simp add: cleanup_inv_def)
qed

lemma cleanup_loop_all:
  assumes "\<And>c info. returns (command_cancel env net r c info)" "distinct (map ci_cmd cs)"
    and "\<forall>ci \<in> set cs. ci_cmd ci \<noteq> NULL"
  shows "cleanup_inv func obj cs bad st \<Longrightarrow> bad \<le> length cs \<Longrightarrow>
    \<exists>st'. cleanup_loop (vcancel env net r obj) bad st = ret st' \<and> cleanup_inv func obj cs (length cs) st'"
proof (induction "length cs - bad" arbitrary: bad st)
  case 0
  have "tab_num (cmds (tabs st)) = length cs" using 0 by (auto simp: cleanup_inv_def tab_abs_def hal_inv_def tab_inv_def)
  with 0 show ?case by (subst cleanup_loop.simps) (simp add: Let_def)
next
  case (Suc n)
  then have bad: "bad < length cs" by simp
  let ?p = "ci_cmd (cs ! bad)"
  have t: "tab_num (cmds (tabs st)) = length cs" "tab_arr (cmds (tabs st)) ! bad = cs ! bad"
    using Suc.prems(1) bad by (auto simp: cleanup_inv_def tab_abs_def hal_inv_def tab_inv_def)
  obtain x info' where c: "command_cancel env net r (obj ?p) (tabs st) = ret (x, info')"
    using assms(1) by (force simp: returns_def)
  note turn = cleanup_turn [OF Suc.prems(1) bad assms(2) c]
  let ?st = "st\<lparr>tabs := info', live := releaseRef ?p (live st)\<rparr>"
  have "cleanup_loop (vcancel env net r obj) bad st = cleanup_loop (vcancel env net r obj) (Suc bad) ?st"
    using c t bad assms(3) turn(2)
    by (subst cleanup_loop.simps) (simp add: vcancel_def on_tabs_def ret_def run_then_def Let_def)
  with Suc.hyps(1) [OF _ turn(1)] Suc.hyps(2) bad show ?case by simp
qed



end
